(* ===== verification/Go_Prelude.thy ===== *)
theory Go_Prelude
  imports Main "HOL-Library.Word" "HOL-Library.Sublist" "HOL-Library.AList" "HOL-Library.Multiset"
begin

text \<open>
  What every component of the development shares: the theorem collections, Go slices with
  their nil value, map indexing with a zero value, the \<open>for ... range\<close> membership loop,
  suffixes of strings, and decimal printing.

  A Go \<open>string\<close> is a sequence of bytes: the type \<^typ>\<open>string\<close> (a \<^typ>\<open>char list\<close>, one
  \<^typ>\<open>char\<close> per byte). A Go slice is \<open>'a slice\<close>: \<^const>\<open>None\<close> is the nil slice, which
  the program distinguishes from an empty one (nil is a cache miss, empty is a cached answer).
\<close>

named_theorems perm_consts \<open>definitions of the string constants of role_permissions.go\<close>
named_theorems handler_defs \<open>definitions of the operations, for unfolding in proofs about them\<close>

section \<open>Types and states shared by the components\<close>

type_synonym 'a slice = "'a list option"
type_synonym go_int = "64 word"

abbreviation nil_slice :: "'a slice" where
  "nil_slice \<equiv> None"

definition slice_elems :: "'a slice \<Rightarrow> 'a list" where
  "slice_elems s = (case s of None \<Rightarrow> [] | Some xs \<Rightarrow> xs)"

lemma slice_elems_simps [simp]:
  "slice_elems None = []"
  "slice_elems (Some xs) = xs"
  by (simp_all add: slice_elems_def)

text \<open>Indexing a Go map at an absent key gives the zero value of the element type.\<close>

definition map_index :: "'v \<Rightarrow> ('k \<rightharpoonup> 'v) \<Rightarrow> 'k \<Rightarrow> 'v" where
  "map_index zero m k = (case m k of None \<Rightarrow> zero | Some v \<Rightarrow> v)"

lemma map_index_simps [simp]:
  "m k = None \<Longrightarrow> map_index z m k = z"
  "m k = Some v \<Longrightarrow> map_index z m k = v"
  by (simp_all add: map_index_def)

text \<open>The loop \<open>for _, p := range xs { if p == x { return true } }; return false\<close>.\<close>

fun range_contains :: "'a list \<Rightarrow> 'a \<Rightarrow> bool" where
  "range_contains [] x = False"
| "range_contains (p # ps) x = (if p = x then True else range_contains ps x)"

lemma range_contains_iff [simp]: "range_contains xs x \<longleftrightarrow> x \<in> set xs"
  by (induction xs) auto

section \<open>Lists and strings\<close>

lemma append_colon_inj:
  assumes "CHR '':'' \<notin> set u" and "CHR '':'' \<notin> set u'"
    and "u @ '':'' @ t = u' @ '':'' @ t'"
  shows "u = u' \<and> t = t'"
  using assms
proof (induction u arbitrary: u')
  case Nil
  then show ?case by (cases u') auto
next
  case (Cons c cs)
  then show ?case by (cases u') auto
qed

lemma suffix_colon_iff:
  assumes "CHR '':'' \<notin> set t" and "CHR '':'' \<notin> set t'"
  shows "suffix ('':'' @ t') (u @ '':'' @ t) \<longleftrightarrow> t = t'"
proof
  assume "suffix ('':'' @ t') (u @ '':'' @ t)"
  then obtain v where "u @ '':'' @ t = v @ '':'' @ t'"
    by (auto simp: suffix_def)
  then have "rev (u @ '':'' @ t) = rev (v @ '':'' @ t')"
    by (rule arg_cong)
  then have "rev t @ '':'' @ rev u = rev t' @ '':'' @ rev v"
    by simp
  then have "rev t = rev t'"
    using append_colon_inj [of "rev t" "rev t'"] assms by simp
  then show "t = t'" by simp
next
  assume "t = t'"
  then show "suffix ('':'' @ t') (u @ '':'' @ t)"
    by (simp add: suffix_def)
qed

lemma drop_eq_suffix:
  "length ys \<le> length xs \<Longrightarrow> drop (length xs - length ys) xs = ys \<longleftrightarrow> suffix ys xs"
  by (metis append_eq_conv_conj length_append diff_add_inverse2 suffix_def suffix_drop)

text \<open>The UTF-8 bytes of an em dash, which some messages of the program contain.\<close>

definition em_dash :: string where
  "em_dash = [CHR 0xE2, CHR 0x80, CHR 0x94]"

section \<open>Association lists as finite maps\<close>

lemma map_of_filter_keys:
  "map_of (filter (\<lambda>(k, v). P k) m) k = (if P k then map_of m k else None)"
  by (induction m) auto

lemma map_of_eq_if_mset_eq:
  assumes "mset m = mset m'" and "distinct (map fst m)"
  shows "map_of m = map_of m'"
proof -
  have "mset (map fst m) = mset (map fst m')" using assms(1) by (metis mset_map)
  then have "distinct (map fst m')" using assms(2) by (metis mset_eq_imp_distinct_iff)
  moreover have "set m = set m'" using assms(1) by (rule mset_eq_setD)
  ultimately show ?thesis using assms(2) by (metis map_of_inject_set)
qed

section \<open>Decimal printing\<close>

text \<open>\<open>strconv.FormatInt(n, 10)\<close>, also the text of a \<open>%d\<close> verb.\<close>

definition digit_char :: "nat \<Rightarrow> char" where
  "digit_char d = char_of (48 + d)"

fun nat_digits :: "nat \<Rightarrow> string" where
  "nat_digits n = (if n < 10 then [digit_char n] else nat_digits (n div 10) @ [digit_char (n mod 10)])"

declare nat_digits.simps [simp del]

definition FormatInt :: "int \<Rightarrow> string" where
  "FormatInt n = (if n < 0 then ''-'' @ nat_digits (nat (- n)) else nat_digits (nat n))"

section \<open>ASCII letters\<close>

definition upper_ascii :: "char \<Rightarrow> char" where
  "upper_ascii c =
     (if 97 \<le> (of_char c :: nat) \<and> (of_char c :: nat) \<le> 122 then char_of (of_char c - 32 :: nat) else c)"

definition lower_ascii :: "char \<Rightarrow> char" where
  "lower_ascii c =
     (if 65 \<le> (of_char c :: nat) \<and> (of_char c :: nat) \<le> 90 then char_of (of_char c + 32 :: nat) else c)"

end
