(* ===== verification/Role_Permissions.thy ===== *)
theory Role_Permissions
  imports Go_Prelude
begin

text \<open>
  The permission vocabulary of \<open>helios_permissions/role_permissions.go\<close>: the role, permission
  and scope constants, the four scope tuples, \<open>PERM_SCOPE\<close>, \<open>ROLE_PERMISSIONS\<close> and the
  functions over them. \<open>Role\<close>, \<open>Permission\<close> and \<open>PermScope\<close> are Go string types, so
  a value of them may be any string (a permission read from the cache or from Helios is); the
  model keeps them strings. A Go map literal is the association list of its entries in source
  order, read with \<^const>\<open>map_of\<close> (the compiler rejects a repeated constant key).
\<close>

section \<open>The constants\<close>

type_synonym Role = string
type_synonym Permission = string
type_synonym PermScope = string

definition RoleOwner :: Role where [perm_consts]: "RoleOwner = ''OWNER''"
definition RoleAdmin :: Role where [perm_consts]: "RoleAdmin = ''ADMIN''"
definition RoleEditor :: Role where [perm_consts]: "RoleEditor = ''EDITOR''"
definition RoleViewer :: Role where [perm_consts]: "RoleViewer = ''VIEWER''"
definition PermissionAthensProjectDelete :: Permission where [perm_consts]: "PermissionAthensProjectDelete = ''athens:project:delete''"
definition PermissionAthensProjectUpdate :: Permission where [perm_consts]: "PermissionAthensProjectUpdate = ''athens:project:update''"
definition PermissionAthensProjectView :: Permission where [perm_consts]: "PermissionAthensProjectView = ''athens:project:view''"
definition PermissionAthensServicesDisable :: Permission where [perm_consts]: "PermissionAthensServicesDisable = ''athens:services:disable''"
definition PermissionAthensServicesEnable :: Permission where [perm_consts]: "PermissionAthensServicesEnable = ''athens:services:enable''"
definition PermissionAthensTeamInvite :: Permission where [perm_consts]: "PermissionAthensTeamInvite = ''athens:team:invite''"
definition PermissionAthensTeamRemove :: Permission where [perm_consts]: "PermissionAthensTeamRemove = ''athens:team:remove''"
definition PermissionHeliosExternalRegister :: Permission where [perm_consts]: "PermissionHeliosExternalRegister = ''helios:external:register''"
definition PermissionHeliosExternalRevoke :: Permission where [perm_consts]: "PermissionHeliosExternalRevoke = ''helios:external:revoke''"
definition PermissionHeliosExternalView :: Permission where [perm_consts]: "PermissionHeliosExternalView = ''helios:external:view''"
definition PermissionHeliosInvitationsCreate :: Permission where [perm_consts]: "PermissionHeliosInvitationsCreate = ''helios:invitations:create''"
definition PermissionHeliosInvitationsRevoke :: Permission where [perm_consts]: "PermissionHeliosInvitationsRevoke = ''helios:invitations:revoke''"
definition PermissionHeliosMembersInvite :: Permission where [perm_consts]: "PermissionHeliosMembersInvite = ''helios:members:invite''"
definition PermissionHeliosMembersRemove :: Permission where [perm_consts]: "PermissionHeliosMembersRemove = ''helios:members:remove''"
definition PermissionHeliosMembersView :: Permission where [perm_consts]: "PermissionHeliosMembersView = ''helios:members:view''"
definition PermissionHeliosRolesAssign :: Permission where [perm_consts]: "PermissionHeliosRolesAssign = ''helios:roles:assign''"
definition PermissionHeliosRolesRevoke :: Permission where [perm_consts]: "PermissionHeliosRolesRevoke = ''helios:roles:revoke''"
definition PermissionHeliosTenantSwitchSelf :: Permission where [perm_consts]: "PermissionHeliosTenantSwitchSelf = ''helios:tenant:switch:self''"
definition PermissionHeliosTenantTransfer :: Permission where [perm_consts]: "PermissionHeliosTenantTransfer = ''helios:tenant:transfer''"
definition PermissionMercuryApi_keysCreate :: Permission where [perm_consts]: "PermissionMercuryApi_keysCreate = ''mercury:api_keys:create''"
definition PermissionMercuryApi_keysManage :: Permission where [perm_consts]: "PermissionMercuryApi_keysManage = ''mercury:api_keys:manage''"
definition PermissionMercuryApi_keysRead :: Permission where [perm_consts]: "PermissionMercuryApi_keysRead = ''mercury:api_keys:read''"
definition PermissionMercuryApi_keysRevoke :: Permission where [perm_consts]: "PermissionMercuryApi_keysRevoke = ''mercury:api_keys:revoke''"
definition PermissionMercuryAuth_configRead :: Permission where [perm_consts]: "PermissionMercuryAuth_configRead = ''mercury:auth_config:read''"
definition PermissionMercuryAuth_config_appleCreate :: Permission where [perm_consts]: "PermissionMercuryAuth_config_appleCreate = ''mercury:auth_config_apple:create''"
definition PermissionMercuryAuth_config_appleUpdate :: Permission where [perm_consts]: "PermissionMercuryAuth_config_appleUpdate = ''mercury:auth_config_apple:update''"
definition PermissionMercuryAuth_config_forgot_passwordCreate :: Permission where [perm_consts]: "PermissionMercuryAuth_config_forgot_passwordCreate = ''mercury:auth_config_forgot_password:create''"
definition PermissionMercuryAuth_config_forgot_passwordRead :: Permission where [perm_consts]: "PermissionMercuryAuth_config_forgot_passwordRead = ''mercury:auth_config_forgot_password:read''"
definition PermissionMercuryAuth_config_forgot_passwordUpdate :: Permission where [perm_consts]: "PermissionMercuryAuth_config_forgot_passwordUpdate = ''mercury:auth_config_forgot_password:update''"
definition PermissionMercuryAuth_config_oauthCreate :: Permission where [perm_consts]: "PermissionMercuryAuth_config_oauthCreate = ''mercury:auth_config_oauth:create''"
definition PermissionMercuryAuth_config_oauthUpdate :: Permission where [perm_consts]: "PermissionMercuryAuth_config_oauthUpdate = ''mercury:auth_config_oauth:update''"
definition PermissionMercuryConnectionReadSelf :: Permission where [perm_consts]: "PermissionMercuryConnectionReadSelf = ''mercury:connection:read:self''"
definition PermissionMercuryConnection_googleRevokeSelf :: Permission where [perm_consts]: "PermissionMercuryConnection_googleRevokeSelf = ''mercury:connection_google:revoke:self''"
definition PermissionMercuryConnection_imapCreateSelf :: Permission where [perm_consts]: "PermissionMercuryConnection_imapCreateSelf = ''mercury:connection_imap:create:self''"
definition PermissionMercuryConnection_imapRevokeSelf :: Permission where [perm_consts]: "PermissionMercuryConnection_imapRevokeSelf = ''mercury:connection_imap:revoke:self''"
definition PermissionMercuryConnection_oauthCompleteSelf :: Permission where [perm_consts]: "PermissionMercuryConnection_oauthCompleteSelf = ''mercury:connection_oauth:complete:self''"
definition PermissionMercuryConnection_oauthInitiateSelf :: Permission where [perm_consts]: "PermissionMercuryConnection_oauthInitiateSelf = ''mercury:connection_oauth:initiate:self''"
definition PermissionMercuryConnection_oauthRefresh :: Permission where [perm_consts]: "PermissionMercuryConnection_oauthRefresh = ''mercury:connection_oauth:refresh''"
definition PermissionMercuryConnection_slackPhrase_createSelf :: Permission where [perm_consts]: "PermissionMercuryConnection_slackPhrase_createSelf = ''mercury:connection_slack:phrase_create:self''"
definition PermissionMercuryConnection_slackRevokeSelf :: Permission where [perm_consts]: "PermissionMercuryConnection_slackRevokeSelf = ''mercury:connection_slack:revoke:self''"
definition PermissionMercuryEventsConsume :: Permission where [perm_consts]: "PermissionMercuryEventsConsume = ''mercury:events:consume''"
definition PermissionMercuryService_clientsRead :: Permission where [perm_consts]: "PermissionMercuryService_clientsRead = ''mercury:service_clients:read''"
definition PermissionMercuryUserDeleteSelf :: Permission where [perm_consts]: "PermissionMercuryUserDeleteSelf = ''mercury:user:delete:self''"
definition PermissionMercuryUserReadSelf :: Permission where [perm_consts]: "PermissionMercuryUserReadSelf = ''mercury:user:read:self''"
definition PermissionMercuryUserWriteSelf :: Permission where [perm_consts]: "PermissionMercuryUserWriteSelf = ''mercury:user:write:self''"
definition PermissionMercuryUsersBatch_read :: Permission where [perm_consts]: "PermissionMercuryUsersBatch_read = ''mercury:users:batch_read''"
definition PermissionMercuryUsersRead :: Permission where [perm_consts]: "PermissionMercuryUsersRead = ''mercury:users:read''"
definition PermissionMercuryUsersWrite :: Permission where [perm_consts]: "PermissionMercuryUsersWrite = ''mercury:users:write''"
definition PermissionMuseAuthorCreate :: Permission where [perm_consts]: "PermissionMuseAuthorCreate = ''muse:author:create''"
definition PermissionMuseAuthorDelete :: Permission where [perm_consts]: "PermissionMuseAuthorDelete = ''muse:author:delete''"
definition PermissionMuseAuthorRead :: Permission where [perm_consts]: "PermissionMuseAuthorRead = ''muse:author:read''"
definition PermissionMuseBlogCreate :: Permission where [perm_consts]: "PermissionMuseBlogCreate = ''muse:blog:create''"
definition PermissionMuseBlogRead :: Permission where [perm_consts]: "PermissionMuseBlogRead = ''muse:blog:read''"
definition PermissionMuseDraftsRead :: Permission where [perm_consts]: "PermissionMuseDraftsRead = ''muse:drafts:read''"
definition PermissionMuseDraftsWrite :: Permission where [perm_consts]: "PermissionMuseDraftsWrite = ''muse:drafts:write''"
definition PermissionMusePostsDelete :: Permission where [perm_consts]: "PermissionMusePostsDelete = ''muse:posts:delete''"
definition PermissionMusePostsRead :: Permission where [perm_consts]: "PermissionMusePostsRead = ''muse:posts:read''"
definition PermissionMusePostsWrite :: Permission where [perm_consts]: "PermissionMusePostsWrite = ''muse:posts:write''"
definition PermissionZetaBillingManage :: Permission where [perm_consts]: "PermissionZetaBillingManage = ''zeta:billing:manage''"
definition PermissionZetaBillingView :: Permission where [perm_consts]: "PermissionZetaBillingView = ''zeta:billing:view''"
definition PermissionZetaDriversManage :: Permission where [perm_consts]: "PermissionZetaDriversManage = ''zeta:drivers:manage''"
definition PermissionZetaDriversView :: Permission where [perm_consts]: "PermissionZetaDriversView = ''zeta:drivers:view''"
definition PermissionZetaFinesAssign :: Permission where [perm_consts]: "PermissionZetaFinesAssign = ''zeta:fines:assign''"
definition PermissionZetaFinesChallenge :: Permission where [perm_consts]: "PermissionZetaFinesChallenge = ''zeta:fines:challenge''"
definition PermissionZetaFinesCreate :: Permission where [perm_consts]: "PermissionZetaFinesCreate = ''zeta:fines:create''"
definition PermissionZetaFinesPay :: Permission where [perm_consts]: "PermissionZetaFinesPay = ''zeta:fines:pay''"
definition PermissionZetaFinesView :: Permission where [perm_consts]: "PermissionZetaFinesView = ''zeta:fines:view''"
definition PermissionZetaFleetEdit :: Permission where [perm_consts]: "PermissionZetaFleetEdit = ''zeta:fleet:edit''"
definition PermissionZetaFleetView :: Permission where [perm_consts]: "PermissionZetaFleetView = ''zeta:fleet:view''"
definition PermissionZetaReportsView :: Permission where [perm_consts]: "PermissionZetaReportsView = ''zeta:reports:view''"
definition PermissionZetaTeamManage :: Permission where [perm_consts]: "PermissionZetaTeamManage = ''zeta:team:manage''"
definition PermissionZetaTenantConfigure :: Permission where [perm_consts]: "PermissionZetaTenantConfigure = ''zeta:tenant:configure''"
definition ScopeSelf :: PermScope where [perm_consts]: "ScopeSelf = ''self''"
definition ScopePlatform :: PermScope where [perm_consts]: "ScopePlatform = ''platform''"
definition ScopeProject :: PermScope where [perm_consts]: "ScopeProject = ''project''"
definition ScopePlatformProject :: PermScope where [perm_consts]: "ScopePlatformProject = ''platform/project''"

section \<open>The tables\<close>

definition SELF_PERMISSIONS :: "Permission list" where
  "SELF_PERMISSIONS =
   [PermissionMercuryUserReadSelf,
    PermissionMercuryUserWriteSelf,
    PermissionMercuryUserDeleteSelf,
    PermissionMercuryConnectionReadSelf,
    PermissionMercuryConnection_slackPhrase_createSelf,
    PermissionMercuryConnection_oauthInitiateSelf,
    PermissionMercuryConnection_oauthCompleteSelf,
    PermissionMercuryConnection_slackRevokeSelf,
    PermissionMercuryConnection_googleRevokeSelf,
    PermissionMercuryConnection_imapRevokeSelf,
    PermissionMercuryConnection_imapCreateSelf,
    PermissionHeliosTenantSwitchSelf]"

definition PLATFORM_PERMISSIONS :: "Permission list" where
  "PLATFORM_PERMISSIONS =
   [PermissionAthensProjectView,
    PermissionAthensProjectUpdate,
    PermissionAthensProjectDelete,
    PermissionAthensServicesEnable,
    PermissionAthensServicesDisable,
    PermissionAthensTeamInvite,
    PermissionAthensTeamRemove,
    PermissionMercuryUsersRead,
    PermissionMercuryUsersWrite,
    PermissionMercuryUsersBatch_read,
    PermissionMercuryApi_keysCreate,
    PermissionMercuryApi_keysRevoke,
    PermissionMercuryApi_keysRead,
    PermissionMercuryApi_keysManage,
    PermissionMercuryService_clientsRead,
    PermissionMercuryAuth_configRead,
    PermissionMercuryAuth_config_appleCreate,
    PermissionMercuryAuth_config_appleUpdate,
    PermissionMercuryAuth_config_oauthCreate,
    PermissionMercuryAuth_config_oauthUpdate,
    PermissionMercuryAuth_config_forgot_passwordCreate,
    PermissionMercuryAuth_config_forgot_passwordUpdate,
    PermissionMercuryAuth_config_forgot_passwordRead,
    PermissionMercuryConnection_oauthRefresh,
    PermissionMercuryEventsConsume,
    PermissionMuseBlogCreate,
    PermissionMuseBlogRead,
    PermissionMuseAuthorCreate,
    PermissionMuseAuthorDelete,
    PermissionHeliosTenantTransfer,
    PermissionHeliosMembersView,
    PermissionHeliosMembersInvite,
    PermissionHeliosMembersRemove,
    PermissionHeliosRolesAssign,
    PermissionHeliosRolesRevoke,
    PermissionHeliosInvitationsCreate,
    PermissionHeliosInvitationsRevoke,
    PermissionHeliosExternalRegister,
    PermissionHeliosExternalRevoke,
    PermissionHeliosExternalView]"

definition PROJECT_PERMISSIONS :: "Permission list" where
  "PROJECT_PERMISSIONS =
   [PermissionMusePostsRead,
    PermissionMusePostsWrite,
    PermissionMusePostsDelete,
    PermissionMuseDraftsRead,
    PermissionMuseDraftsWrite,
    PermissionZetaFinesView,
    PermissionZetaFinesCreate,
    PermissionZetaFinesPay,
    PermissionZetaFinesChallenge,
    PermissionZetaFinesAssign,
    PermissionZetaFleetView,
    PermissionZetaFleetEdit,
    PermissionZetaDriversView,
    PermissionZetaDriversManage,
    PermissionZetaReportsView,
    PermissionZetaBillingView,
    PermissionZetaBillingManage,
    PermissionZetaTeamManage,
    PermissionZetaTenantConfigure]"

definition DUAL_PERMISSIONS :: "Permission list" where
  "DUAL_PERMISSIONS =
   [PermissionMuseAuthorRead]"

definition PERM_SCOPE :: "(Permission \<times> PermScope) list" where
  "PERM_SCOPE =
   [(PermissionMercuryUserReadSelf, ScopeSelf),
    (PermissionMercuryUserWriteSelf, ScopeSelf),
    (PermissionMercuryUserDeleteSelf, ScopeSelf),
    (PermissionMercuryConnectionReadSelf, ScopeSelf),
    (PermissionMercuryConnection_slackPhrase_createSelf, ScopeSelf),
    (PermissionMercuryConnection_oauthInitiateSelf, ScopeSelf),
    (PermissionMercuryConnection_oauthCompleteSelf, ScopeSelf),
    (PermissionMercuryConnection_slackRevokeSelf, ScopeSelf),
    (PermissionMercuryConnection_googleRevokeSelf, ScopeSelf),
    (PermissionMercuryConnection_imapRevokeSelf, ScopeSelf),
    (PermissionMercuryConnection_imapCreateSelf, ScopeSelf),
    (PermissionHeliosTenantSwitchSelf, ScopeSelf),
    (PermissionAthensProjectView, ScopePlatform),
    (PermissionAthensProjectUpdate, ScopePlatform),
    (PermissionAthensProjectDelete, ScopePlatform),
    (PermissionAthensServicesEnable, ScopePlatform),
    (PermissionAthensServicesDisable, ScopePlatform),
    (PermissionAthensTeamInvite, ScopePlatform),
    (PermissionAthensTeamRemove, ScopePlatform),
    (PermissionMercuryUsersRead, ScopePlatform),
    (PermissionMercuryUsersWrite, ScopePlatform),
    (PermissionMercuryUsersBatch_read, ScopePlatform),
    (PermissionMercuryApi_keysCreate, ScopePlatform),
    (PermissionMercuryApi_keysRevoke, ScopePlatform),
    (PermissionMercuryApi_keysRead, ScopePlatform),
    (PermissionMercuryApi_keysManage, ScopePlatform),
    (PermissionMercuryService_clientsRead, ScopePlatform),
    (PermissionMercuryAuth_configRead, ScopePlatform),
    (PermissionMercuryAuth_config_appleCreate, ScopePlatform),
    (PermissionMercuryAuth_config_appleUpdate, ScopePlatform),
    (PermissionMercuryAuth_config_oauthCreate, ScopePlatform),
    (PermissionMercuryAuth_config_oauthUpdate, ScopePlatform),
    (PermissionMercuryAuth_config_forgot_passwordCreate, ScopePlatform),
    (PermissionMercuryAuth_config_forgot_passwordUpdate, ScopePlatform),
    (PermissionMercuryAuth_config_forgot_passwordRead, ScopePlatform),
    (PermissionMercuryConnection_oauthRefresh, ScopePlatform),
    (PermissionMercuryEventsConsume, ScopePlatform),
    (PermissionMuseBlogCreate, ScopePlatform),
    (PermissionMuseBlogRead, ScopePlatform),
    (PermissionMuseAuthorCreate, ScopePlatform),
    (PermissionMuseAuthorDelete, ScopePlatform),
    (PermissionHeliosTenantTransfer, ScopePlatform),
    (PermissionHeliosMembersView, ScopePlatform),
    (PermissionHeliosMembersInvite, ScopePlatform),
    (PermissionHeliosMembersRemove, ScopePlatform),
    (PermissionHeliosRolesAssign, ScopePlatform),
    (PermissionHeliosRolesRevoke, ScopePlatform),
    (PermissionHeliosInvitationsCreate, ScopePlatform),
    (PermissionHeliosInvitationsRevoke, ScopePlatform),
    (PermissionHeliosExternalRegister, ScopePlatform),
    (PermissionHeliosExternalRevoke, ScopePlatform),
    (PermissionHeliosExternalView, ScopePlatform),
    (PermissionMusePostsRead, ScopeProject),
    (PermissionMusePostsWrite, ScopeProject),
    (PermissionMusePostsDelete, ScopeProject),
    (PermissionMuseDraftsRead, ScopeProject),
    (PermissionMuseDraftsWrite, ScopeProject),
    (PermissionZetaFinesView, ScopeProject),
    (PermissionZetaFinesCreate, ScopeProject),
    (PermissionZetaFinesPay, ScopeProject),
    (PermissionZetaFinesChallenge, ScopeProject),
    (PermissionZetaFinesAssign, ScopeProject),
    (PermissionZetaFleetView, ScopeProject),
    (PermissionZetaFleetEdit, ScopeProject),
    (PermissionZetaDriversView, ScopeProject),
    (PermissionZetaDriversManage, ScopeProject),
    (PermissionZetaReportsView, ScopeProject),
    (PermissionZetaBillingView, ScopeProject),
    (PermissionZetaBillingManage, ScopeProject),
    (PermissionZetaTeamManage, ScopeProject),
    (PermissionZetaTenantConfigure, ScopeProject),
    (PermissionMuseAuthorRead, ScopePlatformProject)]"

definition Roles :: "Role list" where
  "Roles = [RoleOwner, RoleAdmin, RoleEditor, RoleViewer]"

definition ROLE_PERMISSIONS :: "(Role \<times> Permission list) list" where
  "ROLE_PERMISSIONS =
   [(RoleOwner,
     [PermissionAthensProjectDelete,
      PermissionAthensProjectUpdate,
      PermissionAthensProjectView,
      PermissionAthensServicesDisable,
      PermissionAthensServicesEnable,
      PermissionAthensTeamInvite,
      PermissionAthensTeamRemove,
      PermissionHeliosExternalRegister,
      PermissionHeliosExternalRevoke,
      PermissionHeliosExternalView,
      PermissionHeliosInvitationsCreate,
      PermissionHeliosInvitationsRevoke,
      PermissionHeliosMembersInvite,
      PermissionHeliosMembersRemove,
      PermissionHeliosMembersView,
      PermissionHeliosRolesAssign,
      PermissionHeliosRolesRevoke,
      PermissionHeliosTenantTransfer,
      PermissionMercuryApi_keysCreate,
      PermissionMercuryApi_keysManage,
      PermissionMercuryApi_keysRead,
      PermissionMercuryApi_keysRevoke,
      PermissionMercuryAuth_configRead,
      PermissionMercuryAuth_config_appleCreate,
      PermissionMercuryAuth_config_appleUpdate,
      PermissionMercuryAuth_config_forgot_passwordCreate,
      PermissionMercuryAuth_config_forgot_passwordRead,
      PermissionMercuryAuth_config_forgot_passwordUpdate,
      PermissionMercuryAuth_config_oauthCreate,
      PermissionMercuryAuth_config_oauthUpdate,
      PermissionMercuryConnection_oauthRefresh,
      PermissionMercuryEventsConsume,
      PermissionMercuryService_clientsRead,
      PermissionMercuryUsersBatch_read,
      PermissionMercuryUsersRead,
      PermissionMercuryUsersWrite,
      PermissionMuseAuthorCreate,
      PermissionMuseAuthorDelete,
      PermissionMuseAuthorRead,
      PermissionMuseBlogCreate,
      PermissionMuseBlogRead]),
    (RoleAdmin,
     [PermissionAthensProjectUpdate,
      PermissionAthensProjectView,
      PermissionAthensServicesDisable,
      PermissionAthensServicesEnable,
      PermissionAthensTeamInvite,
      PermissionAthensTeamRemove,
      PermissionHeliosExternalView,
      PermissionHeliosInvitationsCreate,
      PermissionHeliosInvitationsRevoke,
      PermissionHeliosMembersInvite,
      PermissionHeliosMembersRemove,
      PermissionHeliosMembersView,
      PermissionHeliosRolesAssign,
      PermissionHeliosRolesRevoke,
      PermissionMercuryApi_keysCreate,
      PermissionMercuryApi_keysRead,
      PermissionMercuryApi_keysRevoke,
      PermissionMercuryAuth_configRead,
      PermissionMercuryAuth_config_appleCreate,
      PermissionMercuryAuth_config_appleUpdate,
      PermissionMercuryAuth_config_forgot_passwordCreate,
      PermissionMercuryAuth_config_forgot_passwordRead,
      PermissionMercuryAuth_config_forgot_passwordUpdate,
      PermissionMercuryAuth_config_oauthCreate,
      PermissionMercuryAuth_config_oauthUpdate,
      PermissionMercuryConnection_oauthRefresh,
      PermissionMercuryEventsConsume,
      PermissionMercuryService_clientsRead,
      PermissionMercuryUsersRead,
      PermissionMercuryUsersWrite,
      PermissionMuseAuthorCreate,
      PermissionMuseAuthorRead,
      PermissionMuseBlogCreate,
      PermissionMuseBlogRead]),
    (RoleEditor,
     [PermissionAthensProjectView,
      PermissionMercuryApi_keysRead,
      PermissionMercuryService_clientsRead,
      PermissionMercuryUsersRead,
      PermissionMuseAuthorCreate,
      PermissionMuseAuthorRead,
      PermissionMuseBlogCreate,
      PermissionMuseBlogRead]),
    (RoleViewer,
     [PermissionAthensProjectView,
      PermissionMercuryApi_keysRead,
      PermissionMercuryService_clientsRead,
      PermissionMercuryUsersRead,
      PermissionMuseAuthorRead,
      PermissionMuseBlogRead])]"

section \<open>The functions\<close>

definition IsValidPermission :: "Permission \<Rightarrow> bool" where
  "IsValidPermission p = (case map_of PERM_SCOPE p of None \<Rightarrow> False | Some _ \<Rightarrow> True)"

definition IsValidRole :: "Role \<Rightarrow> bool" where
  "IsValidRole r =
     (if r = RoleOwner then True
      else if r = RoleAdmin then True
      else if r = RoleEditor then True
      else if r = RoleViewer then True
      else False)"

definition IsSelfScope :: "Permission \<Rightarrow> bool" where
  "IsSelfScope p = (map_index '''' (map_of PERM_SCOPE) p = ScopeSelf)"

definition IsPlatformGrantable :: "Permission \<Rightarrow> bool" where
  "IsPlatformGrantable p =
     (let s = map_index '''' (map_of PERM_SCOPE) p
      in s = ScopePlatform \<or> s = ScopePlatformProject)"

definition IsTenantGrantable :: "string \<Rightarrow> bool" where
  "IsTenantGrantable p =
     (case map_of PERM_SCOPE p of
        None \<Rightarrow> True
      | Some s \<Rightarrow> s = ScopeProject \<or> s = ScopePlatformProject)"

definition ResolvePermissions :: "Role \<Rightarrow> Permission slice" where
  "ResolvePermissions role =
     (case map_of ROLE_PERMISSIONS role of
        Some perms \<Rightarrow> Some perms
      | None \<Rightarrow> Some [])"

definition RoleHasPermission :: "Role \<Rightarrow> Permission \<Rightarrow> bool" where
  "RoleHasPermission role p = range_contains (map_index [] (map_of ROLE_PERMISSIONS) role) p"

text \<open>The loop over \<open>Roles\<close> of \<open>IsUniversalPerm\<close>.\<close>

fun every_role_has :: "Role list \<Rightarrow> Permission \<Rightarrow> bool" where
  "every_role_has [] p = True"
| "every_role_has (role # roles) p =
     (if \<not> RoleHasPermission role p then False else every_role_has roles p)"

definition IsUniversalPerm :: "Permission \<Rightarrow> bool" where
  "IsUniversalPerm p = (if IsSelfScope p then True else every_role_has Roles p)"

section \<open>The tables as sets\<close>

lemma scope_consts_distinct [simp]:
  "ScopeSelf \<noteq> ScopePlatform" "ScopeSelf \<noteq> ScopeProject" "ScopeSelf \<noteq> ScopePlatformProject"
  "ScopePlatform \<noteq> ScopeSelf" "ScopePlatform \<noteq> ScopeProject" "ScopePlatform \<noteq> ScopePlatformProject"
  "ScopeProject \<noteq> ScopeSelf" "ScopeProject \<noteq> ScopePlatform" "ScopeProject \<noteq> ScopePlatformProject"
  "ScopePlatformProject \<noteq> ScopeSelf" "ScopePlatformProject \<noteq> ScopePlatform"
  "ScopePlatformProject \<noteq> ScopeProject"
  "ScopeSelf \<noteq> ''''" "ScopePlatform \<noteq> ''''" "ScopeProject \<noteq> ''''" "ScopePlatformProject \<noteq> ''''"
  "'''' \<noteq> ScopeSelf" "'''' \<noteq> ScopePlatform" "'''' \<noteq> ScopeProject" "'''' \<noteq> ScopePlatformProject"
  by (simp_all add: ScopeSelf_def ScopePlatform_def ScopeProject_def ScopePlatformProject_def)

lemma role_consts_distinct [simp]:
  "RoleOwner \<noteq> RoleAdmin" "RoleOwner \<noteq> RoleEditor" "RoleOwner \<noteq> RoleViewer"
  "RoleAdmin \<noteq> RoleOwner" "RoleAdmin \<noteq> RoleEditor" "RoleAdmin \<noteq> RoleViewer"
  "RoleEditor \<noteq> RoleOwner" "RoleEditor \<noteq> RoleAdmin" "RoleEditor \<noteq> RoleViewer"
  "RoleViewer \<noteq> RoleOwner" "RoleViewer \<noteq> RoleAdmin" "RoleViewer \<noteq> RoleEditor"
  by (simp_all add: RoleOwner_def RoleAdmin_def RoleEditor_def RoleViewer_def)

lemma PERM_SCOPE_split:
  "PERM_SCOPE = map (\<lambda>p. (p, ScopeSelf)) SELF_PERMISSIONS
     @ map (\<lambda>p. (p, ScopePlatform)) PLATFORM_PERMISSIONS
     @ map (\<lambda>p. (p, ScopeProject)) PROJECT_PERMISSIONS
     @ map (\<lambda>p. (p, ScopePlatformProject)) DUAL_PERMISSIONS"
  by (simp only: PERM_SCOPE_def SELF_PERMISSIONS_def PLATFORM_PERMISSIONS_def
      PROJECT_PERMISSIONS_def DUAL_PERMISSIONS_def list.map append.simps)

lemma map_of_map_const: "map_of (map (\<lambda>p. (p, s)) ps) p = (if p \<in> set ps then Some s else None)"
  by (induction ps) auto

lemma PERM_SCOPE_lookup:
  "map_of PERM_SCOPE p =
     (if p \<in> set SELF_PERMISSIONS then Some ScopeSelf
      else if p \<in> set PLATFORM_PERMISSIONS then Some ScopePlatform
      else if p \<in> set PROJECT_PERMISSIONS then Some ScopeProject
      else if p \<in> set DUAL_PERMISSIONS then Some ScopePlatformProject
      else None)"
  by (simp add: PERM_SCOPE_split map_of_append map_add_def map_of_map_const)

lemma vocabulary_distinct:
  "distinct (SELF_PERMISSIONS @ PLATFORM_PERMISSIONS @ PROJECT_PERMISSIONS @ DUAL_PERMISSIONS)"
  by (simp add: SELF_PERMISSIONS_def PLATFORM_PERMISSIONS_def PROJECT_PERMISSIONS_def
      DUAL_PERMISSIONS_def perm_consts)

lemma scope_tuples_disjoint:
  "p \<in> set SELF_PERMISSIONS \<Longrightarrow> p \<notin> set PLATFORM_PERMISSIONS \<and> p \<notin> set PROJECT_PERMISSIONS \<and> p \<notin> set DUAL_PERMISSIONS"
  "p \<in> set PLATFORM_PERMISSIONS \<Longrightarrow> p \<notin> set SELF_PERMISSIONS \<and> p \<notin> set PROJECT_PERMISSIONS \<and> p \<notin> set DUAL_PERMISSIONS"
  "p \<in> set PROJECT_PERMISSIONS \<Longrightarrow> p \<notin> set SELF_PERMISSIONS \<and> p \<notin> set PLATFORM_PERMISSIONS \<and> p \<notin> set DUAL_PERMISSIONS"
  "p \<in> set DUAL_PERMISSIONS \<Longrightarrow> p \<notin> set SELF_PERMISSIONS \<and> p \<notin> set PLATFORM_PERMISSIONS \<and> p \<notin> set PROJECT_PERMISSIONS"
  using vocabulary_distinct by auto

lemma IsSelfScope_iff: "IsSelfScope p \<longleftrightarrow> p \<in> set SELF_PERMISSIONS"
  by (simp add: IsSelfScope_def map_index_def PERM_SCOPE_lookup)

lemma IsPlatformGrantable_iff:
  "IsPlatformGrantable p \<longleftrightarrow> p \<in> set PLATFORM_PERMISSIONS \<or> p \<in> set DUAL_PERMISSIONS"
proof (cases "p \<in> set SELF_PERMISSIONS \<or> p \<in> set PROJECT_PERMISSIONS")
  case True
  then have "p \<notin> set PLATFORM_PERMISSIONS \<and> p \<notin> set DUAL_PERMISSIONS"
    using scope_tuples_disjoint by blast
  with True show ?thesis
    by (auto simp: IsPlatformGrantable_def map_index_def PERM_SCOPE_lookup)
next
  case False
  then show ?thesis
    by (auto simp: IsPlatformGrantable_def map_index_def PERM_SCOPE_lookup)
qed

lemma IsTenantGrantable_iff:
  "IsTenantGrantable p \<longleftrightarrow> p \<notin> set SELF_PERMISSIONS \<and> p \<notin> set PLATFORM_PERMISSIONS"
  by (auto simp: IsTenantGrantable_def PERM_SCOPE_lookup)

lemma IsValidPermission_iff:
  "IsValidPermission p \<longleftrightarrow>
     p \<in> set (SELF_PERMISSIONS @ PLATFORM_PERMISSIONS @ PROJECT_PERMISSIONS @ DUAL_PERMISSIONS)"
  by (auto simp: IsValidPermission_def PERM_SCOPE_lookup split: if_splits)

section \<open>The roles\<close>

abbreviation role_perms :: "Role \<Rightarrow> Permission set" where
  "role_perms role \<equiv> set (map_index [] (map_of ROLE_PERMISSIONS) role)"

lemma RoleHasPermission_iff: "RoleHasPermission role p \<longleftrightarrow> p \<in> role_perms role"
  by (simp add: RoleHasPermission_def)

lemma ResolvePermissions_elems:
  "slice_elems (ResolvePermissions role) = map_index [] (map_of ROLE_PERMISSIONS) role"
  by (simp add: ResolvePermissions_def map_index_def split: option.splits)

lemma ROLE_PERMISSIONS_dom: "map_of ROLE_PERMISSIONS role \<noteq> None \<longleftrightarrow> IsValidRole role"
  by (simp add: ROLE_PERMISSIONS_def IsValidRole_def)

lemma role_perms_unknown: "\<not> IsValidRole role \<Longrightarrow> role_perms role = {}"
  using ROLE_PERMISSIONS_dom [of role] by (simp add: map_index_def split: option.splits)

lemma role_chain:
  "role_perms RoleViewer \<subseteq> role_perms RoleEditor"
  "role_perms RoleEditor \<subseteq> role_perms RoleAdmin"
  "role_perms RoleAdmin \<subseteq> role_perms RoleOwner"
  by (simp_all add: ROLE_PERMISSIONS_def map_index_def)

lemma owner_perms_grantable:
  "role_perms RoleOwner \<subseteq> set PLATFORM_PERMISSIONS \<union> set DUAL_PERMISSIONS"
  by (simp add: ROLE_PERMISSIONS_def map_index_def PLATFORM_PERMISSIONS_def DUAL_PERMISSIONS_def)

lemma role_perms_le_owner: "role_perms role \<subseteq> role_perms RoleOwner"
proof (cases "IsValidRole role")
  case True
  then have "role = RoleOwner \<or> role = RoleAdmin \<or> role = RoleEditor \<or> role = RoleViewer"
    by (simp add: IsValidRole_def split: if_splits)
  then show ?thesis using role_chain by blast
next
  case False
  then show ?thesis by (simp add: role_perms_unknown)
qed

lemma role_perms_grantable: "p \<in> role_perms role \<Longrightarrow> IsPlatformGrantable p"
  using role_perms_le_owner owner_perms_grantable by (auto simp: IsPlatformGrantable_iff)

lemma every_role_has_iff: "every_role_has rs p \<longleftrightarrow> (\<forall>r \<in> set rs. RoleHasPermission r p)"
  by (induction rs) auto

lemma IsUniversalPerm_iff:
  "IsUniversalPerm p \<longleftrightarrow> p \<in> set SELF_PERMISSIONS \<or> p \<in> role_perms RoleViewer"
  using role_chain
  by (auto simp: IsUniversalPerm_def IsSelfScope_iff every_role_has_iff Roles_def
      RoleHasPermission_iff)

lemma role_perms_valid: "p \<in> role_perms role \<Longrightarrow> IsValidRole role"
proof (rule ccontr)
  assume "p \<in> role_perms role" and "\<not> IsValidRole role"
  from role_perms_unknown [OF this(2)] this(1) show False by simp
qed

lemma role_perms_le_admin: "role = RoleOwner \<or> role_perms role \<subseteq> role_perms RoleAdmin"
proof (cases "IsValidRole role")
  case True
  then have "role = RoleOwner \<or> role = RoleAdmin \<or> role = RoleEditor \<or> role = RoleViewer"
    by (simp add: IsValidRole_def split: if_splits)
  then show ?thesis using role_chain by blast
next
  case False
  then show ?thesis by (simp add: role_perms_unknown)
qed

section \<open>Properties\<close>

text \<open>
  C30: The four scope tuples are a partition of the vocabulary: no permission appears twice, the
  table \<open>PERM_SCOPE\<close> knows exactly their members, and every scope query follows from the tuple a
  permission is in. A string outside the vocabulary is valid for no query but
  \<open>IsTenantGrantable\<close>, which lets tenant-defined permissions pass.
\<close>

theorem scope_partition:
  "distinct (SELF_PERMISSIONS @ PLATFORM_PERMISSIONS @ PROJECT_PERMISSIONS @ DUAL_PERMISSIONS)
   \<and> dom (map_of PERM_SCOPE) =
       set SELF_PERMISSIONS \<union> set PLATFORM_PERMISSIONS \<union> set PROJECT_PERMISSIONS \<union> set DUAL_PERMISSIONS
   \<and> Collect IsValidPermission = dom (map_of PERM_SCOPE)
   \<and> Collect IsSelfScope = set SELF_PERMISSIONS
   \<and> Collect IsPlatformGrantable = set PLATFORM_PERMISSIONS \<union> set DUAL_PERMISSIONS
   \<and> Collect IsTenantGrantable = - (set SELF_PERMISSIONS \<union> set PLATFORM_PERMISSIONS)"
proof -
  have "dom (map_of PERM_SCOPE) =
      set SELF_PERMISSIONS \<union> set PLATFORM_PERMISSIONS \<union> set PROJECT_PERMISSIONS \<union> set DUAL_PERMISSIONS"
    by (auto simp: dom_def PERM_SCOPE_lookup split: if_splits)
  then show ?thesis
    using vocabulary_distinct
    by (simp add: set_eq_iff IsValidPermission_iff IsSelfScope_iff IsPlatformGrantable_iff
        IsTenantGrantable_iff)
qed

text \<open>
  C17: A role grants a permission only if the permission may be granted by the platform: never a
  self-scope permission, never one that only projects grant, never an unknown string; and
  an unknown role grants nothing.
\<close>

theorem roles_grant_only_platform:
  assumes "RoleHasPermission role p"
  shows "IsValidRole role \<and> IsValidPermission p \<and> IsPlatformGrantable p
    \<and> \<not> IsSelfScope p \<and> p \<notin> set PROJECT_PERMISSIONS"
proof -
  have "p \<in> role_perms role" using assms by (simp only: RoleHasPermission_iff)
  then have p: "IsPlatformGrantable p" and r: "IsValidRole role"
    by (rule role_perms_grantable, rule role_perms_valid)
  from p have "p \<in> set PLATFORM_PERMISSIONS \<or> p \<in> set DUAL_PERMISSIONS"
    by (simp add: IsPlatformGrantable_iff)
  then show ?thesis
    using p r scope_tuples_disjoint(2,4) [of p]
    unfolding IsValidPermission_iff IsSelfScope_iff set_append by blast
qed

theorem roles_grant_only_platform_witness:
  "IsPlatformGrantable PermissionMuseBlogRead \<and> \<not> IsSelfScope PermissionMuseBlogRead"
proof -
  have "RoleHasPermission RoleViewer PermissionMuseBlogRead"
    by (simp add: RoleHasPermission_iff ROLE_PERMISSIONS_def map_index_def)
  from roles_grant_only_platform [OF this] show ?thesis by blast
qed

text \<open>
  C31: The roles form a chain: what \<open>ResolvePermissions\<close> returns for a viewer is contained in
  what it returns for an editor, that in an admin's, that in the owner's, strictly each time;
  the slice it returns agrees with \<open>RoleHasPermission\<close>, and it is never nil. Transferring a
  tenant is the owner's alone.
\<close>

theorem role_chain_strict:
  "set (slice_elems (ResolvePermissions RoleViewer)) \<subset> set (slice_elems (ResolvePermissions RoleEditor))
   \<and> set (slice_elems (ResolvePermissions RoleEditor)) \<subset> set (slice_elems (ResolvePermissions RoleAdmin))
   \<and> set (slice_elems (ResolvePermissions RoleAdmin)) \<subset> set (slice_elems (ResolvePermissions RoleOwner))
   \<and> (\<forall>role p. RoleHasPermission role p \<longleftrightarrow> p \<in> set (slice_elems (ResolvePermissions role)))
   \<and> (\<forall>role. ResolvePermissions role \<noteq> nil_slice)
   \<and> (\<forall>role. RoleHasPermission role PermissionHeliosTenantTransfer \<longleftrightarrow> role = RoleOwner)"
proof -
  have "PermissionMuseBlogCreate \<in> role_perms RoleEditor - role_perms RoleViewer"
    and "PermissionMercuryUsersWrite \<in> role_perms RoleAdmin - role_perms RoleEditor"
    and "PermissionHeliosTenantTransfer \<in> role_perms RoleOwner - role_perms RoleAdmin"
    by (simp_all add: ROLE_PERMISSIONS_def map_index_def perm_consts)
  then have "role_perms RoleViewer \<subset> role_perms RoleEditor"
    and "role_perms RoleEditor \<subset> role_perms RoleAdmin"
    and "role_perms RoleAdmin \<subset> role_perms RoleOwner"
    using role_chain by blast+
  moreover have "RoleHasPermission role PermissionHeliosTenantTransfer \<longleftrightarrow> role = RoleOwner" for role
  proof -
    have "PermissionHeliosTenantTransfer \<notin> role_perms RoleAdmin"
      "PermissionHeliosTenantTransfer \<in> role_perms RoleOwner"
      by (simp_all add: ROLE_PERMISSIONS_def map_index_def perm_consts)
    moreover have "role = RoleOwner \<or> role_perms role \<subseteq> role_perms RoleAdmin"
      by (rule role_perms_le_admin)
    ultimately show ?thesis unfolding RoleHasPermission_iff by blast
  qed
  moreover have "ResolvePermissions role \<noteq> None" for role
    by (simp add: ResolvePermissions_def split: option.split)
  ultimately show ?thesis
    by (simp add: ResolvePermissions_elems RoleHasPermission_iff)
qed

text \<open>
  C18: The universal permissions, granted without a look at cache or Helios, are exactly the
  self-scope ones and the six of the viewer, the weakest role; in particular no permission that
  only an owner or admin has is universal, and no unknown string.
\<close>

theorem universal_perms_exact:
  "Collect IsUniversalPerm = set SELF_PERMISSIONS \<union>
     {PermissionAthensProjectView, PermissionMercuryApi_keysRead, PermissionMercuryService_clientsRead,
      PermissionMercuryUsersRead, PermissionMuseAuthorRead, PermissionMuseBlogRead}"
proof -
  have "role_perms RoleViewer =
     {PermissionAthensProjectView, PermissionMercuryApi_keysRead, PermissionMercuryService_clientsRead,
      PermissionMercuryUsersRead, PermissionMuseAuthorRead, PermissionMuseBlogRead}"
    by (simp add: ROLE_PERMISSIONS_def map_index_def)
  then show ?thesis
    unfolding set_eq_iff Un_iff mem_Collect_eq IsUniversalPerm_iff by blast
qed

end
