(* ===== verification/Go_Errors.thy ===== *)
theory Go_Errors
  imports Go_Prelude
begin

text \<open>
  Errors as values. The constructors are the ways the program makes an error:
  \<open>errors.New\<close>, \<open>fmt.Errorf\<close> with a final \<open>%w\<close>, the struct \<open>HeliosUnreachableError\<close> of
  \<open>client.go\<close>, and the errors that the standard library or go-redis return, known by their
  text (none of them wraps a \<open>HeliosUnreachableError\<close>). A nil \<open>error\<close> is \<^const>\<open>None\<close>. A
  panic ends the call: the result type \<open>'a outcome\<close> has it as a branch.
\<close>

datatype go_error =
    ErrorString string
  | WrapError string go_error
  | ForeignError string
  | HeliosUnreachableError (StatusCode: int) (Reason: string) (Err: "go_error option")

datatype 'a outcome = Returns 'a | Panics string

text \<open>The methods \<open>Error\<close> and \<open>Unwrap\<close>.\<close>

fun Error_text :: "go_error \<Rightarrow> string" where
  "Error_text (ErrorString s) = s"
| "Error_text (WrapError s e) = s @ Error_text e"
| "Error_text (ForeignError s) = s"
| "Error_text (HeliosUnreachableError code reason err) =
     (case err of
        Some e \<Rightarrow> ''helios unreachable ('' @ reason @ '', status='' @ FormatInt code @ ''): '' @ Error_text e
      | None \<Rightarrow> ''helios unreachable ('' @ reason @ '', status='' @ FormatInt code @ '')'')"

fun Unwrap :: "go_error \<Rightarrow> go_error option" where
  "Unwrap (WrapError s e) = Some e"
| "Unwrap (HeliosUnreachableError code reason err) = err"
| "Unwrap _ = None"

text \<open>
  \<open>errors.As\<close> with a \<open>*HeliosUnreachableError\<close> target: the first error of that type in the
  chain of \<open>Unwrap\<close>.
\<close>

fun errors_As_helios :: "go_error \<Rightarrow> go_error option" where
  "errors_As_helios (HeliosUnreachableError code reason err) =
     Some (HeliosUnreachableError code reason err)"
| "errors_As_helios (WrapError s e) = errors_As_helios e"
| "errors_As_helios _ = None"

definition IsHeliosUnreachableError :: "go_error option \<Rightarrow> bool" where
  "IsHeliosUnreachableError err =
     (case err of None \<Rightarrow> False | Some e \<Rightarrow> errors_As_helios e \<noteq> None)"

text \<open>\<open>formatError\<close> of \<open>permission_client.go\<close>; \<open>%w\<close> of a nil error prints \<open>%!w(<nil>)\<close>.\<close>

definition formatError :: "string \<Rightarrow> go_error option \<Rightarrow> go_error" where
  "formatError pre err =
     (case err of
        Some e \<Rightarrow> WrapError (pre @ '': '') e
      | None \<Rightarrow> ErrorString (pre @ '': %!w(<nil>)''))"

text \<open>The errors reached from an error by unwrapping it any number of times.\<close>

inductive unwraps_to :: "go_error \<Rightarrow> go_error \<Rightarrow> bool" where
  here: "unwraps_to e e"
| step: "Unwrap e = Some e' \<Longrightarrow> unwraps_to e' e'' \<Longrightarrow> unwraps_to e e''"

inductive_cases unwraps_toE: "unwraps_to e e'"

lemma Unwrap_cases:
  "Unwrap e = Some e' \<Longrightarrow> (\<exists>s. e = WrapError s e') \<or> (\<exists>c r. e = HeliosUnreachableError c r (Some e'))"
  by (cases e) auto

lemma errors_As_helios_unwraps: "errors_As_helios e = Some h \<Longrightarrow> unwraps_to e h"
  by (induction e rule: errors_As_helios.induct) (auto intro: unwraps_to.intros)

lemma unwraps_to_helios:
  "unwraps_to e h \<Longrightarrow> is_HeliosUnreachableError h \<Longrightarrow> errors_As_helios e \<noteq> None"
proof (induction rule: unwraps_to.induct)
  case (here e)
  then show ?case by (cases e) auto
next
  case (step e e' e'')
  then show ?case by (auto dest: Unwrap_cases)
qed

text \<open>
  \<open>IsHeliosUnreachableError\<close> holds exactly when some error on the unwrap chain is a
  \<open>HeliosUnreachableError\<close>, so an error wrapped by \<open>formatError\<close>, any number of times, is
  recognised if and only if the wrapped one is.
\<close>

lemma IsHeliosUnreachableError_iff:
  "(IsHeliosUnreachableError (Some e) \<longleftrightarrow> (\<exists>h. unwraps_to e h \<and> is_HeliosUnreachableError h))
   \<and> IsHeliosUnreachableError (Some (formatError pre (Some e))) = IsHeliosUnreachableError (Some e)
   \<and> \<not> IsHeliosUnreachableError None"
proof -
  have "is_HeliosUnreachableError h" if "errors_As_helios e = Some h" for h
    using that by (induction e rule: errors_As_helios.induct) auto
  then have "IsHeliosUnreachableError (Some e) \<longleftrightarrow> (\<exists>h. unwraps_to e h \<and> is_HeliosUnreachableError h)"
    using errors_As_helios_unwraps [of e] unwraps_to_helios [of e]
    by (auto simp: IsHeliosUnreachableError_def)
  then show ?thesis
    by (simp add: IsHeliosUnreachableError_def formatError_def)
qed

end
