(* ===== verification/Permission_Cache.thy ===== *)
theory Permission_Cache
  imports Role_Permissions Go_Errors
begin

text \<open>
  \<open>helios_permissions/cache.go\<close>: the interface \<open>PermissionCache\<close>, as a record of its methods
  over a world \<open>'w\<close> (whatever the implementation reads and changes), and the \<open>Logger\<close> interface
  of \<open>redis_cache.go\<close>. The locales state what the interface promises its clients: the
  implementations are shown to keep the promise in their own theories.
\<close>

section \<open>The interfaces\<close>

text \<open>
  \<open>InvalidateTenant\<close> of the Redis cache loops until the server ends the scan: its result is
  \<^const>\<open>None\<close> when the call does not return.
\<close>

record 'w PermissionCache =
  cache_Get :: "string \<Rightarrow> string \<Rightarrow> 'w \<Rightarrow> (Permission slice \<times> go_error option) \<times> 'w"
  cache_Set :: "string \<Rightarrow> string \<Rightarrow> Permission slice \<Rightarrow> 'w \<Rightarrow> go_error option \<times> 'w"
  cache_WriteThrough :: "string \<Rightarrow> string \<Rightarrow> Permission slice \<Rightarrow> 'w \<Rightarrow> go_error option \<times> 'w"
  cache_Invalidate :: "string \<Rightarrow> string \<Rightarrow> 'w \<Rightarrow> go_error option \<times> 'w"
  cache_InvalidateTenant :: "string \<Rightarrow> 'w \<Rightarrow> (go_error option \<times> 'w) option"

text \<open>The key/value pairs that follow a log message.\<close>

datatype log_field =
    LString string string
  | LError string "go_error option"
  | LInt string int
  | LStrings string "string list"

record 'w Logger =
  log_Debug :: "string \<Rightarrow> log_field list \<Rightarrow> 'w \<Rightarrow> 'w"
  log_Info :: "string \<Rightarrow> log_field list \<Rightarrow> 'w \<Rightarrow> 'w"
  log_Warn :: "string \<Rightarrow> log_field list \<Rightarrow> 'w \<Rightarrow> 'w"
  log_Error :: "string \<Rightarrow> log_field list \<Rightarrow> 'w \<Rightarrow> 'w"

definition SilentLogger :: "'w Logger" where
  "SilentLogger =
     \<lparr>log_Debug = (\<lambda>_ _ w. w), log_Info = (\<lambda>_ _ w. w),
      log_Warn = (\<lambda>_ _ w. w), log_Error = (\<lambda>_ _ w. w)\<rparr>"

lemma SilentLogger_simps [simp]:
  "log_Debug SilentLogger m f w = w" "log_Info SilentLogger m f w = w"
  "log_Warn SilentLogger m f w = w" "log_Error SilentLogger m f w = w"
  by (simp_all add: SilentLogger_def)

section \<open>The contract\<close>

text \<open>
  \<open>raw\<close> reads the entry stored under a key, \<open>dec\<close> is what \<open>Get\<close> makes of it (nil: treated as a
  miss), \<open>enc\<close> what the writers store, \<open>avail\<close> that the store answers. \<open>Set\<close> writes only where
  no entry is present, whatever the entry is.
\<close>

locale permission_cache =
  fixes ops :: "'w PermissionCache"
    and key :: "string \<Rightarrow> string \<Rightarrow> string"
    and raw :: "'w \<Rightarrow> string \<Rightarrow> 'v option"
    and dec :: "'v \<Rightarrow> Permission slice"
    and enc :: "Permission slice \<Rightarrow> 'v"
    and storable :: "Permission list \<Rightarrow> bool"
    and avail :: "'w \<Rightarrow> bool"
  assumes get_result:
      "avail w \<Longrightarrow> fst (cache_Get ops u t w) = (Option.bind (raw w (key u t)) dec, None)"
    and get_effect: "avail w \<Longrightarrow> raw (snd (cache_Get ops u t w)) = raw w"
    and get_avail: "avail w \<Longrightarrow> avail (snd (cache_Get ops u t w))"
    and set_result: "avail w \<Longrightarrow> fst (cache_Set ops u t ps w) = None"
    and set_effect:
      "avail w \<Longrightarrow> raw (snd (cache_Set ops u t ps w)) =
         (if raw w (key u t) = None then (raw w)(key u t \<mapsto> enc ps) else raw w)"
    and set_avail: "avail w \<Longrightarrow> avail (snd (cache_Set ops u t ps w))"
    and write_result: "avail w \<Longrightarrow> fst (cache_WriteThrough ops u t ps w) = None"
    and write_effect:
      "avail w \<Longrightarrow> raw (snd (cache_WriteThrough ops u t ps w)) = (raw w)(key u t \<mapsto> enc ps)"
    and write_avail: "avail w \<Longrightarrow> avail (snd (cache_WriteThrough ops u t ps w))"
    and invalidate_result: "avail w \<Longrightarrow> fst (cache_Invalidate ops u t w) = None"
    and invalidate_effect:
      "avail w \<Longrightarrow> raw (snd (cache_Invalidate ops u t w)) = (raw w)(key u t := None)"
    and invalidate_avail: "avail w \<Longrightarrow> avail (snd (cache_Invalidate ops u t w))"
    and dec_enc: "storable xs \<Longrightarrow> dec (enc (Some xs)) = Some xs"

text \<open>Dropping a tenant, and what a key says about its user and tenant.\<close>

locale tenant_cache = permission_cache ops key raw dec enc storable avail
  for ops :: "'w PermissionCache"
    and key :: "string \<Rightarrow> string \<Rightarrow> string"
    and raw :: "'w \<Rightarrow> string \<Rightarrow> 'v option"
    and dec :: "'v \<Rightarrow> Permission slice"
    and enc :: "Permission slice \<Rightarrow> 'v"
    and storable :: "Permission list \<Rightarrow> bool"
    and avail :: "'w \<Rightarrow> bool" +
  fixes id_ok :: "string \<Rightarrow> bool"
    and in_tenant :: "string \<Rightarrow> string \<Rightarrow> bool"
  assumes tenant_effect:
      "avail w \<Longrightarrow> id_ok t \<Longrightarrow> \<exists>w'. cache_InvalidateTenant ops t w = Some (None, w') \<and> avail w' \<and>
         raw w' = (\<lambda>k. if in_tenant t k then None else raw w k)"
    and key_inj: "id_ok u \<Longrightarrow> id_ok t \<Longrightarrow> id_ok u' \<Longrightarrow> id_ok t' \<Longrightarrow> key u t = key u' t' \<longleftrightarrow> u = u' \<and> t = t'"
    and in_tenant_key: "id_ok t \<Longrightarrow> id_ok t' \<Longrightarrow> in_tenant t (key u t') \<longleftrightarrow> t = t'"

section \<open>What a client sees\<close>

context permission_cache
begin

lemmas results = get_result set_result write_result invalidate_result
lemmas effects = get_effect set_effect write_effect invalidate_effect
lemmas avails = get_avail set_avail write_avail invalidate_avail

text \<open>The permissions a read of (u, t) finds, if any.\<close>

definition view :: "'w \<Rightarrow> string \<Rightarrow> string \<Rightarrow> Permission slice" where
  "view w u t = Option.bind (raw w (key u t)) dec"

lemma get_view: "avail w \<Longrightarrow> fst (cache_Get ops u t w) = (view w u t, None)"
  by (simp add: get_result view_def)

lemma view_get [simp]: "avail w \<Longrightarrow> view (snd (cache_Get ops u t w)) = view w"
  by (simp add: view_def get_effect fun_eq_iff)

lemma view_after_write:
  "avail w \<Longrightarrow> storable ps \<Longrightarrow>
     view (snd (cache_WriteThrough ops u t (Some ps) w)) u t = Some ps"
  by (simp add: view_def write_effect dec_enc)

lemma view_after_invalidate:
  "avail w \<Longrightarrow> view (snd (cache_Invalidate ops u t w)) u t = None"
  by (simp add: view_def invalidate_effect)

text \<open>
  A read that missed because nothing was stored is filled by \<open>Set\<close>; a present entry, one that
  does not decode included, is left as it is.
\<close>

lemma view_after_set:
  "avail w \<Longrightarrow> storable ps \<Longrightarrow>
     view (snd (cache_Set ops u t (Some ps) w)) u t =
       (if raw w (key u t) = None then Some ps else view w u t)"
  by (simp add: view_def set_effect dec_enc)

lemma set_keeps_present:
  "avail w \<Longrightarrow> raw w (key u t) = Some v \<Longrightarrow> raw (snd (cache_Set ops u t ps w)) = raw w"
  by (simp add: set_effect)

end

context tenant_cache
begin

text \<open>For well-formed identifiers the entries of different pairs do not interfere.\<close>

lemma view_frame:
  assumes "avail w" and "id_ok u" "id_ok t" "id_ok u'" "id_ok t'" and "(u, t) \<noteq> (u', t')"
  shows "view (snd (cache_Set ops u t ps w)) u' t' = view w u' t'"
    and "view (snd (cache_WriteThrough ops u t ps w)) u' t' = view w u' t'"
    and "view (snd (cache_Invalidate ops u t w)) u' t' = view w u' t'"
proof -
  have "key u' t' \<noteq> key u t" using key_inj assms by auto
  then show "view (snd (cache_Set ops u t ps w)) u' t' = view w u' t'"
    and "view (snd (cache_WriteThrough ops u t ps w)) u' t' = view w u' t'"
    and "view (snd (cache_Invalidate ops u t w)) u' t' = view w u' t'"
    using assms(1) by (simp_all add: view_def set_effect write_effect invalidate_effect)
qed

lemma view_after_tenant:
  assumes "avail w" and "id_ok t" "id_ok t'"
  shows "\<exists>w'. cache_InvalidateTenant ops t w = Some (None, w') \<and> avail w' \<and>
    view w' u' t' = (if t' = t then None else view w u' t')"
  using tenant_effect [OF assms(1,2)] assms(2,3) by (auto simp: view_def in_tenant_key)

end

end
