(* ===== verification/Go_Json.thy ===== *)
theory Go_Json
  imports Go_Prelude
begin

text \<open>
  The part of Go's \<open>encoding/json\<close> and \<open>unicode/utf8\<close> that \<open>redis_cache.go\<close> and
  \<open>client.go\<close> use: marshalling a slice of strings, and scanning a document into a JSON value
  that the typed decoders read. Strings are byte strings: marshalling replaces bytes that are
  not UTF-8 by U+FFFD and escapes the characters that are unsafe in HTML, as the library does.
\<close>

section \<open>Runes and UTF-8\<close>

abbreviation rune_error :: nat where "rune_error \<equiv> 65533"

definition cont_byte :: "char \<Rightarrow> bool" where
  "cont_byte c = (128 \<le> (of_char c :: nat) \<and> (of_char c :: nat) \<le> 191)"

definition low_bits :: "char \<Rightarrow> nat" where
  "low_bits c = of_char c mod 64"

definition second_byte_ok :: "nat \<Rightarrow> char \<Rightarrow> bool" where
  "second_byte_ok b0 c =
     (let b1 = (of_char c :: nat)
      in (if b0 = 224 then 160 else if b0 = 240 then 144 else 128) \<le> b1
         \<and> b1 \<le> (if b0 = 237 then 159 else if b0 = 244 then 143 else 191))"

text \<open>
  \<open>utf8.DecodeRuneInString\<close>: the first rune and its number of bytes; (U+FFFD, 1) for a byte
  that starts no valid encoding.
\<close>

fun decode_rune :: "string \<Rightarrow> nat \<times> nat" where
  "decode_rune [] = (rune_error, 0)"
| "decode_rune (c0 # cs) =
     (let b0 = of_char c0 in
      if b0 < 128 then (b0, 1)
      else if 194 \<le> b0 \<and> b0 \<le> 223 then
        (case cs of
           c1 # _ \<Rightarrow> if cont_byte c1 then (b0 mod 32 * 64 + low_bits c1, 2) else (rune_error, 1)
         | _ \<Rightarrow> (rune_error, 1))
      else if 224 \<le> b0 \<and> b0 \<le> 239 then
        (case cs of
           c1 # c2 # _ \<Rightarrow>
             if second_byte_ok b0 c1 \<and> cont_byte c2
             then (b0 mod 16 * 4096 + low_bits c1 * 64 + low_bits c2, 3) else (rune_error, 1)
         | _ \<Rightarrow> (rune_error, 1))
      else if 240 \<le> b0 \<and> b0 \<le> 244 then
        (case cs of
           c1 # c2 # c3 # _ \<Rightarrow>
             if second_byte_ok b0 c1 \<and> cont_byte c2 \<and> cont_byte c3
             then (b0 mod 8 * 262144 + low_bits c1 * 4096 + low_bits c2 * 64 + low_bits c3, 4)
             else (rune_error, 1)
         | _ \<Rightarrow> (rune_error, 1))
      else (rune_error, 1))"

text \<open>\<open>utf8.AppendRune\<close>.\<close>

definition encode_rune :: "nat \<Rightarrow> string" where
  "encode_rune r =
     (if r \<le> 127 then [char_of r]
      else if r \<le> 2047 then [char_of (192 + r div 64), char_of (128 + r mod 64)]
      else if 55296 \<le> r \<and> r \<le> 57343 \<or> 1114111 < r then
        [CHR 0xEF, CHR 0xBF, CHR 0xBD]
      else if r \<le> 65535 then
        [char_of (224 + r div 4096), char_of (128 + r div 64 mod 64), char_of (128 + r mod 64)]
      else
        [char_of (240 + r div 262144), char_of (128 + r div 4096 mod 64),
         char_of (128 + r div 64 mod 64), char_of (128 + r mod 64)])"

lemma decode_rune_size:
  "decode_rune (c # cs) = (r, n) \<Longrightarrow> 1 \<le> n \<and> n \<le> Suc (length cs) \<and> n \<le> 4"
  by (auto simp: Let_def split: if_splits list.splits)

lemma decode_rune_ascii: "(of_char c :: nat) < 128 \<Longrightarrow> decode_rune (c # cs) = (of_char c, 1)"
  by (simp add: Let_def)

text \<open>Decoding reads the bytes of the rune and nothing after them.\<close>

lemma decode_rune_local:
  assumes "decode_rune (c # cs) = (r, n)" and "\<not> (r = rune_error \<and> n = 1)"
  shows "decode_rune (take n (c # cs) @ rest) = (r, n)"
  using assms by (auto simp: Let_def split: if_splits list.splits)

lemma decode_rune_high_bytes:
  assumes "decode_rune (c # cs) = (r, n)" and "\<not> (of_char c :: nat) < 128"
  shows "\<forall>b \<in> set (take n (c # cs)). 128 \<le> (of_char b :: nat)"
  using assms
  by (auto simp: Let_def cont_byte_def second_byte_ok_def split: if_splits list.splits)

declare decode_rune.simps(2) [simp del]

section \<open>Marshalling strings\<close>

definition hex_digit :: "nat \<Rightarrow> char" where
  "hex_digit d = (if d < 10 then char_of (48 + d) else char_of (87 + d))"

text \<open>The bytes below 0x80 that need no escape when HTML escaping is on (\<open>htmlSafeSet\<close>).\<close>

definition html_safe :: "char \<Rightarrow> bool" where
  "html_safe c = (32 \<le> (of_char c :: nat) \<and> c \<noteq> CHR 0x22 \<and> c \<noteq> CHR 0x5C
     \<and> c \<noteq> CHR ''<'' \<and> c \<noteq> CHR ''>'' \<and> c \<noteq> CHR ''&'')"

definition escape_ascii :: "char \<Rightarrow> string" where
  "escape_ascii c =
     (if c = CHR 0x22 \<or> c = CHR 0x5C then [CHR 0x5C, c]
      else if c = CHR 0x08 then [CHR 0x5C, CHR ''b'']
      else if c = CHR 0x0C then [CHR 0x5C, CHR ''f'']
      else if c = CHR 0x0A then [CHR 0x5C, CHR ''n'']
      else if c = CHR 0x0D then [CHR 0x5C, CHR ''r'']
      else if c = CHR 0x09 then [CHR 0x5C, CHR ''t'']
      else [CHR 0x5C, CHR ''u'', CHR ''0'', CHR ''0'',
            hex_digit (of_char c div 16), hex_digit (of_char c mod 16)])"

text \<open>\<open>appendString\<close> between its quotes.\<close>

function quote_body :: "string \<Rightarrow> string" where
  "quote_body [] = []"
| "quote_body (c # cs) =
     (if (of_char c :: nat) < 128 then
        (if html_safe c then [c] else escape_ascii c) @ quote_body cs
      else (case decode_rune (c # cs) of (r, n) \<Rightarrow>
        if r = rune_error \<and> n = 1 then
          CHR 0x5C # ''ufffd'' @ quote_body cs
        else if r = 8232 \<or> r = 8233 then
          CHR 0x5C # ''u202'' @ [hex_digit (r mod 16)] @ quote_body (drop (n - 1) cs)
        else take n (c # cs) @ quote_body (drop (n - 1) cs)))"
  by pat_completeness auto
termination
  by (relation "measure length") (auto dest!: decode_rune_size)

declare quote_body.simps(2) [simp del]

definition marshal_string :: "string \<Rightarrow> string" where
  "marshal_string s = [CHR 0x22] @ quote_body s @ [CHR 0x22]"

fun marshal_elems :: "string list \<Rightarrow> string" where
  "marshal_elems [] = ''''"
| "marshal_elems [s] = marshal_string s"
| "marshal_elems (s # ss) = marshal_string s @ '','' @ marshal_elems ss"

text \<open>\<open>json.Marshal\<close> of a slice of strings: a nil slice is \<open>null\<close>.\<close>

definition marshal_strings :: "string slice \<Rightarrow> string" where
  "marshal_strings v = (case v of None \<Rightarrow> ''null'' | Some ss \<Rightarrow> ''['' @ marshal_elems ss @ '']'')"

section \<open>Scanning a document\<close>

datatype json =
    JNull
  | JBool bool
  | JNum string
  | JStr string  \<comment> \<open>the bytes between the quotes, escapes not yet interpreted\<close>
  | JArr "json list"
  | JObj "(string \<times> json) list"  \<comment> \<open>raw keys, in document order, duplicates kept\<close>

datatype token =
    TLBrace | TRBrace | TLBrack | TRBrack | TColon | TComma
  | TStr string | TNum string | TNull | TTrue | TFalse

definition json_space :: "char \<Rightarrow> bool" where
  "json_space c = (c = CHR 0x20 \<or> c = CHR 0x09 \<or> c = CHR 0x0D \<or> c = CHR 0x0A)"

definition is_digit :: "char \<Rightarrow> bool" where
  "is_digit c = (48 \<le> (of_char c :: nat) \<and> (of_char c :: nat) \<le> 57)"

definition hex_value :: "char \<Rightarrow> nat option" where
  "hex_value c =
     (let b = (of_char c :: nat) in
      if 48 \<le> b \<and> b \<le> 57 then Some (b - 48)
      else if 97 \<le> b \<and> b \<le> 102 then Some (b - 87)
      else if 65 \<le> b \<and> b \<le> 70 then Some (b - 55)
      else None)"

definition simple_escape :: "char \<Rightarrow> bool" where
  "simple_escape e = (e = CHR ''b'' \<or> e = CHR ''f'' \<or> e = CHR ''n'' \<or> e = CHR ''r'' \<or> e = CHR ''t''
     \<or> e = CHR 0x5C \<or> e = CHR ''/'' \<or> e = CHR 0x22)"

text \<open>The rest of a string after its opening quote: its raw bytes, and what follows it.\<close>

fun lex_string :: "string \<Rightarrow> (string \<times> string) option" where
  "lex_string [] = None"
| "lex_string (c # cs) =
     (if c = CHR 0x22 then Some ([], cs)
      else if c = CHR 0x5C then
        (case cs of
           [] \<Rightarrow> None
         | e # cs' \<Rightarrow>
             if simple_escape e then map_option (apfst (\<lambda>r. c # e # r)) (lex_string cs')
             else if e = CHR ''u'' then
               (case cs' of
                  h1 # h2 # h3 # h4 # cs'' \<Rightarrow>
                    if hex_value h1 \<noteq> None \<and> hex_value h2 \<noteq> None
                       \<and> hex_value h3 \<noteq> None \<and> hex_value h4 \<noteq> None
                    then map_option (apfst (\<lambda>r. c # e # h1 # h2 # h3 # h4 # r)) (lex_string cs'')
                    else None
                | _ \<Rightarrow> None)
             else None)
      else if (of_char c :: nat) < 32 then None
      else map_option (apfst ((#) c)) (lex_string cs))"

declare lex_string.simps(2) [simp del]

text \<open>
  A number: an optional minus sign, an integer part without leading zeros, an optional
  fraction, an optional exponent. The result is its text and the rest.
\<close>

definition lex_int_part :: "string \<Rightarrow> (string \<times> string) option" where
  "lex_int_part s =
     (case s of
        [] \<Rightarrow> None
      | c # cs \<Rightarrow>
          if c = CHR ''0'' then Some ([c], cs)
          else if is_digit c then Some (takeWhile is_digit s, dropWhile is_digit s)
          else None)"

definition lex_digits1 :: "string \<Rightarrow> (string \<times> string) option" where
  "lex_digits1 s =
     (if takeWhile is_digit s = [] then None else Some (takeWhile is_digit s, dropWhile is_digit s))"

definition lex_frac :: "string \<Rightarrow> (string \<times> string) option" where
  "lex_frac s =
     (case s of
        c # cs \<Rightarrow>
          if c = CHR ''.'' then map_option (apfst ((#) c)) (lex_digits1 cs) else Some ([], s)
      | [] \<Rightarrow> Some ([], s))"

definition lex_exp :: "string \<Rightarrow> (string \<times> string) option" where
  "lex_exp s =
     (case s of
        c # cs \<Rightarrow>
          if c = CHR ''e'' \<or> c = CHR ''E'' then
            (case cs of
               d # ds \<Rightarrow>
                 if d = CHR ''+'' \<or> d = CHR ''-''
                 then map_option (apfst (\<lambda>r. c # d # r)) (lex_digits1 ds)
                 else map_option (apfst ((#) c)) (lex_digits1 cs)
             | [] \<Rightarrow> None)
          else Some ([], s)
      | [] \<Rightarrow> Some ([], s))"

definition lex_number :: "string \<Rightarrow> (string \<times> string) option" where
  "lex_number s =
     (let (sign, s1) = (case s of c # cs \<Rightarrow> if c = CHR ''-'' then ([c], cs) else ([], s) | [] \<Rightarrow> ([], s))
      in Option.bind (lex_int_part s1) (\<lambda>(i, s2).
         Option.bind (lex_frac s2) (\<lambda>(f, s3).
         Option.bind (lex_exp s3) (\<lambda>(e, s4). Some (sign @ i @ f @ e, s4)))))"

lemma lex_string_shorter: "lex_string s = Some (r, rest) \<Longrightarrow> length rest < length s"
proof (induction s arbitrary: r rest rule: lex_string.induct)
  case 1
  then show ?case by simp
next
  case (2 c cs)
  then show ?case
    by (fastforce simp: lex_string.simps(2) apfst_def map_prod_def split: if_splits list.splits prod.splits)
qed

lemma lex_digits1_le: "lex_digits1 s = Some (d, rest) \<Longrightarrow> length rest \<le> length s"
  by (auto simp: lex_digits1_def length_dropWhile_le split: if_splits)

lemma lex_int_part_less: "lex_int_part s = Some (i, rest) \<Longrightarrow> length rest < length s"
  by (auto simp: lex_int_part_def le_imp_less_Suc length_dropWhile_le split: list.splits if_splits)

lemma lex_frac_le: "lex_frac s = Some (i, rest) \<Longrightarrow> length rest \<le> length s"
  by (auto simp: lex_frac_def dest: lex_digits1_le split: list.splits if_splits)

lemma lex_exp_le: "lex_exp s = Some (i, rest) \<Longrightarrow> length rest \<le> length s"
  by (auto simp: lex_exp_def dest: lex_digits1_le split: list.splits if_splits)

lemma lex_number_shorter: "lex_number s = Some (r, rest) \<Longrightarrow> length rest < length s"
  by (fastforce simp: lex_number_def bind_eq_Some_conv
      dest!: lex_int_part_less lex_frac_le lex_exp_le split: list.splits if_splits)

text \<open>The rest of \<open>s\<close> after the prefix \<open>p\<close>.\<close>

fun strip_prefix :: "string \<Rightarrow> string \<Rightarrow> string option" where
  "strip_prefix [] s = Some s"
| "strip_prefix (p # ps) [] = None"
| "strip_prefix (p # ps) (c # cs) = (if p = c then strip_prefix ps cs else None)"

lemma strip_prefix_le: "strip_prefix p s = Some rest \<Longrightarrow> length rest \<le> length s"
  by (induction p s rule: strip_prefix.induct) (auto split: if_splits)

lemma strip_prefix_append [simp]: "strip_prefix p (p @ s) = Some s"
  by (induction p) auto

definition lex_token :: "string \<Rightarrow> (token \<times> string) option" where
  "lex_token s =
     (case s of
        [] \<Rightarrow> None
      | c # cs \<Rightarrow>
          if c = CHR 0x7B then Some (TLBrace, cs)
          else if c = CHR 0x7D then Some (TRBrace, cs)
          else if c = CHR 0x5B then Some (TLBrack, cs)
          else if c = CHR 0x5D then Some (TRBrack, cs)
          else if c = CHR '':'' then Some (TColon, cs)
          else if c = CHR '','' then Some (TComma, cs)
          else if c = CHR 0x22 then map_option (apfst TStr) (lex_string cs)
          else if c = CHR ''n'' then map_option (Pair TNull) (strip_prefix ''ull'' cs)
          else if c = CHR ''t'' then map_option (Pair TTrue) (strip_prefix ''rue'' cs)
          else if c = CHR ''f'' then map_option (Pair TFalse) (strip_prefix ''alse'' cs)
          else map_option (apfst TNum) (lex_number s))"

lemma lex_token_shorter: "lex_token s = Some (t, rest) \<Longrightarrow> length rest < length s"
  by (auto simp: lex_token_def le_imp_less_Suc apfst_def map_prod_def
      dest!: lex_string_shorter strip_prefix_le lex_number_shorter split: list.splits if_splits prod.splits)

function lex_all :: "string \<Rightarrow> token list option" where
  "lex_all [] = Some []"
| "lex_all (c # cs) =
     (if json_space c then lex_all cs
      else (case lex_token (c # cs) of
              None \<Rightarrow> None
            | Some (t, rest) \<Rightarrow> map_option ((#) t) (lex_all rest)))"
  by pat_completeness auto
termination
  by (relation "measure length") (auto dest: lex_token_shorter)

declare lex_all.simps(2) [simp del]

text \<open>
  The grammar, as the scanner's push-down automaton: one step for each token, a stack of the
  arrays and objects that are open, at most 10000 of them (\<open>maxNestingDepth\<close>).
\<close>

datatype frame =
    FArr "json list"                       \<comment> \<open>elements so far, last first\<close>
  | FObj "(string \<times> json) list" string  \<comment> \<open>members so far, last first; key of the next value\<close>

datatype pmode =
    WantValue | WantElemOrClose
  | WantKey "(string \<times> json) list" bool  \<comment> \<open>members so far; may the object close here?\<close>
  | WantColon "(string \<times> json) list" string
  | AfterValue json

definition max_nesting :: nat where "max_nesting = 10000"

fun value_token :: "frame list \<Rightarrow> token \<Rightarrow> (pmode \<times> frame list) option" where
  "value_token st (TStr s) = Some (AfterValue (JStr s), st)"
| "value_token st (TNum s) = Some (AfterValue (JNum s), st)"
| "value_token st TNull = Some (AfterValue JNull, st)"
| "value_token st TTrue = Some (AfterValue (JBool True), st)"
| "value_token st TFalse = Some (AfterValue (JBool False), st)"
| "value_token st TLBrack =
     (if length st < max_nesting then Some (WantElemOrClose, FArr [] # st) else None)"
| "value_token st TLBrace =
     (if length st < max_nesting then Some (WantKey [] True, st) else None)"
| "value_token st _ = None"

fun parse_step :: "pmode \<Rightarrow> frame list \<Rightarrow> token \<Rightarrow> (pmode \<times> frame list) option" where
  "parse_step WantValue st t = value_token st t"
| "parse_step WantElemOrClose st t =
     (case (t, st) of
        (TRBrack, FArr vs # st') \<Rightarrow> Some (AfterValue (JArr (rev vs)), st')
      | _ \<Rightarrow> value_token st t)"
| "parse_step (WantKey ms close) st t =
     (case t of
        TStr k \<Rightarrow> Some (WantColon ms k, st)
      | TRBrace \<Rightarrow> if close then Some (AfterValue (JObj (rev ms)), st) else None
      | _ \<Rightarrow> None)"
| "parse_step (WantColon ms k) st t =
     (case t of TColon \<Rightarrow> Some (WantValue, FObj ms k # st) | _ \<Rightarrow> None)"
| "parse_step (AfterValue v) st t =
     (case (st, t) of
        (FArr vs # st', TComma) \<Rightarrow> Some (WantValue, FArr (v # vs) # st')
      | (FArr vs # st', TRBrack) \<Rightarrow> Some (AfterValue (JArr (rev (v # vs))), st')
      | (FObj ms k # st', TComma) \<Rightarrow> Some (WantKey ((k, v) # ms) False, st')
      | (FObj ms k # st', TRBrace) \<Rightarrow> Some (AfterValue (JObj (rev ((k, v) # ms))), st')
      | _ \<Rightarrow> None)"

fun parse_run :: "pmode \<Rightarrow> frame list \<Rightarrow> token list \<Rightarrow> json option" where
  "parse_run m st [] = (case (m, st) of (AfterValue v, []) \<Rightarrow> Some v | _ \<Rightarrow> None)"
| "parse_run m st (t # ts) =
     (case parse_step m st t of None \<Rightarrow> None | Some (m', st') \<Rightarrow> parse_run m' st' ts)"

definition parse_json :: "string \<Rightarrow> json option" where
  "parse_json s = Option.bind (lex_all s) (parse_run WantValue [])"

section \<open>Reading strings and slices of strings\<close>

text \<open>\<open>getu4\<close>: the value of a leading \<open>\uXXXX\<close>.\<close>

definition getu4 :: "string \<Rightarrow> nat option" where
  "getu4 s =
     (case s of
        b # u # h1 # h2 # h3 # h4 # _ \<Rightarrow>
          if b = CHR 0x5C \<and> u = CHR ''u'' then
            (case (hex_value h1, hex_value h2, hex_value h3, hex_value h4) of
               (Some d1, Some d2, Some d3, Some d4) \<Rightarrow>
                 Some (d1 * 4096 + d2 * 256 + d3 * 16 + d4)
             | _ \<Rightarrow> None)
          else None
      | _ \<Rightarrow> None)"

definition is_surrogate :: "nat \<Rightarrow> bool" where
  "is_surrogate r = (55296 \<le> r \<and> r \<le> 57343)"

text \<open>\<open>utf16.DecodeRune\<close> of the two halves of a surrogate pair.\<close>

definition utf16_decode :: "nat \<Rightarrow> nat option \<Rightarrow> nat" where
  "utf16_decode r1 r2 =
     (case r2 of
        Some r \<Rightarrow>
          if 55296 \<le> r1 \<and> r1 < 56320 \<and> 56320 \<le> r \<and> r \<le> 57343
          then (r1 - 55296) * 1024 + (r - 56320) + 65536 else rune_error
      | None \<Rightarrow> rune_error)"

definition unescape_simple :: "char \<Rightarrow> char" where
  "unescape_simple e =
     (if e = CHR ''b'' then CHR 0x08 else if e = CHR ''f'' then CHR 0x0C
      else if e = CHR ''n'' then CHR 0x0A else if e = CHR ''r'' then CHR 0x0D
      else if e = CHR ''t'' then CHR 0x09 else e)"

text \<open>\<open>unquoteBytes\<close> on the raw bytes of a scanned string.\<close>

function unquote :: "string \<Rightarrow> string" where
  "unquote [] = []"
| "unquote (c # cs) =
     (if c = CHR 0x5C then
        (case cs of
           [] \<Rightarrow> []
         | e # cs' \<Rightarrow>
             if e = CHR ''u'' then
               (case getu4 (c # cs) of
                  None \<Rightarrow> []
                | Some rr \<Rightarrow>
                    let rest = drop 5 cs in
                    if is_surrogate rr then
                      (let dec = utf16_decode rr (getu4 rest) in
                       if dec \<noteq> rune_error then encode_rune dec @ unquote (drop 6 rest)
                       else encode_rune rune_error @ unquote rest)
                    else encode_rune rr @ unquote rest)
             else unescape_simple e # unquote cs')
      else if (of_char c :: nat) < 128 then c # unquote cs
      else (case decode_rune (c # cs) of (r, n) \<Rightarrow> encode_rune r @ unquote (drop (n - 1) cs)))"
  by pat_completeness auto
termination
  by (relation "measure length") (auto dest!: decode_rune_size)

declare unquote.simps(2) [simp del]

text \<open>
  \<open>json.Unmarshal\<close> into a fresh slice of strings: \<open>null\<close> leaves it nil, an array is read
  element by element (\<open>null\<close> leaves an element empty), anything else is a type error.
\<close>

fun decode_string_elem :: "json \<Rightarrow> string option" where
  "decode_string_elem (JStr raw) = Some (unquote raw)"
| "decode_string_elem JNull = Some ''''"
| "decode_string_elem _ = None"

fun decode_string_elems :: "json list \<Rightarrow> string list option" where
  "decode_string_elems [] = Some []"
| "decode_string_elems (v # vs) =
     (case (decode_string_elem v, decode_string_elems vs) of
        (Some s, Some ss) \<Rightarrow> Some (s # ss)
      | _ \<Rightarrow> None)"

fun decode_strings :: "json \<Rightarrow> string slice option" where
  "decode_strings JNull = Some None"
| "decode_strings (JArr vs) = map_option Some (decode_string_elems vs)"
| "decode_strings _ = None"

definition unmarshal_strings :: "string \<Rightarrow> string slice option" where
  "unmarshal_strings s = Option.bind (parse_json s) decode_strings"

section \<open>Round trip\<close>

text \<open>
  What a string becomes on the way through JSON: bytes that are not UTF-8 are replaced by
  U+FFFD.
\<close>

function valid_utf8_of :: "string \<Rightarrow> string" where
  "valid_utf8_of [] = []"
| "valid_utf8_of (c # cs) =
     (if (of_char c :: nat) < 128 then c # valid_utf8_of cs
      else (case decode_rune (c # cs) of (r, n) \<Rightarrow> encode_rune r @ valid_utf8_of (drop (n - 1) cs)))"
  by pat_completeness auto
termination
  by (relation "measure length") (auto dest!: decode_rune_size)

declare valid_utf8_of.simps(2) [simp del]

lemma valid_utf8_of_ascii: "\<forall>c \<in> set s. (of_char c :: nat) < 128 \<Longrightarrow> valid_utf8_of s = s"
  by (induction s) (auto simp: valid_utf8_of.simps(2))

lemma hex_value_digit: "d < 16 \<Longrightarrow> hex_value (hex_digit d) = Some d"
  by (auto simp: hex_value_def hex_digit_def Let_def)

lemma escape_ascii_cases:
  assumes "(of_char c :: nat) < 128"
  obtains (short) e where "escape_ascii c = [CHR 0x5C, e]" and "simple_escape e"
      and "unescape_simple e = c" and "e \<noteq> CHR ''u''"
  | (long) h l where "escape_ascii c = [CHR 0x5C, CHR ''u'', CHR ''0'', CHR ''0'', h, l]"
      and "hex_value h = Some (of_char c div 16)" and "hex_value l = Some (of_char c mod 16)"
proof (cases "c \<in> {CHR 0x22, CHR 0x5C, CHR 0x08, CHR 0x0C, CHR 0x0A, CHR 0x0D, CHR 0x09}")
  case True
  then show ?thesis
    using short by (auto simp: escape_ascii_def simple_escape_def unescape_simple_def)
next
  case False
  then show ?thesis
    using long [of "hex_digit (of_char c div 16)" "hex_digit (of_char c mod 16)"] assms
    by (simp add: escape_ascii_def hex_value_digit)
qed

lemma lex_string_copy:
  "\<forall>b \<in> set bs. 128 \<le> (of_char b :: nat) \<Longrightarrow>
     lex_string (bs @ s) = map_option (apfst ((@) bs)) (lex_string s)"
proof (induction bs)
  case Nil
  then show ?case by (simp add: apfst_def map_prod_def option.map_ident)
next
  case (Cons b bs)
  then have "b \<noteq> CHR 0x22" "b \<noteq> CHR 0x5C" "\<not> (of_char b :: nat) < 32" by auto
  with Cons show ?case
    by (simp add: lex_string.simps(2) option.map_comp comp_def apfst_compose)
qed

lemma zero_char_hex: "hex_value (CHR ''0'') = Some 0"
  by (simp add: hex_value_def)

lemma ufffd_hex:
  "hex_value (CHR ''f'') = Some 15" "hex_value (CHR ''d'') = Some 13"
  "hex_value (CHR ''2'') = Some 2"
  by (simp_all add: hex_value_def)

lemmas lex_escape = lex_string.simps(2) simple_escape_def zero_char_hex ufffd_hex hex_value_digit

lemma lex_string_escape:
  assumes "(of_char c :: nat) < 128"
  shows "lex_string (escape_ascii c @ s) = map_option (apfst ((@) (escape_ascii c))) (lex_string s)"
  using assms
proof (cases rule: escape_ascii_cases)
  case (short e)
  moreover have "(@) [CHR 0x5C, e] = (\<lambda>r. CHR 0x5C # e # r)" by (rule ext) simp
  ultimately show ?thesis by (simp add: lex_string.simps(2))
next
  case (long h l)
  moreover have "(@) [CHR 0x5C, CHR ''u'', CHR ''0'', CHR ''0'', h, l]
      = (\<lambda>r. CHR 0x5C # CHR ''u'' # CHR ''0'' # CHR ''0'' # h # l # r)" by (rule ext) simp
  ultimately show ?thesis by (simp add: lex_escape)
qed

lemma quote_body_lexes:
  "lex_string (quote_body s @ CHR 0x22 # rest) = Some (quote_body s, rest)"
proof (induction s rule: quote_body.induct)
  case 1
  then show ?case by (simp add: lex_string.simps(2))
next
  case (2 c cs)
  obtain r n where rn: "decode_rune (c # cs) = (r, n)" by fastforce
  consider (safe) "(of_char c :: nat) < 128" "html_safe c"
    | (esc) "(of_char c :: nat) < 128" "\<not> html_safe c"
    | (bad) "\<not> (of_char c :: nat) < 128" "r = rune_error \<and> n = 1"
    | (sep) "\<not> (of_char c :: nat) < 128" "\<not> (r = rune_error \<and> n = 1)" "r = 8232 \<or> r = 8233"
    | (raw) "\<not> (of_char c :: nat) < 128" "\<not> (r = rune_error \<and> n = 1)" "\<not> (r = 8232 \<or> r = 8233)"
    by blast
  then show ?case
  proof cases
    case safe
    then show ?thesis using 2(1)
      by (simp add: quote_body.simps(2) lex_string.simps(2) html_safe_def)
  next
    case esc
    then show ?thesis using 2(1)
      by (simp add: quote_body.simps(2) lex_string_escape)
  next
    case bad
    then show ?thesis using 2(2) [OF _ rn [symmetric]] rn
      by (simp add: quote_body.simps(2) lex_escape)
  next
    case sep
    then show ?thesis using 2(3) [OF _ rn [symmetric]] rn
      by (auto simp: quote_body.simps(2) lex_escape)
  next
    case raw
    then show ?thesis using 2(4) [OF _ rn [symmetric]] rn decode_rune_high_bytes [OF rn]
      by (auto simp: quote_body.simps(2) lex_string_copy)
  qed
qed

lemma unquote_escape:
  assumes "(of_char c :: nat) < 128"
  shows "unquote (escape_ascii c @ s) = c # unquote s"
  using assms
proof (cases rule: escape_ascii_cases)
  case (short e)
  then show ?thesis by (simp add: unquote.simps(2))
next
  case (long h l)
  have "(of_char c div 16) * 16 + of_char c mod 16 = (of_char c :: nat)" by simp
  with long assms show ?thesis
    by (simp add: unquote.simps(2) getu4_def zero_char_hex is_surrogate_def encode_rune_def)
qed

lemma unquote_quote_body: "unquote (quote_body s) = valid_utf8_of s"
proof (induction s rule: quote_body.induct)
  case 1
  then show ?case by simp
next
  case (2 c cs)
  obtain r n where rn: "decode_rune (c # cs) = (r, n)" by fastforce
  consider (safe) "(of_char c :: nat) < 128" "html_safe c"
    | (esc) "(of_char c :: nat) < 128" "\<not> html_safe c"
    | (bad) "\<not> (of_char c :: nat) < 128" "r = rune_error \<and> n = 1"
    | (sep) "\<not> (of_char c :: nat) < 128" "\<not> (r = rune_error \<and> n = 1)" "r = 8232 \<or> r = 8233"
    | (raw) "\<not> (of_char c :: nat) < 128" "\<not> (r = rune_error \<and> n = 1)" "\<not> (r = 8232 \<or> r = 8233)"
    by blast
  then show ?case
  proof cases
    case safe
    then show ?thesis using 2(1)
      by (simp add: quote_body.simps(2) unquote.simps(2) html_safe_def valid_utf8_of.simps(2))
  next
    case esc
    then show ?thesis using 2(1)
      by (simp add: quote_body.simps(2) unquote_escape valid_utf8_of.simps(2))
  next
    case bad
    then show ?thesis using 2(2) [OF _ rn [symmetric]] rn
      by (simp add: quote_body.simps(2) unquote.simps(2) [of "CHR 0x5C"] getu4_def ufffd_hex
          is_surrogate_def valid_utf8_of.simps(2))
  next
    case sep
    then show ?thesis using 2(3) [OF _ rn [symmetric]] rn
      by (auto simp: quote_body.simps(2) unquote.simps(2) [of "CHR 0x5C"] getu4_def ufffd_hex
          zero_char_hex hex_value_digit is_surrogate_def valid_utf8_of.simps(2))
  next
    case raw
    have len: "length (take (n - 1) cs) = n - 1" and n: "1 \<le> n"
      using decode_rune_size [OF rn] by (auto simp: min_def)
    have tk: "take n (c # cs) = c # take (n - 1) cs"
      using n by (cases n) simp_all
    have "decode_rune (c # take (n - 1) cs @ quote_body (drop (n - 1) cs)) = (r, n)"
      using decode_rune_local [OF rn raw(2), of "quote_body (drop (n - 1) cs)"] tk by simp
    moreover have "c \<noteq> CHR 0x5C" using raw(1) by auto
    ultimately show ?thesis
      using raw 2(4) [OF _ rn [symmetric]] rn len tk
      by (auto simp: quote_body.simps(2) unquote.simps(2) [of c] valid_utf8_of.simps(2))
  qed
qed

text \<open>The tokens of a marshalled slice, and what the automaton makes of them.\<close>

fun elem_tokens :: "string list \<Rightarrow> token list" where
  "elem_tokens [] = []"
| "elem_tokens [s] = [TStr (quote_body s)]"
| "elem_tokens (s # ss) = TStr (quote_body s) # TComma # elem_tokens ss"

lemma lex_all_punct:
  "lex_all (CHR 0x5B # s) = map_option ((#) TLBrack) (lex_all s)"
  "lex_all (CHR 0x5D # s) = map_option ((#) TRBrack) (lex_all s)"
  "lex_all (CHR '','' # s) = map_option ((#) TComma) (lex_all s)"
  by (simp_all add: lex_all.simps(2) json_space_def lex_token_def)

lemma lex_all_string:
  "lex_all (marshal_string s @ rest) = map_option ((#) (TStr (quote_body s))) (lex_all rest)"
  by (simp add: marshal_string_def lex_all.simps(2) json_space_def lex_token_def quote_body_lexes)

lemma lex_all_elems:
  "lex_all (marshal_elems ss @ rest) = map_option ((@) (elem_tokens ss)) (lex_all rest)"
proof (induction ss rule: marshal_elems.induct)
  case 1
  then show ?case by (simp add: option.map_ident)
next
  case (2 s)
  then show ?case by (simp add: lex_all_string)
next
  case (3 s t ss)
  then show ?case
    by (simp add: lex_all_string lex_all_punct option.map_comp comp_def)
qed

lemma parse_run_elems:
  "parse_run WantValue (FArr vs # st) (elem_tokens (s # ss) @ TRBrack # ts) =
     parse_run (AfterValue (JArr (rev vs @ map (JStr \<circ> quote_body) (s # ss)))) st ts"
proof (induction ss arbitrary: vs s)
  case Nil
  then show ?case by simp
next
  case (Cons t ss)
  then show ?case by simp
qed

lemma parse_marshalled:
  "parse_json (marshal_strings (Some ss)) = Some (JArr (map (JStr \<circ> quote_body) ss))"
proof (cases ss)
  case Nil
  then show ?thesis
    by (simp add: parse_json_def marshal_strings_def lex_all_punct max_nesting_def)
next
  case (Cons s ss')
  have "parse_run WantElemOrClose [FArr []] (elem_tokens (s # ss') @ [TRBrack])
      = parse_run WantValue [FArr []] (elem_tokens (s # ss') @ [TRBrack])"
    by (cases ss') simp_all
  then show ?thesis
    using parse_run_elems [of "[]" "[]" s ss' "[]"]
    by (simp add: Cons parse_json_def marshal_strings_def lex_all_punct lex_all_elems max_nesting_def)
qed

lemma parse_null: "parse_json ''null'' = Some JNull"
  by (simp add: parse_json_def lex_all.simps(2) json_space_def lex_token_def)

lemma decode_marshalled:
  "decode_string_elems (map (JStr \<circ> quote_body) ss) = Some (map valid_utf8_of ss)"
  by (induction ss) (auto simp: unquote_quote_body)

lemma marshal_roundtrip_fact:
  "unmarshal_strings (marshal_strings v) = Some (map_option (map valid_utf8_of) v)"
proof (cases v)
  case None
  then show ?thesis by (simp add: unmarshal_strings_def marshal_strings_def parse_null)
next
  case (Some ss)
  then show ?thesis
    by (simp add: unmarshal_strings_def parse_marshalled decode_marshalled)
qed

text \<open>
  Unmarshalling what was marshalled gives the slice back, nil and empty kept apart, with
  every byte that is not UTF-8 replaced by U+FFFD; nothing else of any string is lost, whatever
  escapes its characters need.
\<close>

lemma marshal_roundtrip:
  "unmarshal_strings (marshal_strings v) = Some (map_option (map valid_utf8_of) v)"
  by (rule marshal_roundtrip_fact)

end
