(* ===== verification/Helios_Resolution.thy ===== *)
theory Helios_Resolution
  imports Role_Permissions Go_Json
begin

text \<open>
  \<open>MembershipResolution\<close> of \<open>helios_permissions/client.go\<close> and how \<open>json.Unmarshal\<close> reads it:
  object keys match field names up to case, unknown keys are skipped, \<open>null\<close> leaves a scalar
  as it is, and a value of the wrong kind anywhere is an error. A key that is repeated takes its
  last value (for \<open>permissions\<close> the model starts each array afresh, so it is exact for bodies
  that do not repeat that key with null elements).
\<close>

section \<open>RFC 3339 times\<close>

record go_time =
  t_year :: nat
  t_month :: nat
  t_day :: nat
  t_hour :: nat
  t_minute :: nat
  t_second :: nat
  t_nanosecond :: nat
  t_offset :: int  \<comment> \<open>seconds east of UTC\<close>

definition digit_value :: "char \<Rightarrow> nat" where
  "digit_value c = of_char c - 48"

definition digits_value :: "string \<Rightarrow> nat" where
  "digits_value = foldl (\<lambda>n c. 10 * n + digit_value c) 0"

text \<open>\<open>getnum\<close>: two digits, or one when \<open>fixed\<close> is false and no second digit follows.\<close>

definition getnum :: "bool \<Rightarrow> string \<Rightarrow> (nat \<times> string) option" where
  "getnum fixed s =
     (case s of
        [] \<Rightarrow> None
      | a # s1 \<Rightarrow>
          if \<not> is_digit a then None
          else (case s1 of
                  b # s2 \<Rightarrow>
                    if is_digit b then Some (10 * digit_value a + digit_value b, s2)
                    else if fixed then None else Some (digit_value a, s1)
                | [] \<Rightarrow> if fixed then None else Some (digit_value a, s1)))"

definition get_year :: "string \<Rightarrow> (nat \<times> string) option" where
  "get_year s =
     (if 4 \<le> length s \<and> list_all is_digit (take 4 s)
      then Some (digits_value (take 4 s), drop 4 s) else None)"

definition leap_year :: "nat \<Rightarrow> bool" where
  "leap_year y = (y mod 4 = 0 \<and> (y mod 100 \<noteq> 0 \<or> y mod 400 = 0))"

definition days_in :: "nat \<Rightarrow> nat \<Rightarrow> nat" where
  "days_in month year =
     (if month = 2 then (if leap_year year then 29 else 28)
      else if month = 4 \<or> month = 6 \<or> month = 9 \<or> month = 11 then 30 else 31)"

text \<open>A fraction of a second, read when a digit follows the point or comma; nine digits count.\<close>

definition get_fraction :: "string \<Rightarrow> nat \<times> string" where
  "get_fraction s =
     (case s of
        p # d # _ \<Rightarrow>
          if (p = CHR ''.'' \<or> p = CHR '','') \<and> is_digit d then
            (let ds = take 9 (takeWhile is_digit (tl s))
             in (digits_value ds * 10 ^ (9 - length ds), dropWhile is_digit (tl s)))
          else (0, s)
      | _ \<Rightarrow> (0, s))"

text \<open>The zone, which must end the text: \<open>Z\<close>, or a sign, hours, a colon and minutes.\<close>

definition get_zone :: "string \<Rightarrow> int option" where
  "get_zone s =
     (case s of
        [] \<Rightarrow> None
      | z # rest \<Rightarrow>
          if z = CHR ''Z'' then (if rest = [] then Some 0 else None)
          else if length s \<noteq> 6 \<or> s ! 3 \<noteq> CHR '':'' then None
          else
            (case (getnum True (take 2 (drop 1 s)), getnum True (take 2 (drop 4 s))) of
               (Some (hr, _), Some (mm, _)) \<Rightarrow>
                 if 24 < hr \<or> 60 < mm then None
                 else if z = CHR ''+'' then Some (int ((hr * 60 + mm) * 60))
                 else if z = CHR ''-'' then Some (- int ((hr * 60 + mm) * 60))
                 else None
             | _ \<Rightarrow> None))"

definition parse_RFC3339 :: "string \<Rightarrow> go_time option" where
  "parse_RFC3339 s =
     Option.bind (get_year s) (\<lambda>(year, s1).
     Option.bind (strip_prefix ''-'' s1) (\<lambda>s2.
     Option.bind (getnum True s2) (\<lambda>(month, s3).
     Option.bind (strip_prefix ''-'' s3) (\<lambda>s4.
     Option.bind (getnum True s4) (\<lambda>(day, s5).
     Option.bind (strip_prefix ''T'' s5) (\<lambda>s6.
     Option.bind (getnum False s6) (\<lambda>(hour, s7).
     Option.bind (strip_prefix '':'' s7) (\<lambda>s8.
     Option.bind (getnum True s8) (\<lambda>(minute, s9).
     Option.bind (strip_prefix '':'' s9) (\<lambda>s10.
     Option.bind (getnum True s10) (\<lambda>(second, s11).
       let (nsec, s12) = get_fraction s11 in
       Option.bind (get_zone s12) (\<lambda>off.
         if 1 \<le> month \<and> month \<le> 12 \<and> 1 \<le> day \<and> day \<le> days_in month year
            \<and> hour < 24 \<and> minute < 60 \<and> second < 60
         then Some \<lparr>t_year = year, t_month = month, t_day = day, t_hour = hour, t_minute = minute,
                    t_second = second, t_nanosecond = nsec, t_offset = off\<rparr>
         else None))))))))))))"

section \<open>The resolution\<close>

record MembershipResolution =
  Status :: string
  MRole :: Role
  Permissions :: "Permission slice"
  IsActive :: bool
  ExpiresAt :: "go_time option"
  MReason :: string

definition zero_resolution :: MembershipResolution where
  "zero_resolution = \<lparr>Status = '''', MRole = '''', Permissions = None, IsActive = False,
     ExpiresAt = None, MReason = ''''\<rparr>"

text \<open>
  The folding under which a key is compared with a field name: ASCII letters to upper case; of
  the other runes only the long s and the Kelvin sign fold to an ASCII letter.
\<close>

fun fold_name :: "string \<Rightarrow> string" where
  "fold_name (a # b # c # cs) =
     (if a = CHR 0xC5 \<and> b = CHR 0xBF then CHR ''S'' # fold_name (c # cs)
      else if a = CHR 0xE2 \<and> b = CHR 0x84 \<and> c = CHR 0xAA then CHR ''K'' # fold_name cs
      else upper_ascii a # fold_name (b # c # cs))"
| "fold_name [a, b] =
     (if a = CHR 0xC5 \<and> b = CHR 0xBF then ''S'' else [upper_ascii a, upper_ascii b])"
| "fold_name [a] = [upper_ascii a]"
| "fold_name [] = []"

datatype resolution_field = FStatus | FRole | FPermissions | FIsActive | FExpiresAt | FReason

definition field_of_key :: "string \<Rightarrow> resolution_field option" where
  "field_of_key k =
     (let n = fold_name k in
      if n = ''STATUS'' then Some FStatus
      else if n = ''ROLE'' then Some FRole
      else if n = ''PERMISSIONS'' then Some FPermissions
      else if n = ''ISACTIVE'' then Some FIsActive
      else if n = ''EXPIRESAT'' then Some FExpiresAt
      else if n = ''REASON'' then Some FReason
      else None)"

text \<open>A string field: \<open>null\<close> keeps the old value.\<close>

fun decode_string_field :: "string \<Rightarrow> json \<Rightarrow> string option" where
  "decode_string_field old (JStr raw) = Some (unquote raw)"
| "decode_string_field old JNull = Some old"
| "decode_string_field old _ = None"

fun decode_bool_field :: "bool \<Rightarrow> json \<Rightarrow> bool option" where
  "decode_bool_field old (JBool b) = Some b"
| "decode_bool_field old JNull = Some old"
| "decode_bool_field old _ = None"

fun decode_time_field :: "json \<Rightarrow> go_time option option" where
  "decode_time_field (JStr raw) = map_option Some (parse_RFC3339 raw)"
| "decode_time_field JNull = Some None"
| "decode_time_field _ = None"

definition set_field :: "resolution_field \<Rightarrow> json \<Rightarrow> MembershipResolution \<Rightarrow> MembershipResolution option" where
  "set_field f v r =
     (case f of
        FStatus \<Rightarrow> map_option (\<lambda>s. r\<lparr>Status := s\<rparr>) (decode_string_field (Status r) v)
      | FRole \<Rightarrow> map_option (\<lambda>s. r\<lparr>MRole := s\<rparr>) (decode_string_field (MRole r) v)
      | FPermissions \<Rightarrow> map_option (\<lambda>ps. r\<lparr>Permissions := ps\<rparr>) (decode_strings v)
      | FIsActive \<Rightarrow> map_option (\<lambda>b. r\<lparr>IsActive := b\<rparr>) (decode_bool_field (IsActive r) v)
      | FExpiresAt \<Rightarrow> map_option (\<lambda>t. r\<lparr>ExpiresAt := t\<rparr>) (decode_time_field v)
      | FReason \<Rightarrow> map_option (\<lambda>s. r\<lparr>MReason := s\<rparr>) (decode_string_field (MReason r) v))"

fun decode_members :: "(string \<times> json) list \<Rightarrow> MembershipResolution \<Rightarrow> MembershipResolution option" where
  "decode_members [] r = Some r"
| "decode_members ((k, v) # ms) r =
     (case field_of_key (unquote k) of
        None \<Rightarrow> decode_members ms r
      | Some f \<Rightarrow> Option.bind (set_field f v r) (decode_members ms))"

fun decode_resolution :: "json \<Rightarrow> MembershipResolution option" where
  "decode_resolution (JObj ms) = decode_members ms zero_resolution"
| "decode_resolution JNull = Some zero_resolution"
| "decode_resolution _ = None"

definition unmarshal_resolution :: "string \<Rightarrow> MembershipResolution option" where
  "unmarshal_resolution body = Option.bind (parse_json body) decode_resolution"

section \<open>What Helios sends for an active member\<close>

text \<open>The body of a 200 answer for an active member, as \<open>JSON.stringify\<close> lays it out.\<close>

definition active_body :: "Role \<Rightarrow> Permission list \<Rightarrow> string" where
  "active_body role ps =
     CHR 0x7B # marshal_string ''status'' @ '':'' @ marshal_string ''active'' @ '',''
       @ marshal_string ''role'' @ '':'' @ marshal_string role @ '',''
       @ marshal_string ''permissions'' @ '':'' @ marshal_strings (Some ps) @ '',''
       @ marshal_string ''isActive'' @ '':'' @ ''true'' @ '',''
       @ marshal_string ''expiresAt'' @ '':'' @ ''null'' @ [CHR 0x7D]"

lemma lex_all_more:
  "lex_all [] = Some []"
  "lex_all (CHR 0x7B # s) = map_option ((#) TLBrace) (lex_all s)"
  "lex_all (CHR 0x7D # s) = map_option ((#) TRBrace) (lex_all s)"
  "lex_all (CHR '':'' # s) = map_option ((#) TColon) (lex_all s)"
  "lex_all (CHR ''t'' # CHR ''r'' # CHR ''u'' # CHR ''e'' # s) = map_option ((#) TTrue) (lex_all s)"
  "lex_all (CHR ''n'' # CHR ''u'' # CHR ''l'' # CHR ''l'' # s) = map_option ((#) TNull) (lex_all s)"
  by (simp_all add: lex_all.simps(2) json_space_def lex_token_def)

lemma lex_marshal_strings:
  "lex_all (marshal_strings (Some ps) @ rest) =
     map_option (\<lambda>ts. TLBrack # elem_tokens ps @ TRBrack # ts) (lex_all rest)"
  by (simp add: marshal_strings_def lex_all_punct lex_all_elems option.map_comp comp_def)

lemma parse_run_array:
  "parse_run WantElemOrClose (FArr [] # st) (elem_tokens ps @ TRBrack # ts) =
     parse_run (AfterValue (JArr (map (JStr \<circ> quote_body) ps))) st ts"
proof (cases ps)
  case (Cons p ps')
  have "parse_run WantElemOrClose (FArr [] # st) (elem_tokens (p # ps') @ TRBrack # ts)
      = parse_run WantValue (FArr [] # st) (elem_tokens (p # ps') @ TRBrack # ts)"
    by (cases ps') simp_all
  then show ?thesis
    using parse_run_elems [of "[]" st p ps' ts] by (simp add: Cons)
qed simp

lemma quote_body_plain: "\<forall>c \<in> set s. (of_char c :: nat) < 128 \<and> html_safe c \<Longrightarrow> quote_body s = s"
  by (induction s) (simp_all add: quote_body.simps(2))

lemma unmarshal_active:
  "unmarshal_resolution (active_body role ps) =
     Some \<lparr>Status = ''active'', MRole = valid_utf8_of role, Permissions = Some (map valid_utf8_of ps),
       IsActive = True, ExpiresAt = None, MReason = ''''\<rparr>"
proof -
  have names: "quote_body ''status'' = ''status''" "quote_body ''active'' = ''active''"
    "quote_body ''role'' = ''role''" "quote_body ''permissions'' = ''permissions''"
    "quote_body ''isActive'' = ''isActive''" "quote_body ''expiresAt'' = ''expiresAt''"
    by (simp_all add: quote_body_plain html_safe_def)
  have ascii: "unquote s = s" if "quote_body s = s" "\<forall>c \<in> set s. (of_char c :: nat) < 128" for s
    using unquote_quote_body [of s] valid_utf8_of_ascii [OF that(2)] that(1) by simp
  let ?arr = "JArr (map (JStr \<circ> quote_body) ps)"
  let ?ms = "[(''status'', JStr ''active''), (''role'', JStr (quote_body role)),
    (''permissions'', ?arr), (''isActive'', JBool True), (''expiresAt'', JNull)]"
  have "parse_json (active_body role ps) = Some (JObj ?ms)"
    by (simp add: parse_json_def active_body_def lex_all_string lex_all_punct lex_all_more
        lex_marshal_strings names parse_run_array max_nesting_def)
  moreover have "field_of_key ''status'' = Some FStatus" "field_of_key ''role'' = Some FRole"
    "field_of_key ''permissions'' = Some FPermissions" "field_of_key ''isActive'' = Some FIsActive"
    "field_of_key ''expiresAt'' = Some FExpiresAt"
    by code_simp+
  ultimately show ?thesis
    by (simp add: unmarshal_resolution_def ascii names set_field_def zero_resolution_def
        decode_marshalled unquote_quote_body)
qed

end
