(* ===== verification/Go_Crypto.thy ===== *)
theory Go_Crypto
  imports Go_Prelude
begin

unbundle bit_operations_syntax

text \<open>
  \<open>crypto/sha256\<close>, \<open>crypto/hmac\<close> and \<open>encoding/hex\<close>, as far as \<open>HeliosClient.sign\<close> uses
  them: SHA-256 on 32-bit words (FIPS 180-4), the HMAC construction over it (FIPS 198-1) and
  lower-case hexadecimal. Bytes are characters, so messages are strings.
\<close>

section \<open>SHA-256\<close>

type_synonym u32 = "32 word"

text \<open>
  The constants of the algorithm: the first 32 bits of the fractional parts of the cube roots of
  the first 64 primes, and of the square roots of the first eight. \<open>int_root k n\<close> is the
  greatest number of at most 36 bits whose \<open>k\<close>-th power is at most \<open>n\<close>.
\<close>

definition first_primes :: "int list" where
  "first_primes =
     [2, 3, 5, 7, 11, 13, 17, 19, 23, 29, 31, 37, 41, 43, 47, 53,
      59, 61, 67, 71, 73, 79, 83, 89, 97, 101, 103, 107, 109, 113, 127, 131,
      137, 139, 149, 151, 157, 163, 167, 173, 179, 181, 191, 193, 197, 199, 211, 223,
      227, 229, 233, 239, 241, 251, 257, 263, 269, 271, 277, 281, 283, 293, 307, 311]"

definition int_root :: "nat \<Rightarrow> int \<Rightarrow> int" where
  "int_root k n = foldl (\<lambda>r i. if (r + 2 ^ i) ^ k \<le> n then r + 2 ^ i else r) 0 (rev [0..<36])"

definition root_fraction :: "nat \<Rightarrow> int \<Rightarrow> u32" where
  "root_fraction k p = of_int (int_root k (p * 2 ^ (32 * k)))"

definition sha256_K :: "u32 list" where
  "sha256_K = map (root_fraction 3) first_primes"

definition sha256_H0 :: "u32 list" where
  "sha256_H0 = map (root_fraction 2) (take 8 first_primes)"

definition ror32 :: "nat \<Rightarrow> u32 \<Rightarrow> u32" where
  "ror32 n x = drop_bit n x OR push_bit (32 - n) x"

definition small_sigma0 :: "u32 \<Rightarrow> u32" where
  "small_sigma0 x = ror32 7 x XOR ror32 18 x XOR drop_bit 3 x"

definition small_sigma1 :: "u32 \<Rightarrow> u32" where
  "small_sigma1 x = ror32 17 x XOR ror32 19 x XOR drop_bit 10 x"

definition big_sigma0 :: "u32 \<Rightarrow> u32" where
  "big_sigma0 x = ror32 2 x XOR ror32 13 x XOR ror32 22 x"

definition big_sigma1 :: "u32 \<Rightarrow> u32" where
  "big_sigma1 x = ror32 6 x XOR ror32 11 x XOR ror32 25 x"

definition sha_ch :: "u32 \<Rightarrow> u32 \<Rightarrow> u32 \<Rightarrow> u32" where
  "sha_ch x y z = (x AND y) XOR (NOT x AND z)"

definition sha_maj :: "u32 \<Rightarrow> u32 \<Rightarrow> u32 \<Rightarrow> u32" where
  "sha_maj x y z = (x AND y) XOR (x AND z) XOR (y AND z)"

text \<open>The message schedule, latest word first.\<close>

fun extend_schedule :: "nat \<Rightarrow> u32 list \<Rightarrow> u32 list" where
  "extend_schedule 0 ws = ws"
| "extend_schedule (Suc n) ws =
     extend_schedule n
       ((small_sigma1 (ws ! 1) + ws ! 6 + small_sigma0 (ws ! 14) + ws ! 15) # ws)"

fun sha256_round :: "u32 list \<Rightarrow> u32 \<times> u32 \<Rightarrow> u32 list" where
  "sha256_round [a, b, c, d, e, f, g, h] (k, w) =
     (let t1 = h + big_sigma1 e + sha_ch e f g + k + w;
          t2 = big_sigma0 a + sha_maj a b c
      in [t1 + t2, a, b, c, d + t1, e, f, g])"
| "sha256_round st _ = st"

text \<open>The words of a block of 64 bytes, big-endian.\<close>

fun be_words :: "string \<Rightarrow> u32 list" where
  "be_words (a # b # c # d # rest) =
     of_nat (of_char a * 16777216 + of_char b * 65536 + of_char c * 256 + of_char d) # be_words rest"
| "be_words _ = []"

definition sha256_block :: "u32 list \<Rightarrow> string \<Rightarrow> u32 list" where
  "sha256_block st block =
     map2 (+) st
       (foldl sha256_round st
         (zip sha256_K (rev (extend_schedule 48 (rev (be_words block))))))"

definition be_bytes :: "nat \<Rightarrow> nat \<Rightarrow> string" where
  "be_bytes n x = map (\<lambda>i. char_of (x div 256 ^ (n - 1 - i) mod 256)) [0..<n]"

definition sha256_pad :: "string \<Rightarrow> string" where
  "sha256_pad m =
     m @ [CHR 0x80] @ replicate ((119 - length m mod 64) mod 64) (CHR 0x00)
       @ be_bytes 8 (8 * length m mod 18446744073709551616)"

function sha256_blocks :: "u32 list \<Rightarrow> string \<Rightarrow> u32 list" where
  "sha256_blocks st m =
     (if m = [] then st else sha256_blocks (sha256_block st (take 64 m)) (drop 64 m))"
  by pat_completeness auto
termination
  by (relation "measure (length \<circ> snd)") auto

declare sha256_blocks.simps [simp del]

definition sha256 :: "string \<Rightarrow> string" where
  "sha256 m =
     concat (map (\<lambda>w. be_bytes 4 (unat w)) (sha256_blocks sha256_H0 (sha256_pad m)))"

section \<open>HMAC and hexadecimal\<close>

definition xor_bytes :: "nat \<Rightarrow> string \<Rightarrow> string" where
  "xor_bytes b s = map (\<lambda>c. char_of ((of_char c :: nat) XOR b)) s"

definition hmac_key :: "string \<Rightarrow> string" where
  "hmac_key key =
     (let k = (if length key > 64 then sha256 key else key)
      in k @ replicate (64 - length k) (CHR 0x00))"

definition hmac_sha256 :: "string \<Rightarrow> string \<Rightarrow> string" where
  "hmac_sha256 key m =
     sha256 (xor_bytes 92 (hmac_key key) @ sha256 (xor_bytes 54 (hmac_key key) @ m))"

definition hex_char :: "nat \<Rightarrow> char" where
  "hex_char d = (if d < 10 then char_of (48 + d) else char_of (87 + d))"

definition hex_EncodeToString :: "string \<Rightarrow> string" where
  "hex_EncodeToString s = concat (map (\<lambda>c. [hex_char (of_char c div 16), hex_char (of_char c mod 16)]) s)"

lemma sha256_round_length [simp]: "length (sha256_round st kw) = length st"
  by (induction st kw rule: sha256_round.induct) (simp_all add: Let_def)

lemma foldl_round_length: "length (foldl sha256_round st kws) = length st"
  by (induction kws arbitrary: st) simp_all

lemma sha256_block_length [simp]: "length (sha256_block st b) = length st"
  by (simp add: sha256_block_def foldl_round_length)

lemma sha256_blocks_length: "length (sha256_blocks st m) = length st"
proof (induction st m rule: sha256_blocks.induct)
  case (1 st m)
  then show ?case by (subst sha256_blocks.simps) simp
qed

lemma length_concat_const: "\<forall>x \<in> set xs. length (f x) = n \<Longrightarrow> length (concat (map f xs)) = n * length xs"
  by (induction xs) auto

lemma sha256_length: "length (sha256 m) = 32"
  using length_concat_const [of "sha256_blocks sha256_H0 (sha256_pad m)" "\<lambda>w. be_bytes 4 (unat w)" 4]
  by (simp add: sha256_def be_bytes_def sha256_blocks_length sha256_H0_def first_primes_def)

lemma sha256_pad_length: "length (sha256_pad m) mod 64 = 0"
proof -
  have "(n + 1 + (119 - n mod 64) mod 64 + 8) mod 64 = 0" for n :: nat
  proof -
    define q r where "q = n div 64" and "r = n mod 64"
    have n: "n = 64 * q + r" and r: "r < 64" by (simp_all add: q_def r_def)
    have pad: "(119 - r) mod 64 = (if r \<le> 55 then 55 - r else 119 - r)"
    proof (cases "r \<le> 55")
      case True
      then have e: "119 - r = 64 + (55 - r)" by arith
      have "(64 + (55 - r)) mod 64 = (55 - r) mod 64" by (rule mod_add_self1)
      with e True show ?thesis by simp
    next
      case False
      then have "119 - r < 64" by arith
      with False show ?thesis by simp
    qed
    have "n + 1 + (119 - n mod 64) mod 64 + 8 = 64 * (if r \<le> 55 then q + 1 else q + 2)"
      using r pad by (simp add: n)
    then show ?thesis by (metis mod_mult_self1_is_0)
  qed
  from this [of "length m"] show ?thesis by (simp add: sha256_pad_def be_bytes_def ac_simps)
qed

lemma hex_length: "length (hex_EncodeToString s) = 2 * length s"
  by (simp add: hex_EncodeToString_def length_concat_const)

lemma hex_digits_only: "c \<in> set (hex_EncodeToString s) \<Longrightarrow> c \<in> set ''0123456789abcdef''"
proof -
  define hex where "hex = set ''0123456789abcdef''"
  have digit: "hex_char d \<in> hex" if "d < 16" for d
  proof -
    have "d \<in> set [0..<16]" using that by simp
    moreover have "\<forall>d \<in> set [0..<16]. hex_char d \<in> set ''0123456789abcdef''" by code_simp
    ultimately show ?thesis unfolding hex_def by blast
  qed
  have "(of_char x :: nat) div 16 < 16" for x :: char
    using nat_of_char_less_256 [of x] by (simp add: less_mult_imp_div_less)
  then have "hex_char (of_char x div 16) \<in> hex" "hex_char (of_char x mod 16) \<in> hex" for x :: char
    by (simp_all add: digit)
  moreover assume "c \<in> set (hex_EncodeToString s)"
  ultimately show ?thesis
    unfolding hex_def [symmetric] by (auto simp: hex_EncodeToString_def)
qed

lemma hex_char_inj: "hex_char d = hex_char e \<Longrightarrow> d < 16 \<Longrightarrow> e < 16 \<Longrightarrow> d = e"
proof -
  have "\<forall>d \<in> set [0..<16]. \<forall>e \<in> set [0..<16]. hex_char d = hex_char e \<longrightarrow> d = e" by code_simp
  then show "hex_char d = hex_char e \<Longrightarrow> d < 16 \<Longrightarrow> e < 16 \<Longrightarrow> d = e" by simp
qed

lemma hex_EncodeToString_inj: "hex_EncodeToString s = hex_EncodeToString s' \<Longrightarrow> s = s'"
proof (induction s arbitrary: s')
  case Nil
  then show ?case by (cases s') (simp_all add: hex_EncodeToString_def)
next
  case (Cons x s)
  then obtain y r where s': "s' = y # r" by (cases s') (auto simp: hex_EncodeToString_def)
  have lt: "(of_char z :: nat) div 16 < 16" "(of_char z :: nat) mod 16 < 16" for z :: char
    using nat_of_char_less_256 [of z] by (simp_all add: less_mult_imp_div_less)
  from Cons.prems s' have "hex_char (of_char x div 16) = hex_char (of_char y div 16)"
    "hex_char (of_char x mod 16) = hex_char (of_char y mod 16)" and r: "s = r"
    using Cons.IH [of r] by (auto simp: hex_EncodeToString_def)
  then have "(of_char x :: nat) div 16 = of_char y div 16" "(of_char x :: nat) mod 16 = of_char y mod 16"
    using hex_char_inj lt by blast+
  then have "(of_char x :: nat) = of_char y" by (metis div_mult_mod_eq)
  then have "x = y" by simp
  with s' r show ?case by simp
qed

end
