(* ===== verification/Go_Duration.thy ===== *)
theory Go_Duration
  imports Go_Prelude
begin

text \<open>
  \<open>helios_permissions/duration.go\<close>: seconds as a Go \<open>int\<close> (64 bits) to a \<open>time.Duration\<close>
  (64-bit nanoseconds). The multiplication wraps, so the model keeps the width.
\<close>

type_synonym Duration = "64 word"

definition time_Second :: Duration where
  "time_Second = 1000000000"

definition secondsToDuration :: "go_int \<Rightarrow> Duration" where
  "secondsToDuration s = (if sint s \<le> 0 then 0 else s * time_Second)"

lemma secondsToDuration_nonpos [simp]: "sint s \<le> 0 \<Longrightarrow> secondsToDuration s = 0"
  by (simp add: secondsToDuration_def)

lemma secondsToDuration_zero [simp]: "secondsToDuration 0 = 0"
  by (simp add: secondsToDuration_def)

lemma sint_times_second:
  "sint (s * time_Second) = signed_take_bit 63 (sint s * 1000000000)"
  by (simp add: time_Second_def sint_word_ariths(3))

lemma secondsToDuration_exact:
  assumes "0 \<le> sint s" and "sint s \<le> 9223372036"
  shows "sint (secondsToDuration s) = sint s * 1000000000"
proof (cases "sint s = 0")
  case True
  then show ?thesis by simp
next
  case False
  with assms show ?thesis
    by (simp add: secondsToDuration_def sint_times_second signed_take_bit_int_eq_self)
qed

text \<open>
  C40: A number of seconds is converted exactly, negative numbers counting as 0, if and only if
  it is at most 9223372036 (about 292 years): beyond that the product overflows the 64-bit
  duration and the result is another length of time.
\<close>

theorem secondsToDuration_exact_iff:
  "sint (secondsToDuration s) = max 0 (sint s) * 1000000000 \<longleftrightarrow> sint s \<le> 9223372036"
proof (cases "sint s \<le> 0")
  case True
  then show ?thesis by simp
next
  case False
  show ?thesis
  proof
    assume "sint (secondsToDuration s) = max 0 (sint s) * 1000000000"
    moreover have "sint (secondsToDuration s) < 2 ^ 63"
      using sint_lt [of "secondsToDuration s"] by simp
    ultimately show "sint s \<le> 9223372036" using False by simp
  next
    assume "sint s \<le> 9223372036"
    with False show "sint (secondsToDuration s) = max 0 (sint s) * 1000000000"
      using secondsToDuration_exact [of s] by simp
  qed
qed

end
