(* ===== verification/Helios_Client.thy ===== *)
theory Helios_Client
  imports Helios_Resolution Go_Crypto Go_Duration Go_Errors
begin

text \<open>
  The HMAC client of \<open>helios_permissions/client.go\<close>: its options and constructor, the request it
  signs and sends, and what it makes of each answer. The network, redirects and the URL parser
  are code outside the repository: functions in the client's records, over a world \<open>'w\<close> and a
  context type \<open>'x\<close>. SHA-256, HMAC and JSON are modelled in their own theories.
\<close>

section \<open>What the client uses of \<open>net/http\<close>\<close>

text \<open>
  \<open>Header.Set\<close> keeps one value under the canonical form of the key: the first letter and every
  letter after a hyphen in upper case, the others in lower case (the four keys of the client are
  valid header tokens).
\<close>

fun canonical_from :: "bool \<Rightarrow> string \<Rightarrow> string" where
  "canonical_from up [] = []"
| "canonical_from up (c # cs) =
     (if up then upper_ascii c else lower_ascii c) # canonical_from (c = CHR ''-'') cs"

definition CanonicalHeaderKey :: "string \<Rightarrow> string" where
  "CanonicalHeaderKey = canonical_from True"

type_synonym http_header = "(string \<times> string) list"

definition header_Set :: "string \<Rightarrow> string \<Rightarrow> http_header \<Rightarrow> http_header" where
  "header_Set k v h = AList.update (CanonicalHeaderKey k) v h"

record 'x http_request =
  req_Context :: 'x
  req_Method :: string
  req_URL :: string
  req_Header :: http_header

text \<open>
  A response body is a stream: its bytes, then the error its reader ends with (\<^const>\<open>None\<close>: end
  of file), and whether the reader reports that error together with the last bytes.
\<close>

record http_response =
  resp_StatusCode :: int
  resp_bytes :: string
  resp_error :: "go_error option"
  resp_error_early :: bool

text \<open>\<open>io.ReadAll(io.LimitReader(body, n))\<close>: the error is seen only if the limit is not reached first.\<close>

definition read_limited :: "nat \<Rightarrow> http_response \<Rightarrow> string \<times> go_error option" where
  "read_limited n resp =
     (take n (resp_bytes resp),
      if length (resp_bytes resp) < n \<or> length (resp_bytes resp) = n \<and> resp_error_early resp
      then resp_error resp else None)"

text \<open>
  An \<open>http.Client\<close>: its timeout, and how it carries out a request under a timeout (transport,
  redirects, the network: code outside the repository).
\<close>

record ('x, 'w) http_Client =
  Timeout :: Duration
  round_trip :: "Duration \<Rightarrow> 'x http_request \<Rightarrow> 'w \<Rightarrow> (go_error + http_response) \<times> 'w"

definition http_Do :: "('x, 'w) http_Client \<Rightarrow> 'x http_request \<Rightarrow> 'w \<Rightarrow> (go_error + http_response) \<times> 'w" where
  "http_Do client = round_trip client (Timeout client)"

text \<open>
  The standard library's part: the error of \<open>http.NewRequestWithContext\<close> for a context and a URL
  (a nil context, a URL that does not parse), the default transport, and \<open>time.Now\<close> as the Unix
  seconds the client reads of it.
\<close>

record ('x, 'w) net =
  new_request_error :: "'x \<Rightarrow> string \<Rightarrow> go_error option"
  default_round_trip :: "Duration \<Rightarrow> 'x http_request \<Rightarrow> 'w \<Rightarrow> (go_error + http_response) \<times> 'w"
  time_Now :: "'w \<Rightarrow> 64 word \<times> 'w"

section \<open>The client\<close>

text \<open>The options; a nil pointer or function is \<^const>\<open>None\<close>.\<close>

record ('x, 'w) HeliosClientOptions =
  BaseURL :: string
  SignatureSharedSecret :: string
  SourceService :: string
  HTTPClient :: "('x, 'w) http_Client option"
  FetchTimeout :: Duration
  Now :: "('w \<Rightarrow> 64 word \<times> 'w) option"

text \<open>
  A client holds its options with the defaults filled in, so its \<open>http.Client\<close> and clock are
  there.
\<close>

record ('x, 'w) HeliosClient =
  hc_BaseURL :: string
  hc_Secret :: string
  hc_SourceService :: string
  hc_HTTPClient :: "('x, 'w) http_Client"
  hc_FetchTimeout :: Duration
  hc_Now :: "'w \<Rightarrow> 64 word \<times> 'w"

text \<open>
  The injected \<open>http.Client\<close> is a pointer, whose timeout a positive \<open>FetchTimeout\<close> overwrites:
  the client in the result is that very object after the assignment.
\<close>

definition NewHeliosClient ::
    "('x, 'w) net \<Rightarrow> ('x, 'w) HeliosClientOptions \<Rightarrow> ('x, 'w) HeliosClient outcome" where
  "NewHeliosClient net opts =
     (if BaseURL opts = '''' then
        Panics ''helios_permissions: HeliosClientOptions.BaseURL is required''
      else if SignatureSharedSecret opts = '''' then
        Panics ''helios_permissions: HeliosClientOptions.SignatureSharedSecret is required''
      else
        let source = (if SourceService opts = '''' then ''helios-permissions-go'' else SourceService opts);
            client =
              (case HTTPClient opts of
                 None \<Rightarrow>
                   let timeout = FetchTimeout opts;
                       timeout' = (if sint timeout \<le> 0 then 2 * time_Second else timeout)
                   in \<lparr>Timeout = timeout', round_trip = default_round_trip net\<rparr>
               | Some client \<Rightarrow>
                   if sint (FetchTimeout opts) > 0 then client\<lparr>Timeout := FetchTimeout opts\<rparr> else client);
            clock = (case Now opts of None \<Rightarrow> time_Now net | Some f \<Rightarrow> f)
        in Returns \<lparr>hc_BaseURL = BaseURL opts, hc_Secret = SignatureSharedSecret opts,
             hc_SourceService = source, hc_HTTPClient = client,
             hc_FetchTimeout = FetchTimeout opts, hc_Now = clock\<rparr>)"

definition sign :: "('x, 'w) HeliosClient \<Rightarrow> string \<Rightarrow> string \<Rightarrow> string \<Rightarrow> string" where
  "sign c m path timestamp =
     (let payload = m @ path @ timestamp
      in hex_EncodeToString (hmac_sha256 (hc_Secret c) payload))"

text \<open>\<open>json.Unmarshal\<close> of the body; the text of its errors is not modelled.\<close>

definition Unmarshal_resolution :: "string \<Rightarrow> go_error + MembershipResolution" where
  "Unmarshal_resolution body =
     (case unmarshal_resolution body of
        None \<Rightarrow> Inl (ForeignError ''json: cannot unmarshal'')
      | Some r \<Rightarrow> Inr r)"

definition helios_path :: "string \<Rightarrow> string" where
  "helios_path userID = ''/internal/permissions/'' @ userID"

definition helios_url :: "('x, 'w) HeliosClient \<Rightarrow> string \<Rightarrow> string \<Rightarrow> string" where
  "helios_url c userID tenantID = hc_BaseURL c @ helios_path userID @ ''?tenantId='' @ tenantID"

text \<open>What the client makes of a response.\<close>

definition read_response :: "http_response \<Rightarrow> MembershipResolution option \<times> go_error option" where
  "read_response resp =
     (if resp_StatusCode resp = 404 then (Some (zero_resolution\<lparr>Status := ''not_a_member''\<rparr>), None)
      else if resp_StatusCode resp < 200 \<or> resp_StatusCode resp \<ge> 300 then
        let (body, _) = read_limited 4096 resp
        in (None, Some (HeliosUnreachableError (resp_StatusCode resp) ''non_2xx''
              (Some (ErrorString (''body='' @ body)))))
      else
        (case read_limited 1048576 resp of
           (body, Some err) \<Rightarrow>
             (None, Some (HeliosUnreachableError (resp_StatusCode resp) ''body_read'' (Some err)))
         | (body, None) \<Rightarrow>
             (case Unmarshal_resolution body of
                Inl err \<Rightarrow>
                  (None, Some (HeliosUnreachableError (resp_StatusCode resp) ''body_parse'' (Some err)))
              | Inr resolution \<Rightarrow> (Some resolution, None))))"

definition helios_request ::
    "('x, 'w) HeliosClient \<Rightarrow> 'x \<Rightarrow> string \<Rightarrow> string \<Rightarrow> 64 word \<Rightarrow> 'x http_request" where
  "helios_request c ctx userID tenantID now =
     (let req = \<lparr>req_Context = ctx, req_Method = ''GET'', req_URL = helios_url c userID tenantID,
                 req_Header = []\<rparr>;
          timestamp = FormatInt (sint now);
          signature = sign c ''GET'' (helios_path userID) timestamp;
          h = header_Set ''x-source-service'' (hc_SourceService c) (req_Header req);
          h = header_Set ''x-signature'' signature h;
          h = header_Set ''x-timestamp'' timestamp h;
          h = header_Set ''Accept'' ''application/json'' h
      in req\<lparr>req_Header := h\<rparr>)"

definition FetchUserPermissions ::
    "('x, 'w) net \<Rightarrow> ('x, 'w) HeliosClient \<Rightarrow> 'x \<Rightarrow> string \<Rightarrow> string \<Rightarrow> 'w
       \<Rightarrow> (MembershipResolution option \<times> go_error option) \<times> 'w" where
  "FetchUserPermissions net c ctx userID tenantID w =
     (case new_request_error net ctx (helios_url c userID tenantID) of
        Some err \<Rightarrow> ((None, Some (HeliosUnreachableError 0 ''request_build'' (Some err))), w)
      | None \<Rightarrow>
          let (now, w1) = hc_Now c w in
          (case http_Do (hc_HTTPClient c) (helios_request c ctx userID tenantID now) w1 of
             (Inl err, w2) \<Rightarrow> ((None, Some (HeliosUnreachableError 0 ''network'' (Some err))), w2)
           | (Inr resp, w2) \<Rightarrow> (read_response resp, w2)))"

declare NewHeliosClient_def [handler_defs] FetchUserPermissions_def [handler_defs]

section \<open>Properties\<close>

lemma canonical_keys:
  "CanonicalHeaderKey ''x-source-service'' = ''X-Source-Service''"
  "CanonicalHeaderKey ''x-signature'' = ''X-Signature''"
  "CanonicalHeaderKey ''x-timestamp'' = ''X-Timestamp''"
  "CanonicalHeaderKey ''Accept'' = ''Accept''"
  by code_simp+

lemma helios_request_value:
  "helios_request c ctx u t now =
     \<lparr>req_Context = ctx, req_Method = ''GET'',
      req_URL = hc_BaseURL c @ ''/internal/permissions/'' @ u @ ''?tenantId='' @ t,
      req_Header =
        [(''X-Source-Service'', hc_SourceService c),
         (''X-Signature'', hex_EncodeToString (hmac_sha256 (hc_Secret c)
            (''GET/internal/permissions/'' @ u @ FormatInt (sint now)))),
         (''X-Timestamp'', FormatInt (sint now)),
         (''Accept'', ''application/json'')]\<rparr>"
  by (simp add: helios_request_def header_Set_def canonical_keys helios_url_def helios_path_def
      sign_def Let_def)

text \<open>
  C28: Unless the URL does not parse, a fetch reads the clock once and sends one request, under
  the client's timeout: a GET of the base URL, \<open>/internal/permissions/\<close>, user, \<open>?tenantId=\<close> and
  tenant, with the source service, the lower-case hexadecimal HMAC-SHA256 of
  \<open>GET/internal/permissions/\<close>, user and timestamp under the shared secret, the decimal timestamp
  and the accepted media type as its only headers; the answer, and nothing else, decides the
  result.
\<close>

theorem fetch_request_exact:
  assumes "new_request_error net ctx (hc_BaseURL c @ ''/internal/permissions/'' @ u @ ''?tenantId='' @ t) = None"
  shows "FetchUserPermissions net c ctx u t w =
    (let (now, w1) = hc_Now c w;
         (answer, w2) = round_trip (hc_HTTPClient c) (Timeout (hc_HTTPClient c))
           \<lparr>req_Context = ctx, req_Method = ''GET'',
            req_URL = hc_BaseURL c @ ''/internal/permissions/'' @ u @ ''?tenantId='' @ t,
            req_Header =
              [(''X-Source-Service'', hc_SourceService c),
               (''X-Signature'', hex_EncodeToString (hmac_sha256 (hc_Secret c)
                  (''GET/internal/permissions/'' @ u @ FormatInt (sint now)))),
               (''X-Timestamp'', FormatInt (sint now)),
               (''Accept'', ''application/json'')]\<rparr> w1
     in (case answer of
           Inl err \<Rightarrow> (None, Some (HeliosUnreachableError 0 ''network'' (Some err)))
         | Inr resp \<Rightarrow> read_response resp, w2))"
  using assms
  by (simp add: FetchUserPermissions_def helios_request_value http_Do_def helios_url_def
      helios_path_def split: prod.split sum.split)

text \<open>A client for the witnesses: it gets a fixed answer, and its clock stands still.\<close>

definition fixed_net :: "(unit, 'w) net" where
  "fixed_net = \<lparr>new_request_error = (\<lambda>_ _. None),
     default_round_trip = (\<lambda>_ _ w. (Inl (ForeignError ''timeout''), w)),
     time_Now = (\<lambda>w. (1700000000, w))\<rparr>"

definition answering_client :: "(go_error + http_response) \<Rightarrow> (unit, 'w) HeliosClient" where
  "answering_client answer = \<lparr>hc_BaseURL = ''https://helios'', hc_Secret = ''s'',
     hc_SourceService = ''helios-permissions-go'',
     hc_HTTPClient = \<lparr>Timeout = 2 * time_Second, round_trip = (\<lambda>_ _ w. (answer, w))\<rparr>,
     hc_FetchTimeout = 0, hc_Now = (\<lambda>w. (1700000000, w))\<rparr>"

lemma answering_fetch:
  "FetchUserPermissions fixed_net (answering_client answer) ctx u t w =
     ((case answer of
         Inl err \<Rightarrow> (None, Some (HeliosUnreachableError 0 ''network'' (Some err)))
       | Inr resp \<Rightarrow> read_response resp), w)"
  by (simp add: FetchUserPermissions_def fixed_net_def answering_client_def http_Do_def
      split: sum.split)

theorem fetch_request_exact_witness:
  "fst (FetchUserPermissions fixed_net (answering_client (Inr \<lparr>resp_StatusCode = 404, resp_bytes = [],
      resp_error = None, resp_error_early = False\<rparr>)) () ''u'' ''t'' ())
    = (Some (zero_resolution\<lparr>Status := ''not_a_member''\<rparr>), None)"
proof -
  let ?c = "answering_client (Inr \<lparr>resp_StatusCode = 404, resp_bytes = [],
      resp_error = None, resp_error_early = False\<rparr>) :: (unit, unit) HeliosClient"
  have "new_request_error fixed_net ()
      (hc_BaseURL ?c @ ''/internal/permissions/'' @ ''u'' @ ''?tenantId='' @ ''t'') = None"
    by (simp add: fixed_net_def)
  from fetch_request_exact [OF this, of "()"] show ?thesis
    by (simp add: answering_client_def read_response_def)
qed

lemma read_response_shape:
  "(\<exists>r. read_response resp = (Some r, None)) \<or>
   (\<exists>reason e. read_response resp =
      (None, Some (HeliosUnreachableError (resp_StatusCode resp) reason (Some e))) \<and>
      (reason \<in> {''body_read'', ''body_parse''} \<and> resp_StatusCode resp \<in> {200..<300} \<or>
       reason = ''non_2xx'' \<and> resp_StatusCode resp \<notin> {200..<300} \<union> {404}))"
  by (auto simp: read_response_def read_limited_def split: sum.split option.split)

text \<open>
  A fetch returns either a resolution or an error, never both and never neither; the error
  is a \<open>HeliosUnreachableError\<close> with a cause, with status 0 and reason \<open>request_build\<close> or
  \<open>network\<close> when there was no answer, with the status of the answer and reason \<open>non_2xx\<close> when
  that is neither 2xx nor 404, and with \<open>body_read\<close> or \<open>body_parse\<close> when it is 2xx.
\<close>

lemma fetch_result_shape:
  "(\<exists>r. fst (FetchUserPermissions net c ctx u t w) = (Some r, None)) \<or>
   (\<exists>code reason e. fst (FetchUserPermissions net c ctx u t w) =
      (None, Some (HeliosUnreachableError code reason (Some e))) \<and>
      IsHeliosUnreachableError (snd (fst (FetchUserPermissions net c ctx u t w))) \<and>
      (code = 0 \<and> reason \<in> {''request_build'', ''network''} \<or>
       code \<in> {200..<300} \<and> reason \<in> {''body_read'', ''body_parse''} \<or>
       code \<notin> {200..<300} \<union> {404} \<and> reason = ''non_2xx''))"
proof (cases "new_request_error net ctx (helios_url c u t)")
  case (Some err)
  then show ?thesis by (simp add: FetchUserPermissions_def IsHeliosUnreachableError_def)
next
  case None
  obtain now w1 where now: "hc_Now c w = (now, w1)" by fastforce
  obtain ans w2 where ans: "http_Do (hc_HTTPClient c) (helios_request c ctx u t now) w1 = (ans, w2)"
    by fastforce
  show ?thesis
  proof (cases ans)
    case (Inl err)
    then show ?thesis
      using None by (simp add: FetchUserPermissions_def now ans IsHeliosUnreachableError_def)
  next
    case (Inr resp)
    then have "FetchUserPermissions net c ctx u t w = (read_response resp, w2)"
      using None by (simp add: FetchUserPermissions_def now ans)
    then show ?thesis
      using read_response_shape [of resp] by (auto simp: IsHeliosUnreachableError_def)
  qed
qed

text \<open>
  C15: What an answer means: 404 is a resolution \<open>not_a_member\<close> whatever its body; any other
  status outside 2xx is an error whose message quotes the first 4096 bytes of the body; a 2xx
  answer is the resolution its body encodes, read up to the first 1048576 bytes (longer bodies
  are cut without an error), an error if reading or parsing these fails.
\<close>

theorem read_response_table:
  "(resp_StatusCode resp = 404 \<longrightarrow>
      read_response resp = (Some \<lparr>Status = ''not_a_member'', MRole = '''', Permissions = None,
        IsActive = False, ExpiresAt = None, MReason = ''''\<rparr>, None))
   \<and> (resp_StatusCode resp \<notin> {200..<300} \<union> {404} \<longrightarrow>
      (\<exists>e. read_response resp = (None, Some e) \<and> StatusCode e = resp_StatusCode resp \<and>
         Error_text e = ''helios unreachable (non_2xx, status='' @ FormatInt (resp_StatusCode resp)
           @ ''): body='' @ take 4096 (resp_bytes resp)))
   \<and> (resp_StatusCode resp \<in> {200..<300} \<and> (length (resp_bytes resp) > 1048576 \<or> resp_error resp = None) \<longrightarrow>
      (case unmarshal_resolution (take 1048576 (resp_bytes resp)) of
         Some r \<Rightarrow> read_response resp = (Some r, None)
       | None \<Rightarrow> \<exists>e. read_response resp = (None, Some e) \<and> Reason e = ''body_parse''))
   \<and> (resp_StatusCode resp \<in> {200..<300} \<and> length (resp_bytes resp) < 1048576 \<and> resp_error resp \<noteq> None \<longrightarrow>
      read_response resp =
        (None, Some (HeliosUnreachableError (resp_StatusCode resp) ''body_read'' (resp_error resp))))"
proof -
  have "read_limited 1048576 resp = (take 1048576 (resp_bytes resp), None)"
    if "length (resp_bytes resp) > 1048576 \<or> resp_error resp = None"
    using that by (auto simp: read_limited_def)
  moreover have "read_limited 1048576 resp = (resp_bytes resp, resp_error resp)"
    if "length (resp_bytes resp) < 1048576"
    using that by (simp add: read_limited_def)
  moreover have "fst (read_limited 4096 resp) = take 4096 (resp_bytes resp)"
    by (simp add: read_limited_def)
  ultimately show ?thesis
    by (auto simp: read_response_def zero_resolution_def Unmarshal_resolution_def case_prod_unfold
        split: option.split)
qed

theorem read_response_table_witness:
  "read_response \<lparr>resp_StatusCode = 200, resp_bytes = ''null'', resp_error = None, resp_error_early = False\<rparr>
     = (Some zero_resolution, None)"
proof -
  have "unmarshal_resolution ''null'' = Some zero_resolution"
    by (simp add: unmarshal_resolution_def parse_null)
  with read_response_table [of "\<lparr>resp_StatusCode = 200, resp_bytes = ''null'', resp_error = None,
      resp_error_early = False\<rparr>"]
  show ?thesis by simp
qed

text \<open>
  C29: What is signed: the signature is the lower-case hexadecimal HMAC-SHA256, 64 digits, of
  method, path and timestamp joined without a separator, under the shared secret; the header of a
  request carries that of \<open>GET\<close>, the path with the user, and the time, and does not depend on the
  tenant. Moving leading digits of the timestamp to the end of the user leaves the signature as
  it is; but two equal signatures with timestamps of one length are of the same user and
  timestamp, or the two signed messages differ and collide under the HMAC.
\<close>

theorem signature_covers:
  "sign c m path ts = hex_EncodeToString (hmac_sha256 (hc_Secret c) (m @ path @ ts))
   \<and> length (sign c m path ts) = 64 \<and> set (sign c m path ts) \<subseteq> set ''0123456789abcdef''
   \<and> map_of (req_Header (helios_request c ctx u t now)) ''X-Signature'' =
       Some (sign c ''GET'' (helios_path u) (FormatInt (sint now)))
   \<and> map_of (req_Header (helios_request c ctx u t now)) ''X-Signature'' =
       map_of (req_Header (helios_request c ctx u t' now)) ''X-Signature''
   \<and> sign c ''GET'' (helios_path (u @ d)) ts = sign c ''GET'' (helios_path u) (d @ ts)
   \<and> (\<forall>u' ts'. length ts' = length ts \<and>
        sign c ''GET'' (helios_path u) ts = sign c ''GET'' (helios_path u') ts' \<longrightarrow>
        u = u' \<and> ts = ts'
        \<or> ''GET'' @ helios_path u @ ts \<noteq> ''GET'' @ helios_path u' @ ts'
          \<and> hmac_sha256 (hc_Secret c) (''GET'' @ helios_path u @ ts)
             = hmac_sha256 (hc_Secret c) (''GET'' @ helios_path u' @ ts'))"
proof -
  have payload: "sign c m path ts = hex_EncodeToString (hmac_sha256 (hc_Secret c) (m @ path @ ts))" for m path ts
    by (simp add: sign_def)
  have len: "length (sign c m path ts) = 64"
    by (simp add: sign_def hex_length hmac_sha256_def sha256_length)
  have chars: "set (sign c m path ts) \<subseteq> set ''0123456789abcdef''"
    using hex_digits_only unfolding sign_def Let_def by blast
  have hdr: "map_of (req_Header (helios_request c ctx u x now)) ''X-Signature'' =
       Some (sign c ''GET'' (helios_path u) (FormatInt (sint now)))" for x
    by (simp add: helios_request_value) (simp add: sign_def helios_path_def)
  have shift: "sign c ''GET'' (helios_path (u @ d)) ts = sign c ''GET'' (helios_path u) (d @ ts)"
    by (simp add: sign_def helios_path_def)
  have inj: "u = u' \<and> ts = ts'
        \<or> ''GET'' @ helios_path u @ ts \<noteq> ''GET'' @ helios_path u' @ ts'
          \<and> hmac_sha256 (hc_Secret c) (''GET'' @ helios_path u @ ts)
             = hmac_sha256 (hc_Secret c) (''GET'' @ helios_path u' @ ts')"
    if "length ts' = length ts"
      and eq: "sign c ''GET'' (helios_path u) ts = sign c ''GET'' (helios_path u') ts'" for u' ts'
  proof (cases "''GET'' @ helios_path u @ ts = ''GET'' @ helios_path u' @ ts'")
    case True
    with that(1) show ?thesis by (simp add: helios_path_def)
  next
    case False
    with hex_EncodeToString_inj [OF eq [unfolded payload]] show ?thesis by blast
  qed
  show ?thesis
    by (intro conjI, rule payload, rule len, rule chars, rule hdr, simp only: hdr, rule shift)
      (intro allI impI, elim conjE, rule inj)
qed

theorem signature_covers_witness:
  "sign (answering_client (Inl (ForeignError ''x'')) :: (unit, unit) HeliosClient) ''GET'' (helios_path ''u'') ''17''
     = hex_EncodeToString (hmac_sha256 ''s'' ''GET/internal/permissions/u17'')
   \<and> (sign (answering_client (Inl (ForeignError ''x'')) :: (unit, unit) HeliosClient) ''GET'' (helios_path ''u'') ''17''
        = sign (answering_client (Inl (ForeignError ''x'')) :: (unit, unit) HeliosClient) ''GET'' (helios_path ''v'') ''17''
      \<longleftrightarrow> hmac_sha256 ''s'' ''GET/internal/permissions/u17'' = hmac_sha256 ''s'' ''GET/internal/permissions/v17'')"
proof -
  let ?c = "answering_client (Inl (ForeignError ''x'')) :: (unit, unit) HeliosClient"
  note sc = signature_covers [of "?c" "''GET''" "helios_path ''u''"
      "''17''" "()" "''u''"]
  have paths: "''GET'' @ helios_path ''u'' @ ''17'' = ''GET/internal/permissions/u17''"
    "''GET'' @ helios_path ''v'' @ ''17'' = ''GET/internal/permissions/v17''"
    by (simp_all add: helios_path_def)
  have key: "hc_Secret ?c = ''s''"
    by (simp add: answering_client_def)
  from sc have "length ''17'' = length ''17'' \<and>
      sign ?c ''GET'' (helios_path ''u'') ''17'' =
      sign ?c ''GET'' (helios_path ''v'') ''17'' \<longrightarrow>
      ''u'' = ''v'' \<and> ''17'' = ''17''
      \<or> ''GET/internal/permissions/u17'' \<noteq> ''GET/internal/permissions/v17''
        \<and> hmac_sha256 ''s'' ''GET/internal/permissions/u17'' = hmac_sha256 ''s'' ''GET/internal/permissions/v17''"
    unfolding key paths [symmetric] by blast
  moreover from sc have "sign ?c ''GET'' (helios_path ''u'') ''17''
     = hex_EncodeToString (hmac_sha256 ''s'' ''GET/internal/permissions/u17'')"
    unfolding key paths by (rule conjunct1)
  moreover have "sign ?c ''GET'' (helios_path ''v'') ''17''
     = hex_EncodeToString (hmac_sha256 ''s'' ''GET/internal/permissions/v17'')"
    using signature_covers [of ?c "''GET''" "helios_path ''v''" "''17''" "()" "''v''"]
    unfolding key paths by (rule conjunct1)
  moreover have "''u'' \<noteq> ''v''" by simp
  ultimately show ?thesis by metis
qed

lemma takeWhile_stop:
  "\<not> P x \<Longrightarrow> takeWhile P (xs @ x # ys) = xs \<longleftrightarrow> (\<forall>a \<in> set xs. P a)"
  by (induction xs) auto

text \<open>The path of a URL, up to its query or fragment.\<close>

definition url_path :: "string \<Rightarrow> string" where
  "url_path = takeWhile (\<lambda>ch. ch \<noteq> CHR ''?'' \<and> ch \<noteq> CHR ''#'')"

text \<open>
  The signed path is the path of the requested URL if and only if the user contains neither
  a question mark nor a hash: the user is not escaped, so with one of them the server sees (and
  verifies) a shorter path than the one signed.
\<close>

lemma signed_path_is_url_path:
  "url_path (drop (length (hc_BaseURL c)) (req_URL (helios_request c ctx u t now))) = helios_path u
   \<longleftrightarrow> CHR ''?'' \<notin> set u \<and> CHR ''#'' \<notin> set u"
proof -
  let ?P = "\<lambda>ch. ch \<noteq> CHR ''?'' \<and> ch \<noteq> CHR ''#''"
  have url: "drop (length (hc_BaseURL c)) (req_URL (helios_request c ctx u t now))
      = helios_path u @ CHR ''?'' # (''tenantId='' @ t)"
    by (simp only: helios_request_def helios_url_def Let_def http_request.simps append_eq_conv_conj
        append_Cons append_Nil drop_append) simp
  have "takeWhile ?P (helios_path u @ CHR ''?'' # (''tenantId='' @ t)) = helios_path u
      \<longleftrightarrow> (\<forall>ch \<in> set (helios_path u). ?P ch)"
    by (rule takeWhile_stop) simp
  moreover have "(\<forall>ch \<in> set (helios_path u). ?P ch) \<longleftrightarrow> CHR ''?'' \<notin> set u \<and> CHR ''#'' \<notin> set u"
    by (auto simp: helios_path_def)
  ultimately show ?thesis unfolding url url_path_def by blast
qed

text \<open>
  The constructor panics exactly when the base URL or the secret is empty. Otherwise the
  client keeps both, names itself \<open>helios-permissions-go\<close> when no source service is given, reads
  the injected clock or the wall clock, and its requests time out after the given positive
  \<open>FetchTimeout\<close>, also when an \<open>http.Client\<close> with another timeout is injected; without one,
  after the injected client's own timeout, or two seconds for a client of its own.
\<close>

lemma NewHeliosClient_spec:
  "case NewHeliosClient net opts of
     Panics msg \<Rightarrow> BaseURL opts = '''' \<or> SignatureSharedSecret opts = ''''
   | Returns c \<Rightarrow>
       BaseURL opts \<noteq> '''' \<and> SignatureSharedSecret opts \<noteq> ''''
       \<and> hc_BaseURL c = BaseURL opts \<and> hc_Secret c = SignatureSharedSecret opts
       \<and> hc_SourceService c =
           (if SourceService opts = '''' then ''helios-permissions-go'' else SourceService opts)
       \<and> hc_Now c = (case Now opts of Some f \<Rightarrow> f | None \<Rightarrow> time_Now net)
       \<and> Timeout (hc_HTTPClient c) =
           (if 0 < sint (FetchTimeout opts) then FetchTimeout opts
            else case HTTPClient opts of Some h \<Rightarrow> Timeout h | None \<Rightarrow> secondsToDuration 2)
       \<and> round_trip (hc_HTTPClient c) =
           (case HTTPClient opts of Some h \<Rightarrow> round_trip h | None \<Rightarrow> default_round_trip net)"
  by (simp add: NewHeliosClient_def Let_def secondsToDuration_def split: option.split)

text \<open>
  C24: An active member's answer reaches the caller as it is: a 200 whose body is the JSON object
  with status \<open>active\<close>, the role, the permissions, \<open>isActive\<close> and a null \<open>expiresAt\<close> is decoded
  to exactly these values, for every role and list of permissions in UTF-8.
\<close>

theorem active_member_decoded:
  assumes "resp_StatusCode resp = 200" and "resp_bytes resp = active_body role ps"
    and "length (active_body role ps) \<le> 1048576" and "resp_error resp = None"
    and "valid_utf8_of role = role" and "\<forall>p \<in> set ps. valid_utf8_of p = p"
  shows "read_response resp =
    (Some \<lparr>Status = ''active'', MRole = role, Permissions = Some ps, IsActive = True,
       ExpiresAt = None, MReason = ''''\<rparr>, None)"
proof -
  have "map valid_utf8_of ps = ps" using assms(6) by (simp add: map_idI)
  then show ?thesis
    using assms by (simp add: read_response_def read_limited_def Unmarshal_resolution_def unmarshal_active)
qed

theorem active_member_decoded_witness:
  "read_response \<lparr>resp_StatusCode = 200, resp_bytes = active_body ''VIEWER'' [''a:b:c''],
      resp_error = None, resp_error_early = True\<rparr>
     = (Some \<lparr>Status = ''active'', MRole = ''VIEWER'', Permissions = Some [''a:b:c''], IsActive = True,
         ExpiresAt = None, MReason = ''''\<rparr>, None)"
proof -
  have "length (active_body ''VIEWER'' [''a:b:c'']) \<le> 1048576"
    by (simp add: active_body_def marshal_string_def marshal_strings_def quote_body_plain html_safe_def)
  moreover have "valid_utf8_of ''VIEWER'' = ''VIEWER''" "\<forall>p \<in> set [''a:b:c'']. valid_utf8_of p = p"
    by (simp_all add: valid_utf8_of_ascii)
  ultimately show ?thesis
    by (intro active_member_decoded) simp_all
qed

lemma fetch_error_is_helios:
  "snd (fst (FetchUserPermissions net c ctx u t w)) = Some e \<Longrightarrow> IsHeliosUnreachableError (Some e)"
  by (auto simp: FetchUserPermissions_def IsHeliosUnreachableError_def read_response_def
      split: option.splits prod.splits sum.splits if_splits)

text \<open>What clock and transport preserve, a fetch preserves.\<close>

lemma fetch_preserves:
  assumes "\<And>w. Q w \<Longrightarrow> Q (snd (hc_Now c w))"
    and "\<And>d req w. Q w \<Longrightarrow> Q (snd (round_trip (hc_HTTPClient c) d req w))" and "Q w"
  shows "Q (snd (FetchUserPermissions net c ctx u t w))"
proof -
  obtain now w1 where now: "hc_Now c w = (now, w1)" by fastforce
  with assms(1) [OF assms(3)] have "Q w1" by simp
  from assms(2) [OF this, of "Timeout (hc_HTTPClient c)" "helios_request c ctx u t now"] assms(3)
  show ?thesis
    by (auto simp: FetchUserPermissions_def now http_Do_def split: option.split prod.split sum.split)
qed

end
