(* ===== verification/Permission_Client.thy ===== *)
theory Permission_Client
  imports Permission_Cache Helios_Client
begin

text \<open>
  \<open>helios_permissions/permission_client.go\<close>: the cache-first client over the interface
  \<open>PermissionCache\<close> and the Helios client. This theory has every operation as one call that
  runs alone (a miss starts a fetch of its own, and waits for it); calls that overlap, and the
  coalescing of their fetches, are in \<open>In_Flight\<close>, which also shows that a call running alone
  does there what it does here.
\<close>

section \<open>The client\<close>

record ('x, 'w) permissionClient =
  cache :: "'w PermissionCache"
  helios :: "('x, 'w) HeliosClient"
  staleOnError :: bool
  client_logger :: "'w Logger"

text \<open>The options; a nil interface or pointer is \<^const>\<open>None\<close>.\<close>

record ('x, 'w) ClientOptions =
  opt_Cache :: "'w PermissionCache option"
  opt_Helios :: "('x, 'w) HeliosClient option"
  opt_StaleOnError :: "bool option"
  opt_ClientLogger :: "'w Logger option"

definition NewClient :: "('x, 'w) ClientOptions \<Rightarrow> go_error + ('x, 'w) permissionClient" where
  "NewClient opts =
     (case opt_Cache opts of
        None \<Rightarrow> Inl (ErrorString ''helios_permissions: ClientOptions.Cache is required'')
      | Some ca \<Rightarrow>
          (case opt_Helios opts of
             None \<Rightarrow> Inl (ErrorString ''helios_permissions: ClientOptions.Helios is required'')
           | Some he \<Rightarrow>
               let stale = (case opt_StaleOnError opts of None \<Rightarrow> True | Some b \<Rightarrow> b);
                   lg = (case opt_ClientLogger opts of None \<Rightarrow> SilentLogger | Some l \<Rightarrow> l)
               in Inr \<lparr>cache = ca, helios = he, staleOnError = stale, client_logger = lg\<rparr>))"

text \<open>
  The part of \<open>fetchAndPopulate\<close> after a fetch that returned no error: what the caller gets, and
  the write to the cache.
\<close>

definition populate ::
    "('x, 'w) permissionClient \<Rightarrow> string \<Rightarrow> string \<Rightarrow> MembershipResolution option \<Rightarrow> 'w
       \<Rightarrow> (Permission slice \<times> go_error option) \<times> 'w" where
  "populate c userID tenantID res w =
     (if (case res of None \<Rightarrow> True | Some r \<Rightarrow> Status r \<noteq> ''active'') then
        let (_, w1) = cache_Set (cache c) userID tenantID (Some []) w
        in ((Some [], None), w1)
      else
        let perms = (case res of Some r \<Rightarrow> Permissions r | None \<Rightarrow> None);
            perms = (if perms = None then Some [] else perms)
        in (case cache_Set (cache c) userID tenantID perms w of
              (Some setErr, w1) \<Rightarrow>
                ((perms, None),
                 log_Warn (client_logger c) ''cache.Set failed, continuing without cache''
                   [LError ''err'' (Some setErr), LString ''userId'' userID, LString ''tenantId'' tenantID] w1)
            | (None, w1) \<Rightarrow> ((perms, None), w1)))"

definition fetchAndPopulate ::
    "('x, 'w) net \<Rightarrow> ('x, 'w) permissionClient \<Rightarrow> 'x \<Rightarrow> string \<Rightarrow> string \<Rightarrow> 'w
       \<Rightarrow> (Permission slice \<times> go_error option) \<times> 'w" where
  "fetchAndPopulate net c ctx userID tenantID w =
     (case FetchUserPermissions net (helios c) ctx userID tenantID w of
        ((res, Some err), w1) \<Rightarrow> ((None, Some err), w1)
      | ((res, None), w1) \<Rightarrow> populate c userID tenantID res w1)"

text \<open>The lookup in the cache that \<open>fetchAndCache\<close> begins with, its warning included.\<close>

definition cache_lookup ::
    "('x, 'w) permissionClient \<Rightarrow> string \<Rightarrow> string \<Rightarrow> 'w \<Rightarrow> Permission slice \<times> 'w" where
  "cache_lookup c userID tenantID w =
     (case cache_Get (cache c) userID tenantID w of
        ((cached, Some err), w1) \<Rightarrow>
          (cached,
           log_Warn (client_logger c) ''cache.Get failed, falling through to Helios''
             [LError ''err'' (Some err), LString ''userId'' userID, LString ''tenantId'' tenantID] w1)
      | ((cached, None), w1) \<Rightarrow> (cached, w1))"

definition fetchAndCache ::
    "('x, 'w) net \<Rightarrow> ('x, 'w) permissionClient \<Rightarrow> 'x \<Rightarrow> string \<Rightarrow> string \<Rightarrow> 'w
       \<Rightarrow> (Permission slice \<times> go_error option) \<times> 'w" where
  "fetchAndCache net c ctx userID tenantID w =
     (case cache_lookup c userID tenantID w of
        (Some perms, w1) \<Rightarrow> ((Some perms, None), w1)
      | (None, w1) \<Rightarrow> fetchAndPopulate net c ctx userID tenantID w1)"

definition CallerHasPermission ::
    "('x, 'w) net \<Rightarrow> ('x, 'w) permissionClient \<Rightarrow> 'x \<Rightarrow> string \<Rightarrow> string \<Rightarrow> Permission \<Rightarrow> 'w
       \<Rightarrow> (bool \<times> go_error option) \<times> 'w" where
  "CallerHasPermission net c ctx userID tenantID perm w =
     (if IsUniversalPerm perm then ((True, None), w)
      else (case fetchAndCache net c ctx userID tenantID w of
              ((perms, Some err), w1) \<Rightarrow> ((False, Some err), w1)
            | ((perms, None), w1) \<Rightarrow>
                if range_contains (slice_elems perms) perm then ((True, None), w1)
                else ((False, None), w1)))"

text \<open>
  \<open>foldSelfPermissions\<close>: the two loops append each permission not seen before; \<open>seen\<close> holds
  exactly the members of \<open>merged\<close>.
\<close>

fun fold_unseen :: "Permission list \<Rightarrow> Permission set \<times> Permission list \<Rightarrow> Permission set \<times> Permission list" where
  "fold_unseen [] (seen, merged) = (seen, merged)"
| "fold_unseen (p # ps) (seen, merged) =
     (if p \<in> seen then fold_unseen ps (seen, merged)
      else fold_unseen ps (insert p seen, merged @ [p]))"

definition foldSelfPermissions :: "Permission slice \<Rightarrow> Permission slice" where
  "foldSelfPermissions rolePerms =
     (let st = fold_unseen SELF_PERMISSIONS ({}, []);
          (seen, merged) = fold_unseen (slice_elems rolePerms) st
      in Some merged)"

definition GetUserPermissions ::
    "('x, 'w) net \<Rightarrow> ('x, 'w) permissionClient \<Rightarrow> 'x \<Rightarrow> string \<Rightarrow> string \<Rightarrow> 'w
       \<Rightarrow> (Permission slice \<times> go_error option) \<times> 'w" where
  "GetUserPermissions net c ctx userID tenantID w =
     (case fetchAndCache net c ctx userID tenantID w of
        ((perms, Some err), w1) \<Rightarrow> ((None, Some err), w1)
      | ((perms, None), w1) \<Rightarrow> ((foldSelfPermissions perms, None), w1))"

record Explanation =
  Allowed :: bool
  ExReason :: string
  ExRole :: Role
  ExPermissions :: "Permission slice"

definition Explain ::
    "('x, 'w) net \<Rightarrow> ('x, 'w) permissionClient \<Rightarrow> 'x \<Rightarrow> string \<Rightarrow> string \<Rightarrow> Permission \<Rightarrow> 'w
       \<Rightarrow> (Explanation option \<times> go_error option) \<times> 'w" where
  "Explain net c ctx userID tenantID perm w =
     (if IsUniversalPerm perm then
        let fullPerms = foldSelfPermissions (Some [])
        in ((Some \<lparr>Allowed = True, ExReason = ''granted_by_role'', ExRole = '''',
                   ExPermissions = fullPerms\<rparr>, None), w)
      else (case fetchAndCache net c ctx userID tenantID w of
              ((perms, Some err), w1) \<Rightarrow> ((None, Some err), w1)
            | ((perms, None), w1) \<Rightarrow>
                let fullPerms = foldSelfPermissions perms in
                if range_contains (slice_elems perms) perm then
                  ((Some \<lparr>Allowed = True, ExReason = ''granted_by_role'', ExRole = '''',
                          ExPermissions = fullPerms\<rparr>, None), w1)
                else
                  ((Some \<lparr>Allowed = False, ExReason = ''not_in_role_perm_set'', ExRole = '''',
                          ExPermissions = fullPerms\<rparr>, None), w1)))"

definition client_Invalidate ::
    "('x, 'w) permissionClient \<Rightarrow> string \<Rightarrow> string \<Rightarrow> 'w \<Rightarrow> go_error option \<times> 'w" where
  "client_Invalidate c userID tenantID = cache_Invalidate (cache c) userID tenantID"

definition client_InvalidateTenant ::
    "('x, 'w) permissionClient \<Rightarrow> string \<Rightarrow> 'w \<Rightarrow> (go_error option \<times> 'w) option" where
  "client_InvalidateTenant c tenantID = cache_InvalidateTenant (cache c) tenantID"

definition client_WriteThrough ::
    "('x, 'w) permissionClient \<Rightarrow> string \<Rightarrow> string \<Rightarrow> Permission slice \<Rightarrow> 'w \<Rightarrow> go_error option \<times> 'w" where
  "client_WriteThrough c userID tenantID perms = cache_WriteThrough (cache c) userID tenantID perms"

declare NewClient_def [handler_defs] fetchAndPopulate_def [handler_defs]
  fetchAndCache_def [handler_defs] CallerHasPermission_def [handler_defs]
  GetUserPermissions_def [handler_defs] Explain_def [handler_defs]

section \<open>Folding\<close>

lemma fold_unseen_first_occurrences:
  "fold_unseen ps (set m, rev (remdups (rev m))) = (set (m @ ps), rev (remdups (rev (m @ ps))))"
proof (induction ps arbitrary: m)
  case Nil
  then show ?case by simp
next
  case (Cons p ps)
  from Cons [of "m @ [p]"] show ?case by (auto simp: insert_absorb)
qed

lemma foldSelf_value:
  "foldSelfPermissions perms = Some (rev (remdups (rev (SELF_PERMISSIONS @ slice_elems perms))))"
  using fold_unseen_first_occurrences [of SELF_PERMISSIONS "[]"]
    fold_unseen_first_occurrences [of "slice_elems perms" SELF_PERMISSIONS]
  by (simp add: foldSelfPermissions_def)

lemma foldSelf_set [simp]:
  "set (slice_elems (foldSelfPermissions perms)) = set SELF_PERMISSIONS \<union> set (slice_elems perms)"
  by (auto simp: foldSelf_value)

lemma self_is_universal: "p \<in> set SELF_PERMISSIONS \<Longrightarrow> IsUniversalPerm p"
  by (simp add: IsUniversalPerm_iff)

section \<open>What a read does, whatever the cache\<close>

text \<open>The permissions that a fetch without an error gives its caller.\<close>

definition answer_perms :: "MembershipResolution option \<Rightarrow> Permission list" where
  "answer_perms res =
     (case res of
        Some r \<Rightarrow> if Status r = ''active'' then slice_elems (Permissions r) else []
      | None \<Rightarrow> [])"

lemma populate_result: "fst (populate c u t res w) = (Some (answer_perms res), None)"
  by (auto simp: populate_def answer_perms_def slice_elems_def Let_def split: option.split prod.split)

lemma fetchAndPopulate_result:
  "fst (fetchAndPopulate net c ctx u t w) =
     (case fst (FetchUserPermissions net (helios c) ctx u t w) of
        (res, Some err) \<Rightarrow> (None, Some err)
      | (res, None) \<Rightarrow> (Some (answer_perms res), None))"
  by (simp add: fetchAndPopulate_def populate_result split: prod.split option.split)

lemma fetchAndPopulate_never_nil:
  "fst (fetchAndPopulate net c ctx u t w) = (perms, None) \<Longrightarrow> perms \<noteq> None"
  by (auto simp: fetchAndPopulate_result split: prod.splits option.splits)

lemma fetchAndCache_hit:
  "cache_lookup c u t w = (Some ps, w1) \<Longrightarrow> fetchAndCache net c ctx u t w = ((Some ps, None), w1)"
  by (simp add: fetchAndCache_def)

lemma fetchAndCache_miss:
  "cache_lookup c u t w = (None, w1) \<Longrightarrow> fetchAndCache net c ctx u t w = fetchAndPopulate net c ctx u t w1"
  by (simp add: fetchAndCache_def)

lemma fetchAndCache_shape:
  "(\<exists>ps. fst (fetchAndCache net c ctx u t w) = (Some ps, None)) \<or>
   (\<exists>e. fst (fetchAndCache net c ctx u t w) = (None, Some e))"
  by (auto simp: fetchAndCache_def fetchAndPopulate_result split: prod.split option.split)

text \<open>The three readers in terms of \<open>fetchAndCache\<close>.\<close>

lemma readers_on_result:
  assumes "fetchAndCache net c ctx u t w = ((Some ps, None), w1)"
  shows "\<not> IsUniversalPerm p \<Longrightarrow> CallerHasPermission net c ctx u t p w = ((p \<in> set ps, None), w1)"
    and "GetUserPermissions net c ctx u t w = ((foldSelfPermissions (Some ps), None), w1)"
    and "\<not> IsUniversalPerm p \<Longrightarrow> Explain net c ctx u t p w =
      ((Some \<lparr>Allowed = p \<in> set ps,
          ExReason = if p \<in> set ps then ''granted_by_role'' else ''not_in_role_perm_set'',
          ExRole = '''', ExPermissions = foldSelfPermissions (Some ps)\<rparr>, None), w1)"
  using assms by (simp_all add: CallerHasPermission_def GetUserPermissions_def Explain_def Let_def)

lemma readers_on_error:
  assumes "fetchAndCache net c ctx u t w = ((None, Some e), w1)"
  shows "\<not> IsUniversalPerm p \<Longrightarrow> CallerHasPermission net c ctx u t p w = ((False, Some e), w1)"
    and "GetUserPermissions net c ctx u t w = ((None, Some e), w1)"
    and "\<not> IsUniversalPerm p \<Longrightarrow> Explain net c ctx u t p w = ((None, Some e), w1)"
  using assms by (simp_all add: CallerHasPermission_def GetUserPermissions_def Explain_def)

lemma readers_universal:
  assumes "IsUniversalPerm p"
  shows "CallerHasPermission net c ctx u t p w = ((True, None), w)"
    and "Explain net c ctx u t p w =
      ((Some \<lparr>Allowed = True, ExReason = ''granted_by_role'', ExRole = '''',
          ExPermissions = foldSelfPermissions (Some [])\<rparr>, None), w)"
  using assms by (simp_all add: CallerHasPermission_def Explain_def Let_def)

text \<open>
  The result of a fetch as its callers see it (an error, or the permissions of the answer), and
  what the three readers give when a result is what \<open>fetchAndCache\<close> returned: their answers and
  the world they leave.
\<close>

definition fetch_outcome ::
    "MembershipResolution option \<times> go_error option \<Rightarrow> Permission slice \<times> go_error option" where
  "fetch_outcome answer =
     (case answer of
        (_, Some e) \<Rightarrow> (None, Some e)
      | (res, None) \<Rightarrow> (Some (answer_perms res), None))"

definition readers_give ::
    "('x, 'w) net \<Rightarrow> ('x, 'w) permissionClient \<Rightarrow> 'x \<Rightarrow> string \<Rightarrow> string \<Rightarrow> Permission \<Rightarrow> 'w
       \<Rightarrow> Permission slice \<times> go_error option \<Rightarrow> 'w \<Rightarrow> bool" where
  "readers_give net c ctx u t p w out w' \<longleftrightarrow>
     (case out of
        (_, Some e) \<Rightarrow>
          CallerHasPermission net c ctx u t p w = ((False, Some e), w')
          \<and> GetUserPermissions net c ctx u t w = ((None, Some e), w')
          \<and> Explain net c ctx u t p w = ((None, Some e), w')
      | (perms, None) \<Rightarrow>
          CallerHasPermission net c ctx u t p w = ((p \<in> set (slice_elems perms), None), w')
          \<and> GetUserPermissions net c ctx u t w = ((foldSelfPermissions perms, None), w')
          \<and> Explain net c ctx u t p w =
              ((Some \<lparr>Allowed = p \<in> set (slice_elems perms),
                  ExReason = if p \<in> set (slice_elems perms) then ''granted_by_role''
                    else ''not_in_role_perm_set'',
                  ExRole = '''', ExPermissions = foldSelfPermissions perms\<rparr>, None), w'))"

lemma readers_giveI:
  assumes "fetchAndCache net c ctx u t w = (out, w')" and "\<not> IsUniversalPerm p"
  shows "readers_give net c ctx u t p w out w'"
  using assms
  by (simp add: readers_give_def CallerHasPermission_def GetUserPermissions_def Explain_def Let_def
      split: prod.split option.split)

lemma fetchAndPopulate_outcome:
  "fst (fetchAndPopulate net c ctx u t w) =
     fetch_outcome (fst (FetchUserPermissions net (helios c) ctx u t w))"
  by (simp add: fetchAndPopulate_result fetch_outcome_def)

section \<open>A client on a cache that keeps its contract\<close>

text \<open>
  The client's fetch and logger leave the cache's entries alone and do not stop it from
  answering.
\<close>

locale client_on_cache = permission_cache ops key raw dec enc storable avail
  for ops :: "'w PermissionCache"
    and key :: "string \<Rightarrow> string \<Rightarrow> string"
    and raw :: "'w \<Rightarrow> string \<Rightarrow> 'v option"
    and dec :: "'v \<Rightarrow> Permission slice"
    and enc :: "Permission slice \<Rightarrow> 'v"
    and storable :: "Permission list \<Rightarrow> bool"
    and avail :: "'w \<Rightarrow> bool" +
  fixes net :: "('x, 'w) net"
    and c :: "('x, 'w) permissionClient"
  assumes client_cache: "cache c = ops"
    and fetch_frame:
      "avail w \<Longrightarrow> raw (snd (FetchUserPermissions net (helios c) ctx u t w)) = raw w"
      "avail w \<Longrightarrow> avail (snd (FetchUserPermissions net (helios c) ctx u t w))"
begin

text \<open>On an answering cache the client logs nothing.\<close>

lemma lookup_avail:
  assumes "avail w"
  shows "cache_lookup c u t w = (view w u t, snd (cache_Get ops u t w))"
proof -
  obtain w1 where "cache_Get ops u t w = ((view w u t, None), w1)"
    using get_view [OF assms, of u t] by (cases "cache_Get ops u t w") simp
  then show ?thesis by (simp add: cache_lookup_def client_cache)
qed

lemma populate_avail:
  assumes "avail w"
  shows "populate c u t res w =
    ((Some (answer_perms res), None), snd (cache_Set ops u t (Some (answer_perms res)) w))"
proof -
  have "fst (cache_Set ops u t ps w) = None" for ps by (rule set_result [OF assms])
  then show ?thesis
    by (auto simp: populate_def answer_perms_def slice_elems_def client_cache Let_def case_prod_unfold
        split: option.split)
qed

lemma hit_spec:
  "avail w \<Longrightarrow> view w u t = Some ps \<Longrightarrow>
     fetchAndCache net c ctx u t w = ((Some ps, None), snd (cache_Get ops u t w))"
  by (simp add: fetchAndCache_hit lookup_avail)

lemma miss_spec:
  "avail w \<Longrightarrow> view w u t = None \<Longrightarrow>
     fetchAndCache net c ctx u t w = fetchAndPopulate net c ctx u t (snd (cache_Get ops u t w))"
  by (simp add: fetchAndCache_miss lookup_avail)

text \<open>A miss on an absent entry: the fetch's answer is returned and stored, its error is returned.\<close>

lemma miss_fetched:
  assumes "avail w" and "raw w (key u t) = None"
    and "FetchUserPermissions net (helios c) ctx u t (snd (cache_Get ops u t w)) = ((res, None), w1)"
    and "w' = snd (cache_Set ops u t (Some (answer_perms res)) w1)"
  shows "fetchAndCache net c ctx u t w = ((Some (answer_perms res), None), w') \<and> avail w'
    \<and> raw w' = (raw w)(key u t \<mapsto> enc (Some (answer_perms res)))"
proof -
  have g: "avail (snd (cache_Get ops u t w))" "raw (snd (cache_Get ops u t w)) = raw w"
    using assms(1) get_avail get_effect by simp_all
  have w1: "avail w1" "raw w1 = raw w"
    using fetch_frame [OF g(1), of ctx u t] assms(3) g(2) by simp_all
  have "view w u t = None" using assms(2) by (simp add: view_def)
  from miss_spec [OF assms(1) this] assms(3,4) show ?thesis
    using w1 assms(2)
    by (simp add: fetchAndPopulate_def populate_avail set_effect set_avail)
qed

lemma miss_error:
  assumes "avail w" and "view w u t = None"
    and "FetchUserPermissions net (helios c) ctx u t (snd (cache_Get ops u t w)) = ((res, Some e), w1)"
  shows "fetchAndCache net c ctx u t w = ((None, Some e), w1) \<and> avail w1 \<and> raw w1 = raw w"
proof -
  have g: "avail (snd (cache_Get ops u t w))" "raw (snd (cache_Get ops u t w)) = raw w"
    using assms(1) get_avail get_effect by simp_all
  show ?thesis
    using miss_spec [OF assms(1,2)] assms(3) fetch_frame [OF g(1), of ctx u t] g(2)
    by (simp add: fetchAndPopulate_def)
qed

end

section \<open>A client on a cache that also drops tenants\<close>

locale client_on_tenant_cache =
  client_on_cache ops key raw dec enc storable avail net c
  + tenant_cache ops key raw dec enc storable avail id_ok in_tenant
  for ops :: "'w PermissionCache"
    and key :: "string \<Rightarrow> string \<Rightarrow> string"
    and raw :: "'w \<Rightarrow> string \<Rightarrow> 'v option"
    and dec :: "'v \<Rightarrow> Permission slice"
    and enc :: "Permission slice \<Rightarrow> 'v"
    and storable :: "Permission list \<Rightarrow> bool"
    and avail :: "'w \<Rightarrow> bool"
    and net :: "('x, 'w) net"
    and c :: "('x, 'w) permissionClient"
    and id_ok :: "string \<Rightarrow> bool"
    and in_tenant :: "string \<Rightarrow> string \<Rightarrow> bool"
begin

lemma read_after_tenant:
  assumes "avail w" and "id_ok t" "id_ok t'"
  shows "\<exists>w'. client_InvalidateTenant c t w = Some (None, w') \<and> avail w' \<and>
    (if t' = t then raw w' (key u t') = None else view w' u t' = view w u t')"
proof -
  from tenant_effect [OF assms(1,2)] obtain w' where
    "cache_InvalidateTenant ops t w = Some (None, w')" "avail w'"
    "raw w' = (\<lambda>k. if in_tenant t k then None else raw w k)" by blast
  then show ?thesis
    using in_tenant_key [OF assms(2,3)] by (auto simp: client_InvalidateTenant_def client_cache view_def)
qed

end

end
