(* ===== verification/In_Flight.thy ===== *)
theory In_Flight
  imports Permission_Client
begin

text \<open>
  Overlapping calls of the client: the cache lookup of \<open>fetchAndCache\<close>, the coalescing of
  \<open>inFlight.getOrStart\<close> and the goroutine it starts, of
  \<open>helios_permissions/permission_client.go\<close>. Callers and goroutines are processes over one
  state; a step runs a process up to its next point of interaction: a cache or Helios call, a
  section under the mutex, the assignment to the entry, the closing of its channel, a receive
  from it. The calls are given from the start; one that has not moved has not been made yet.
\<close>

section \<open>State\<close>

text \<open>An entry of the map: whether its channel is closed, and the result fields.\<close>

record inFlightEntry =
  entry_done :: bool
  entry_res :: "Permission slice"
  entry_err :: "go_error option"

record 'x api_call =
  call_ctx :: 'x
  call_user :: string
  call_tenant :: string

text \<open>
  A caller: before the lookup; missed, before \<open>getOrStart\<close>; waiting for an entry's channel;
  returned (with the entry its result came from, none for a cache hit).
\<close>

datatype caller_pc =
    CStart | CMissed | CWaiting nat
  | CDone "nat option" "Permission slice" "go_error option"

record 'x caller =
  c_call :: "'x api_call"
  c_pc :: caller_pc

text \<open>
  The goroutine of an entry: fetching; storing what was fetched; assigning the result; closing
  the channel; deleting the key; finished.
\<close>

datatype routine_pc =
    RFetch | RStore "MembershipResolution option" | RAssign "Permission slice" "go_error option"
  | RClose | RDelete | RFinished

record 'x routine =
  r_call :: "'x api_call"
  r_pc :: routine_pc

text \<open>The \<open>n\<close>-th goroutine was started with the \<open>n\<close>-th entry.\<close>

record ('x, 'w) sdk_state =
  world :: 'w
  waiter :: "string \<Rightarrow> nat option"
  entries :: "inFlightEntry list"
  routines :: "'x routine list"
  callers :: "'x caller list"

definition flight_key :: "'x api_call \<Rightarrow> string" where
  "flight_key call = call_user call @ '':'' @ call_tenant call"

definition newInFlight :: "string \<Rightarrow> nat option" where
  "newInFlight = (\<lambda>_. None)"

definition new_entry :: inFlightEntry where
  "new_entry = \<lparr>entry_done = False, entry_res = None, entry_err = None\<rparr>"

definition idle :: "'w \<Rightarrow> 'x api_call list \<Rightarrow> ('x, 'w) sdk_state" where
  "idle w calls = \<lparr>world = w, waiter = newInFlight, entries = [], routines = [],
     callers = map (\<lambda>call. \<lparr>c_call = call, c_pc = CStart\<rparr>) calls\<rparr>"

section \<open>Steps\<close>

definition set_caller :: "nat \<Rightarrow> caller_pc \<Rightarrow> ('x, 'w) sdk_state \<Rightarrow> ('x, 'w) sdk_state" where
  "set_caller i pc s = s\<lparr>callers := (callers s)[i := (callers s ! i)\<lparr>c_pc := pc\<rparr>]\<rparr>"

definition set_routine :: "nat \<Rightarrow> routine_pc \<Rightarrow> ('x, 'w) sdk_state \<Rightarrow> ('x, 'w) sdk_state" where
  "set_routine r pc s = s\<lparr>routines := (routines s)[r := (routines s ! r)\<lparr>r_pc := pc\<rparr>]\<rparr>"

text \<open>The section of \<open>getOrStart\<close> under the mutex: join the entry of the key, or start one.\<close>

definition getOrStart :: "nat \<Rightarrow> 'x api_call \<Rightarrow> ('x, 'w) sdk_state \<Rightarrow> ('x, 'w) sdk_state" where
  "getOrStart i call s =
     (case waiter s (flight_key call) of
        Some e \<Rightarrow> set_caller i (CWaiting e) s
      | None \<Rightarrow>
          let e = length (entries s) in
          set_caller i (CWaiting e)
            (s\<lparr>waiter := (waiter s)(flight_key call \<mapsto> e),
               entries := entries s @ [new_entry],
               routines := routines s @ [\<lparr>r_call = call, r_pc = RFetch\<rparr>]\<rparr>))"

definition caller_step ::
    "('x, 'w) permissionClient \<Rightarrow> nat \<Rightarrow> ('x, 'w) sdk_state \<Rightarrow> ('x, 'w) sdk_state option" where
  "caller_step c i s =
     (if length (callers s) \<le> i then None
      else
        let call = c_call (callers s ! i) in
        (case c_pc (callers s ! i) of
           CStart \<Rightarrow>
             (case cache_lookup c (call_user call) (call_tenant call) (world s) of
                (Some perms, w1) \<Rightarrow> Some (set_caller i (CDone None (Some perms) None) (s\<lparr>world := w1\<rparr>))
              | (None, w1) \<Rightarrow> Some (set_caller i CMissed (s\<lparr>world := w1\<rparr>)))
         | CMissed \<Rightarrow> Some (getOrStart i call s)
         | CWaiting e \<Rightarrow>
             if entry_done (entries s ! e)
             then Some (set_caller i (CDone (Some e) (entry_res (entries s ! e)) (entry_err (entries s ! e))) s)
             else None
         | CDone _ _ _ \<Rightarrow> None))"

definition routine_step ::
    "('x, 'w) net \<Rightarrow> ('x, 'w) permissionClient \<Rightarrow> nat \<Rightarrow> ('x, 'w) sdk_state \<Rightarrow> ('x, 'w) sdk_state option" where
  "routine_step net c r s =
     (if length (routines s) \<le> r then None
      else
        let call = r_call (routines s ! r); u = call_user call; t = call_tenant call in
        (case r_pc (routines s ! r) of
           RFetch \<Rightarrow>
             (case FetchUserPermissions net (helios c) (call_ctx call) u t (world s) of
                ((res, Some err), w1) \<Rightarrow> Some (set_routine r (RAssign None (Some err)) (s\<lparr>world := w1\<rparr>))
              | ((res, None), w1) \<Rightarrow> Some (set_routine r (RStore res) (s\<lparr>world := w1\<rparr>)))
         | RStore res \<Rightarrow>
             (case populate c u t res (world s) of
                ((perms, err), w1) \<Rightarrow> Some (set_routine r (RAssign perms err) (s\<lparr>world := w1\<rparr>)))
         | RAssign perms err \<Rightarrow>
             Some (set_routine r RClose
               (s\<lparr>entries := (entries s)[r := (entries s ! r)\<lparr>entry_res := perms, entry_err := err\<rparr>]\<rparr>))
         | RClose \<Rightarrow>
             Some (set_routine r RDelete
               (s\<lparr>entries := (entries s)[r := (entries s ! r)\<lparr>entry_done := True\<rparr>]\<rparr>))
         | RDelete \<Rightarrow>
             Some (set_routine r RFinished (s\<lparr>waiter := (waiter s)(flight_key call := None)\<rparr>))
         | RFinished \<Rightarrow> None))"

text \<open>
  A step of the program, and a step of the whole system, in which other writers (Helios, other
  processes, expiry) may change the world in any way between two steps of the program.
\<close>

inductive prog_step ::
    "('x, 'w) net \<Rightarrow> ('x, 'w) permissionClient \<Rightarrow> ('x, 'w) sdk_state \<Rightarrow> ('x, 'w) sdk_state \<Rightarrow> bool"
  for net c where
  by_caller: "caller_step c i s = Some s' \<Longrightarrow> prog_step net c s s'"
| by_routine: "routine_step net c r s = Some s' \<Longrightarrow> prog_step net c s s'"

inductive sys_step ::
    "('x, 'w) net \<Rightarrow> ('x, 'w) permissionClient \<Rightarrow> ('x, 'w) sdk_state \<Rightarrow> ('x, 'w) sdk_state \<Rightarrow> bool"
  for net c where
  program: "prog_step net c s s' \<Longrightarrow> sys_step net c s s'"
| environment: "sys_step net c s (s\<lparr>world := w\<rparr>)"

inductive reachable ::
    "('x, 'w) net \<Rightarrow> ('x, 'w) permissionClient \<Rightarrow> 'x api_call list \<Rightarrow> ('x, 'w) sdk_state \<Rightarrow> bool"
  for net c calls where
  start: "reachable net c calls (idle w calls)"
| step: "reachable net c calls s \<Longrightarrow> sys_step net c s s' \<Longrightarrow> reachable net c calls s'"

inductive_cases prog_stepE: "prog_step net c s s'"
inductive_cases sys_stepE: "sys_step net c s s'"

text \<open>A schedule, for concrete runs: which caller or goroutine moves.\<close>

datatype mover = Caller nat | Goroutine nat

fun run_schedule ::
    "('x, 'w) net \<Rightarrow> ('x, 'w) permissionClient \<Rightarrow> mover list \<Rightarrow> ('x, 'w) sdk_state \<Rightarrow> ('x, 'w) sdk_state option" where
  "run_schedule net c [] s = Some s"
| "run_schedule net c (Caller i # ms) s = Option.bind (caller_step c i s) (run_schedule net c ms)"
| "run_schedule net c (Goroutine r # ms) s = Option.bind (routine_step net c r s) (run_schedule net c ms)"

lemma run_schedule_prog: "run_schedule net c ms s = Some s' \<Longrightarrow> (prog_step net c)\<^sup>*\<^sup>* s s'"
proof (induction net c ms s rule: run_schedule.induct)
  case (1 net c s)
  then show ?case by simp
next
  case (2 net c i ms s)
  from "2.prems" obtain s1 where s1: "caller_step c i s = Some s1" "run_schedule net c ms s1 = Some s'"
    by (auto simp: bind_eq_Some_conv)
  show ?case
    by (rule converse_rtranclp_into_rtranclp [OF by_caller [OF s1(1)] "2.IH" [OF s1]])
next
  case (3 net c r ms s)
  from "3.prems" obtain s1 where s1: "routine_step net c r s = Some s1" "run_schedule net c ms s1 = Some s'"
    by (auto simp: bind_eq_Some_conv)
  show ?case
    by (rule converse_rtranclp_into_rtranclp [OF by_routine [OF s1(1)] "3.IH" [OF s1]])
qed

lemma reachable_prog:
  "(prog_step net c)\<^sup>*\<^sup>* s s' \<Longrightarrow> reachable net c calls s \<Longrightarrow> reachable net c calls s'"
  by (induction rule: rtranclp_induct) (auto intro: reachable.step sys_step.program)

declare getOrStart_def [handler_defs] caller_step_def [handler_defs] routine_step_def [handler_defs]
  set_caller_def [handler_defs] set_routine_def [handler_defs]

section \<open>What a step does\<close>

lemma set_caller_simps [simp]:
  "world (set_caller i pc s) = world s" "waiter (set_caller i pc s) = waiter s"
  "entries (set_caller i pc s) = entries s" "routines (set_caller i pc s) = routines s"
  "length (callers (set_caller i pc s)) = length (callers s)"
  "j < length (callers s) \<Longrightarrow> c_call (callers (set_caller i pc s) ! j) = c_call (callers s ! j)"
  "j < length (callers s) \<Longrightarrow> c_pc (callers (set_caller i pc s) ! j) =
     (if j = i then pc else c_pc (callers s ! j))"
  by (cases "i = j"; simp add: set_caller_def)+

lemma set_routine_simps [simp]:
  "world (set_routine r pc s) = world s" "waiter (set_routine r pc s) = waiter s"
  "entries (set_routine r pc s) = entries s" "callers (set_routine r pc s) = callers s"
  "length (routines (set_routine r pc s)) = length (routines s)"
  "q < length (routines s) \<Longrightarrow> r_call (routines (set_routine r pc s) ! q) = r_call (routines s ! q)"
  "q < length (routines s) \<Longrightarrow> r_pc (routines (set_routine r pc s) ! q) =
     (if q = r then pc else r_pc (routines s ! q))"
  by (cases "r = q"; simp add: set_routine_def)+

text \<open>The steps of a caller, one case for each.\<close>

lemma caller_step_cases:
  assumes "caller_step c i s = Some s'"
  obtains (hit) ps w1 where "i < length (callers s)" "c_pc (callers s ! i) = CStart"
      "s' = set_caller i (CDone None (Some ps) None) (s\<lparr>world := w1\<rparr>)"
  | (miss) w1 where "i < length (callers s)" "c_pc (callers s ! i) = CStart"
      "s' = set_caller i CMissed (s\<lparr>world := w1\<rparr>)"
  | (join) e where "i < length (callers s)" "c_pc (callers s ! i) = CMissed"
      "waiter s (flight_key (c_call (callers s ! i))) = Some e" "s' = set_caller i (CWaiting e) s"
  | (lead) "i < length (callers s)" "c_pc (callers s ! i) = CMissed"
      "waiter s (flight_key (c_call (callers s ! i))) = None"
      "s' = set_caller i (CWaiting (length (entries s)))
        (s\<lparr>waiter := (waiter s)(flight_key (c_call (callers s ! i)) \<mapsto> length (entries s)),
           entries := entries s @ [new_entry],
           routines := routines s @ [\<lparr>r_call = c_call (callers s ! i), r_pc = RFetch\<rparr>]\<rparr>)"
  | (resume) e where "i < length (callers s)" "c_pc (callers s ! i) = CWaiting e"
      "entry_done (entries s ! e)"
      "s' = set_caller i (CDone (Some e) (entry_res (entries s ! e)) (entry_err (entries s ! e))) s"
proof (cases "i < length (callers s)")
  case False
  then show ?thesis using assms by (simp add: caller_step_def)
next
  case True
  show ?thesis
  proof (cases "c_pc (callers s ! i)")
    case CStart
    obtain cached w1 where l: "cache_lookup c (call_user (c_call (callers s ! i)))
        (call_tenant (c_call (callers s ! i))) (world s) = (cached, w1)" by fastforce
    show ?thesis
    proof (cases cached)
      case None
      with assms True CStart l show ?thesis
        by (intro miss [of w1]) (simp_all add: caller_step_def Let_def)
    next
      case (Some ps)
      with assms True CStart l show ?thesis
        by (intro hit [of ps w1]) (simp_all add: caller_step_def Let_def)
    qed
  next
    case CMissed
    show ?thesis
    proof (cases "waiter s (flight_key (c_call (callers s ! i)))")
      case None
      with assms True CMissed show ?thesis
        by (intro lead) (simp_all add: caller_step_def getOrStart_def Let_def)
    next
      case (Some e)
      with assms True CMissed show ?thesis
        by (intro join [of e]) (simp_all add: caller_step_def getOrStart_def Let_def)
    qed
  next
    case (CWaiting e)
    with assms True show ?thesis
      by (intro resume [of e]) (simp_all add: caller_step_def Let_def split: if_splits)
  next
    case CDone
    with assms True show ?thesis by (simp add: caller_step_def Let_def)
  qed
qed

lemma routine_step_cases:
  assumes "routine_step net c r s = Some s'"
  obtains (fetch_failed) err w1 where "r < length (routines s)" "r_pc (routines s ! r) = RFetch"
      "s' = set_routine r (RAssign None (Some err)) (s\<lparr>world := w1\<rparr>)"
  | (fetched) res w1 where "r < length (routines s)" "r_pc (routines s ! r) = RFetch"
      "s' = set_routine r (RStore res) (s\<lparr>world := w1\<rparr>)"
  | (stored) res w1 where "r < length (routines s)" "r_pc (routines s ! r) = RStore res"
      "s' = set_routine r (RAssign (Some (answer_perms res)) None) (s\<lparr>world := w1\<rparr>)"
  | (assigned) perms err where "r < length (routines s)" "r_pc (routines s ! r) = RAssign perms err"
      "s' = set_routine r RClose
        (s\<lparr>entries := (entries s)[r := (entries s ! r)\<lparr>entry_res := perms, entry_err := err\<rparr>]\<rparr>)"
  | (closed) "r < length (routines s)" "r_pc (routines s ! r) = RClose"
      "s' = set_routine r RDelete
        (s\<lparr>entries := (entries s)[r := (entries s ! r)\<lparr>entry_done := True\<rparr>]\<rparr>)"
  | (deleted) "r < length (routines s)" "r_pc (routines s ! r) = RDelete"
      "s' = set_routine r RFinished
        (s\<lparr>waiter := (waiter s)(flight_key (r_call (routines s ! r)) := None)\<rparr>)"
proof (cases "r < length (routines s)")
  case False
  then show ?thesis using assms by (simp add: routine_step_def)
next
  case True
  show ?thesis
  proof (cases "r_pc (routines s ! r)")
    case RFetch
    then show ?thesis using assms True that(1,2)
      by (auto simp: routine_step_def Let_def split: option.splits prod.splits)
  next
    case (RStore res)
    obtain pe w1 where p: "populate c (call_user (r_call (routines s ! r)))
        (call_tenant (r_call (routines s ! r))) res (world s) = (pe, w1)" by fastforce
    then have "pe = (Some (answer_perms res), None)" by (metis fst_conv populate_result)
    with assms True RStore p show ?thesis
      by (intro that(3) [of res w1]) (simp_all add: routine_step_def Let_def)
  next
    case (RAssign perms err)
    then show ?thesis using assms True that(4) by (simp add: routine_step_def Let_def)
  next
    case RClose
    then show ?thesis using assms True that(5) by (simp add: routine_step_def Let_def)
  next
    case RDelete
    then show ?thesis using assms True that(6) by (simp add: routine_step_def Let_def)
  next
    case RFinished
    then show ?thesis using assms True by (simp add: routine_step_def Let_def)
  qed
qed

section \<open>The invariant\<close>

text \<open>
  A key is in the map exactly while the goroutine of its entry has not finished, and an entry's
  channel is closed exactly after its goroutine's close.
\<close>

definition flights_ok :: "('x, 'w) sdk_state \<Rightarrow> bool" where
  "flights_ok s \<longleftrightarrow> length (routines s) = length (entries s) \<and>
     (\<forall>k e. waiter s k = Some e \<longleftrightarrow> e < length (routines s) \<and>
        flight_key (r_call (routines s ! e)) = k \<and> r_pc (routines s ! e) \<noteq> RFinished) \<and>
     (\<forall>e < length (entries s). entry_done (entries s ! e) \<longleftrightarrow>
        r_pc (routines s ! e) = RDelete \<or> r_pc (routines s ! e) = RFinished)"

text \<open>A caller waits for, or got its result from, an entry of its own key.\<close>

definition caller_ok :: "('x, 'w) sdk_state \<Rightarrow> 'x caller \<Rightarrow> bool" where
  "caller_ok s ca \<longleftrightarrow>
     (case c_pc ca of
        CWaiting e \<Rightarrow> e < length (entries s) \<and>
          flight_key (r_call (routines s ! e)) = flight_key (c_call ca)
      | CDone (Some e) perms err \<Rightarrow> e < length (entries s) \<and>
          flight_key (r_call (routines s ! e)) = flight_key (c_call ca) \<and>
          entry_done (entries s ! e) \<and> perms = entry_res (entries s ! e) \<and> err = entry_err (entries s ! e)
      | CDone None perms err \<Rightarrow> perms \<noteq> None \<and> err = None
      | _ \<Rightarrow> True)"

definition callers_ok :: "('x, 'w) sdk_state \<Rightarrow> bool" where
  "callers_ok s \<longleftrightarrow> (\<forall>i < length (callers s). caller_ok s (callers s ! i))"

lemma flights_ok_caller:
  assumes "caller_step c i s = Some s'" and "flights_ok s"
  shows "flights_ok s'"
  using assms(1)
proof (cases rule: caller_step_cases)
  case lead
  let ?k = "flight_key (c_call (callers s ! i))"
  have len: "length (routines s) = length (entries s)" using assms(2) by (simp add: flights_ok_def)
  have w: "waiter s k = Some e \<longleftrightarrow> e < length (entries s) \<and> flight_key (r_call (routines s ! e)) = k
      \<and> r_pc (routines s ! e) \<noteq> RFinished" for k e
    using assms(2) by (simp add: flights_ok_def)
  have d: "entry_done (entries s ! e) \<longleftrightarrow> r_pc (routines s ! e) = RDelete \<or> r_pc (routines s ! e) = RFinished"
    if "e < length (entries s)" for e using assms(2) that by (simp add: flights_ok_def)
  have "((waiter s)(?k \<mapsto> length (entries s))) k = Some e \<longleftrightarrow>
      e < Suc (length (entries s)) \<and> flight_key (r_call ((routines s @ [\<lparr>r_call = c_call (callers s ! i), r_pc = RFetch\<rparr>]) ! e)) = k
      \<and> r_pc ((routines s @ [\<lparr>r_call = c_call (callers s ! i), r_pc = RFetch\<rparr>]) ! e) \<noteq> RFinished" for k e
    using w [of k e] w [of ?k e] lead(3) len by (auto simp: nth_append less_Suc_eq)
  then show ?thesis
    using len d by (auto simp: lead(4) flights_ok_def nth_append new_entry_def less_Suc_eq)
qed (use assms(2) in \<open>simp_all add: flights_ok_def\<close>)

lemma flights_ok_update:
  assumes "flights_ok s" and "waiter s' = waiter s"
    and "length (routines s') = length (routines s)" and "length (entries s') = length (entries s)"
    and "\<And>q. q < length (entries s) \<Longrightarrow> r_call (routines s' ! q) = r_call (routines s ! q)"
    and "\<And>q. q < length (entries s) \<Longrightarrow>
      r_pc (routines s' ! q) = RFinished \<longleftrightarrow> r_pc (routines s ! q) = RFinished"
    and "\<And>q. q < length (entries s) \<Longrightarrow> entry_done (entries s' ! q) \<longleftrightarrow>
      r_pc (routines s' ! q) = RDelete \<or> r_pc (routines s' ! q) = RFinished"
  shows "flights_ok s'"
  using assms by (auto simp: flights_ok_def)

lemma flights_ok_routine:
  assumes "routine_step net c r s = Some s'" and "flights_ok s"
  shows "flights_ok s'"
proof -
  have len: "length (routines s) = length (entries s)" using assms(2) by (simp add: flights_ok_def)
  have w: "waiter s k = Some e \<longleftrightarrow> e < length (entries s) \<and> flight_key (r_call (routines s ! e)) = k
      \<and> r_pc (routines s ! e) \<noteq> RFinished" for k e
    using assms(2) by (simp add: flights_ok_def)
  have d: "entry_done (entries s ! e) \<longleftrightarrow> r_pc (routines s ! e) = RDelete \<or> r_pc (routines s ! e) = RFinished"
    if "e < length (entries s)" for e using assms(2) that by (simp add: flights_ok_def)
  from assms(1) show ?thesis
  proof (cases rule: routine_step_cases)
    case deleted
    let ?k = "flight_key (r_call (routines s ! r))"
    have "waiter s ?k = Some r" using w [of ?k r] deleted(1,2) len by simp
    then have uniq: "e = r" if "e < length (entries s)" "r_pc (routines s ! e) \<noteq> RFinished"
      "flight_key (r_call (routines s ! e)) = ?k" for e
      using w [of ?k e] that by simp
    have s': "waiter s' = (waiter s)(?k := None)" "entries s' = entries s"
      "length (routines s') = length (entries s)"
      "\<And>q. q < length (entries s) \<Longrightarrow> r_call (routines s' ! q) = r_call (routines s ! q)"
      "\<And>q. q < length (entries s) \<Longrightarrow>
         r_pc (routines s' ! q) = (if q = r then RFinished else r_pc (routines s ! q))"
      using len by (simp_all add: deleted(3) cong: if_cong)
    have "waiter s' k = Some e \<longleftrightarrow> e < length (entries s) \<and> flight_key (r_call (routines s' ! e)) = k
        \<and> r_pc (routines s' ! e) \<noteq> RFinished" for k e
      using w [of k e] uniq [of e] s' by (cases "e < length (entries s)") auto
    then show ?thesis
      using d deleted(1,2) s' by (simp add: flights_ok_def)
  qed (rule flights_ok_update [OF assms(2)]; use d len in \<open>auto simp: nth_list_update cong: if_cong\<close>)+
qed

text \<open>Entries and goroutines are only added; a closed entry never changes.\<close>

definition flights_extend :: "('x, 'w) sdk_state \<Rightarrow> ('x, 'w) sdk_state \<Rightarrow> bool" where
  "flights_extend s s' \<longleftrightarrow> length (entries s) \<le> length (entries s') \<and>
     (\<forall>e < length (entries s). r_call (routines s' ! e) = r_call (routines s ! e) \<and>
        (entry_done (entries s ! e) \<longrightarrow> entries s' ! e = entries s ! e))"

lemma extend_caller:
  assumes "caller_step c i s = Some s'" and "flights_ok s"
  shows "flights_extend s s'"
  using assms(1)
  by (cases rule: caller_step_cases)
    (use assms(2) in \<open>simp_all add: flights_extend_def flights_ok_def nth_append\<close>)

lemma extend_routine:
  assumes "routine_step net c r s = Some s'" and "flights_ok s"
  shows "flights_extend s s'"
  using assms(1)
  by (cases rule: routine_step_cases)
    (use assms(2) in \<open>auto simp: flights_extend_def flights_ok_def nth_list_update\<close>)

lemma caller_ok_extend:
  "caller_ok s ca \<Longrightarrow> flights_extend s s' \<Longrightarrow> caller_ok s' ca"
  by (auto simp: caller_ok_def flights_extend_def split: caller_pc.splits option.splits)

text \<open>Goroutines do not move callers.\<close>

lemma routine_step_callers: "routine_step net c r s = Some s' \<Longrightarrow> callers s' = callers s"
  by (erule routine_step_cases) simp_all

lemma callers_ok_routine:
  assumes "routine_step net c r s = Some s'" and "flights_ok s" and "callers_ok s"
  shows "callers_ok s'"
  using assms(3) caller_ok_extend [OF _ extend_routine [OF assms(1,2)]] routine_step_callers [OF assms(1)]
  by (simp add: callers_ok_def)

text \<open>A step of caller \<open>i\<close> leaves the others as they are.\<close>

lemma caller_step_others:
  assumes "caller_step c i s = Some s'"
  shows "length (callers s') = length (callers s)"
    and "j \<noteq> i \<Longrightarrow> callers s' ! j = callers s ! j"
    and "j < length (callers s) \<Longrightarrow> c_call (callers s' ! j) = c_call (callers s ! j)"
proof -
  from assms obtain pc s1 where s': "s' = set_caller i pc s1" "callers s1 = callers s"
    by (cases rule: caller_step_cases) auto
  then show "length (callers s') = length (callers s)"
    and "j < length (callers s) \<Longrightarrow> c_call (callers s' ! j) = c_call (callers s ! j)"
    by simp_all
  show "callers s' ! j = callers s ! j" if "j \<noteq> i"
    using s' that by (simp add: set_caller_def)
qed

lemma caller_step_self:
  assumes "caller_step c i s = Some s'" and "flights_ok s" and "callers_ok s"
  shows "caller_ok s' (callers s' ! i)"
  using assms(1)
proof (cases rule: caller_step_cases)
  case (join e)
  then show ?thesis using assms(2) by (simp add: caller_ok_def flights_ok_def)
next
  case lead
  then show ?thesis using assms(2) by (simp add: caller_ok_def flights_ok_def nth_append)
next
  case (resume e)
  then have "caller_ok s (callers s ! i)" using assms(3) by (simp add: callers_ok_def)
  with resume show ?thesis by (simp add: caller_ok_def)
qed (simp_all add: caller_ok_def)

lemma callers_ok_caller:
  assumes "caller_step c i s = Some s'" and "flights_ok s" and "callers_ok s"
  shows "callers_ok s'"
proof -
  have "caller_ok s' (callers s' ! j)" if "j < length (callers s)" for j
  proof (cases "j = i")
    case True
    then show ?thesis using caller_step_self [OF assms] by simp
  next
    case False
    with that assms(3) show ?thesis
      using caller_step_others(2) [OF assms(1) False] caller_ok_extend [OF _ extend_caller [OF assms(1,2)]]
      by (simp add: callers_ok_def)
  qed
  then show ?thesis using caller_step_others(1) [OF assms(1)] by (simp add: callers_ok_def)
qed

definition state_ok :: "('x, 'w) sdk_state \<Rightarrow> bool" where
  "state_ok s \<longleftrightarrow> flights_ok s \<and> callers_ok s"

lemma state_ok_world: "state_ok s \<Longrightarrow> state_ok (s\<lparr>world := w\<rparr>)"
  using caller_ok_extend [of s _ "s\<lparr>world := w\<rparr>"]
  by (simp add: state_ok_def flights_ok_def callers_ok_def flights_extend_def)

lemma state_ok_prog: "prog_step net c s s' \<Longrightarrow> state_ok s \<Longrightarrow> state_ok s'"
  by (auto simp: state_ok_def elim!: prog_stepE
      intro: flights_ok_caller flights_ok_routine callers_ok_caller callers_ok_routine)

lemma state_ok_sys: "sys_step net c s s' \<Longrightarrow> state_ok s \<Longrightarrow> state_ok s'"
  by (erule sys_stepE) (auto intro: state_ok_prog state_ok_world)

lemma state_ok_idle: "state_ok (idle w calls)"
  by (simp add: state_ok_def flights_ok_def callers_ok_def caller_ok_def idle_def newInFlight_def)

lemma reachable_ok: "reachable net c calls s \<Longrightarrow> state_ok s"
  by (induction rule: reachable.induct) (auto intro: state_ok_idle state_ok_sys)

text \<open>The calls are those that were given.\<close>

lemma prog_step_calls: "prog_step net c s s' \<Longrightarrow> map c_call (callers s') = map c_call (callers s)"
proof (erule prog_stepE)
  fix i
  assume "caller_step c i s = Some s'"
  from caller_step_others [OF this] show ?thesis by (simp add: list_eq_iff_nth_eq)
next
  fix r
  assume "routine_step net c r s = Some s'"
  from routine_step_callers [OF this] show ?thesis by simp
qed

lemma reachable_calls: "reachable net c calls s \<Longrightarrow> map c_call (callers s) = calls"
  by (induction rule: reachable.induct)
    (auto simp: idle_def comp_def prog_step_calls elim!: sys_stepE)

section \<open>Progress\<close>

text \<open>How many steps a caller and a goroutine can still make, a goroutine it may start included.\<close>

fun caller_left :: "caller_pc \<Rightarrow> nat" where
  "caller_left CStart = 8"
| "caller_left CMissed = 7"
| "caller_left (CWaiting e) = 1"
| "caller_left (CDone e perms err) = 0"

fun routine_left :: "routine_pc \<Rightarrow> nat" where
  "routine_left RFetch = 5"
| "routine_left (RStore res) = 4"
| "routine_left (RAssign perms err) = 3"
| "routine_left RClose = 2"
| "routine_left RDelete = 1"
| "routine_left RFinished = 0"

definition steps_left :: "('x, 'w) sdk_state \<Rightarrow> nat" where
  "steps_left s = (\<Sum>i < length (callers s). caller_left (c_pc (callers s ! i)))
     + (\<Sum>r < length (routines s). routine_left (r_pc (routines s ! r)))"

lemma sum_update_le:
  fixes f g :: "nat \<Rightarrow> nat"
  assumes "i < n" and "\<And>j. j < n \<Longrightarrow> j \<noteq> i \<Longrightarrow> g j = f j" and "g i + d \<le> f i"
  shows "(\<Sum>j<n. g j) + d \<le> (\<Sum>j<n. f j)"
proof -
  have "(\<Sum>j<n. f j) = f i + (\<Sum>j \<in> {..<n} - {i}. f j)"
    and "(\<Sum>j<n. g j) = g i + (\<Sum>j \<in> {..<n} - {i}. g j)"
    using assms(1) by (simp_all add: sum.remove)
  moreover have "(\<Sum>j \<in> {..<n} - {i}. g j) = (\<Sum>j \<in> {..<n} - {i}. f j)"
    using assms(2) by (intro sum.cong) auto
  ultimately show ?thesis using assms(3) by linarith
qed

lemma steps_left_caller:
  assumes "caller_step c i s = Some s'"
  shows "steps_left s' < steps_left s"
proof -
  let ?f = "\<lambda>s j. caller_left (c_pc (callers s ! j))"
  let ?g = "\<lambda>s r. routine_left (r_pc (routines s ! r))"
  have len: "length (callers s') = length (callers s)"
    and oth: "\<And>j. j \<noteq> i \<Longrightarrow> ?f s' j = ?f s j"
    using caller_step_others [OF assms] by simp_all
  have i: "i < length (callers s)" using assms by (cases rule: caller_step_cases)
  have le: "(\<Sum>j < length (callers s). ?f s' j) + d \<le> (\<Sum>j < length (callers s). ?f s j)"
    if "?f s' i + d \<le> ?f s i" for d
    by (rule sum_update_le [OF i]) (use oth that in auto)
  have "routines s' = routines s \<and> ?f s' i + 1 \<le> ?f s i
    \<or> (\<exists>r. routines s' = routines s @ [r] \<and> r_pc r = RFetch \<and> ?f s' i + 6 \<le> ?f s i)"
    using assms by (cases rule: caller_step_cases) simp_all
  then show ?thesis
    using le [of 1] le [of 6] len by (auto simp: steps_left_def nth_append)
qed

lemma steps_left_routine:
  assumes "routine_step net c r s = Some s'"
  shows "steps_left s' < steps_left s"
proof -
  let ?f = "\<lambda>s q. routine_left (r_pc (routines s ! q))"
  have r: "r < length (routines s)" and len: "length (routines s') = length (routines s)"
    and oth: "\<And>q. q < length (routines s) \<Longrightarrow> q \<noteq> r \<Longrightarrow> ?f s' q = ?f s q"
    and less: "?f s' r + 1 \<le> ?f s r"
    using assms by (cases rule: routine_step_cases; simp)+
  have "(\<Sum>q < length (routines s). ?f s' q) + 1 \<le> (\<Sum>q < length (routines s). ?f s q)"
    by (rule sum_update_le [OF r]) (use oth less in auto)
  then show ?thesis
    using len routine_step_callers [OF assms] by (simp add: steps_left_def)
qed

lemma steps_left_prog: "prog_step net c s s' \<Longrightarrow> steps_left s' < steps_left s"
  by (erule prog_stepE) (auto intro: steps_left_caller steps_left_routine)

text \<open>A goroutine that has not finished can always move; a caller too, unless its entry is open.\<close>

lemma routine_enabled:
  assumes "r < length (routines s)" and "r_pc (routines s ! r) \<noteq> RFinished"
  shows "\<exists>s'. routine_step net c r s = Some s'"
  using assms
  by (cases "r_pc (routines s ! r)")
    (auto simp: routine_step_def Let_def split: prod.split option.split)

lemma caller_enabled:
  assumes "i < length (callers s)" and "c_pc (callers s ! i) = CStart \<or> c_pc (callers s ! i) = CMissed"
  shows "\<exists>s'. caller_step c i s = Some s'"
  using assms by (auto simp: caller_step_def Let_def split: prod.split option.split)

definition caller_returned :: "'x caller \<Rightarrow> bool" where
  "caller_returned ca = (case c_pc ca of CDone _ _ _ \<Rightarrow> True | _ \<Rightarrow> False)"

lemma never_stuck:
  assumes "state_ok s" and "ca \<in> set (callers s)" and "\<not> caller_returned ca"
  shows "\<exists>s'. prog_step net c s s'"
proof -
  from assms(2) obtain i where i: "i < length (callers s)" "ca = callers s ! i"
    by (metis in_set_conv_nth)
  consider "c_pc ca = CStart \<or> c_pc ca = CMissed" | e where "c_pc ca = CWaiting e"
    using assms(3) by (cases "c_pc ca") (auto simp: caller_returned_def)
  then show ?thesis
  proof cases
    case 1
    with i caller_enabled [of i s c] show ?thesis by (auto intro: prog_step.by_caller)
  next
    case 2
    then have e: "e < length (entries s)" "length (routines s) = length (entries s)"
      using assms(1) i by (auto simp: state_ok_def callers_ok_def caller_ok_def flights_ok_def)
    show ?thesis
    proof (cases "entry_done (entries s ! e)")
      case True
      with 2 i show ?thesis
        by (intro exI prog_step.by_caller [of c i]) (simp add: caller_step_def Let_def)
    next
      case False
      then have "r_pc (routines s ! e) \<noteq> RFinished"
        using assms(1) e by (auto simp: state_ok_def flights_ok_def)
      with e routine_enabled [of e s net c] show ?thesis by (auto intro: prog_step.by_routine)
    qed
  qed
qed

end
