(* ===== verification/In_Memory_Cache.thy ===== *)
theory In_Memory_Cache
  imports Permission_Cache
begin

text \<open>
  \<open>helios_permissions/in_memory_cache.go\<close>: the process-local cache. The map \<open>store\<close> is an
  association list with distinct keys whose order is the order in which a \<open>range\<close> over the map
  happens to enumerate it (Go leaves it open; \<open>invalidate_tenant_any_order\<close> shows that it does
  not matter). Every method holds the mutex from its first to its last statement, so a method is
  one step. The record is extensible: the rest of the world is in its \<open>more\<close> part, which no
  method touches.
\<close>

section \<open>State and operations\<close>

record InMemoryPermissionCache =
  store :: "(string \<times> Permission list) list"

definition NewInMemoryPermissionCache :: InMemoryPermissionCache where
  "NewInMemoryPermissionCache = \<lparr>store = []\<rparr>"

definition memKey :: "string \<Rightarrow> string \<Rightarrow> string" where
  "memKey userID tenantID = userID @ '':'' @ tenantID"

definition mem_Get ::
    "string \<Rightarrow> string \<Rightarrow> 'a InMemoryPermissionCache_scheme
       \<Rightarrow> (Permission slice \<times> go_error option) \<times> 'a InMemoryPermissionCache_scheme" where
  "mem_Get userID tenantID c =
     (case map_of (store c) (memKey userID tenantID) of
        None \<Rightarrow> ((None, None), c)
      | Some perms \<Rightarrow> ((Some perms, None), c))"

definition mem_Set ::
    "string \<Rightarrow> string \<Rightarrow> Permission slice \<Rightarrow> 'a InMemoryPermissionCache_scheme
       \<Rightarrow> go_error option \<times> 'a InMemoryPermissionCache_scheme" where
  "mem_Set userID tenantID perms c =
     (let k = memKey userID tenantID in
      case map_of (store c) k of
        Some _ \<Rightarrow> (None, c)
      | None \<Rightarrow> (None, c\<lparr>store := AList.update k (slice_elems perms) (store c)\<rparr>))"

definition mem_WriteThrough ::
    "string \<Rightarrow> string \<Rightarrow> Permission slice \<Rightarrow> 'a InMemoryPermissionCache_scheme
       \<Rightarrow> go_error option \<times> 'a InMemoryPermissionCache_scheme" where
  "mem_WriteThrough userID tenantID perms c =
     (None, c\<lparr>store := AList.update (memKey userID tenantID) (slice_elems perms) (store c)\<rparr>)"

definition mem_Invalidate ::
    "string \<Rightarrow> string \<Rightarrow> 'a InMemoryPermissionCache_scheme
       \<Rightarrow> go_error option \<times> 'a InMemoryPermissionCache_scheme" where
  "mem_Invalidate userID tenantID c =
     (None, c\<lparr>store := AList.delete (memKey userID tenantID) (store c)\<rparr>)"

definition endsWith :: "string \<Rightarrow> string \<Rightarrow> bool" where
  "endsWith s suf =
     (if length suf > length s then False
      else drop (length s - length suf) s = suf)"

text \<open>The loop of \<open>InvalidateTenant\<close> over the keys, deleting from the map while it runs.\<close>

fun invalidate_keys :: "string list \<Rightarrow> string \<Rightarrow> (string \<times> Permission list) list
    \<Rightarrow> (string \<times> Permission list) list" where
  "invalidate_keys [] tenantID m = m"
| "invalidate_keys (k # ks) tenantID m =
     invalidate_keys ks tenantID (if endsWith k ('':'' @ tenantID) then AList.delete k m else m)"

definition mem_InvalidateTenant ::
    "string \<Rightarrow> 'a InMemoryPermissionCache_scheme
       \<Rightarrow> go_error option \<times> 'a InMemoryPermissionCache_scheme" where
  "mem_InvalidateTenant tenantID c =
     (None, c\<lparr>store := invalidate_keys (map fst (store c)) tenantID (store c)\<rparr>)"

definition mem_cache :: "'a InMemoryPermissionCache_scheme PermissionCache" where
  "mem_cache = \<lparr>cache_Get = mem_Get, cache_Set = mem_Set, cache_WriteThrough = mem_WriteThrough,
     cache_Invalidate = mem_Invalidate,
     cache_InvalidateTenant = (\<lambda>t c. Some (mem_InvalidateTenant t c))\<rparr>"

lemma mem_cache_simps [simp]:
  "cache_Get mem_cache = mem_Get" "cache_Set mem_cache = mem_Set"
  "cache_WriteThrough mem_cache = mem_WriteThrough"
  "cache_Invalidate mem_cache = mem_Invalidate"
  "cache_InvalidateTenant mem_cache t c = Some (mem_InvalidateTenant t c)"
  by (simp_all add: mem_cache_def)

declare NewInMemoryPermissionCache_def [handler_defs] mem_Get_def [handler_defs]
  mem_Set_def [handler_defs] mem_WriteThrough_def [handler_defs]
  mem_Invalidate_def [handler_defs] mem_InvalidateTenant_def [handler_defs]

section \<open>Keys\<close>

definition colon_free :: "string \<Rightarrow> bool" where
  "colon_free s = (CHR '':'' \<notin> set s)"

lemma endsWith_suffix [simp]: "endsWith s suf \<longleftrightarrow> suffix suf s"
  by (cases "length suf > length s")
    (auto simp: endsWith_def drop_eq_suffix dest: suffix_length_le)

lemma memKey_inj:
  "colon_free u \<Longrightarrow> colon_free u' \<Longrightarrow> memKey u t = memKey u' t' \<longleftrightarrow> u = u' \<and> t = t'"
  using append_colon_inj [of u u' t t'] by (auto simp: memKey_def colon_free_def)

lemma memKey_in_tenant:
  "colon_free t \<Longrightarrow> colon_free t' \<Longrightarrow> endsWith (memKey u t') (CHR '':'' # t) \<longleftrightarrow> t = t'"
  using suffix_colon_iff [of t' t u] by (auto simp: memKey_def colon_free_def)

section \<open>What the methods do to the map\<close>

lemma map_of_invalidate_keys:
  "map_of (invalidate_keys ks t m) k =
     (if k \<in> set ks \<and> endsWith k ('':'' @ t) then None else map_of m k)"
proof (induction ks arbitrary: m)
  case Nil
  then show ?case by simp
next
  case (Cons k' ks)
  then show ?case by (simp add: delete_conv')
qed

lemma map_of_tenant_store:
  "map_of (invalidate_keys (map fst m) t m) =
     (\<lambda>k. if endsWith k ('':'' @ t) then None else map_of m k)"
proof
  fix k
  show "map_of (invalidate_keys (map fst m) t m) k =
      (if endsWith k ('':'' @ t) then None else map_of m k)"
    by (cases "k \<in> set (map fst m)")
      (simp_all add: map_of_invalidate_keys map_of_eq_None_iff del: endsWith_suffix)
qed

text \<open>The representation invariant: a Go map holds a key once.\<close>

definition mem_wf :: "'a InMemoryPermissionCache_scheme \<Rightarrow> bool" where
  "mem_wf c = distinct (map fst (store c))"

lemma invalidate_keys_distinct:
  "distinct (map fst m) \<Longrightarrow> distinct (map fst (invalidate_keys ks t m))"
  by (induction ks arbitrary: m) (simp_all add: distinct_delete)

lemma mem_wf_ops:
  assumes "mem_wf c"
  shows "mem_wf (snd (mem_Get u t c))" and "mem_wf (snd (mem_Set u t ps c))"
    and "mem_wf (snd (mem_WriteThrough u t ps c))" and "mem_wf (snd (mem_Invalidate u t c))"
    and "mem_wf (snd (mem_InvalidateTenant t c))"
  using assms
  by (simp_all add: handler_defs mem_wf_def Let_def distinct_update distinct_delete
      invalidate_keys_distinct split: option.split)

text \<open>The cache keeps the contract, in every state, for identifiers without a colon.\<close>

interpretation mem: tenant_cache mem_cache memKey "\<lambda>c. map_of (store c)" Some slice_elems
    "\<lambda>_. True" "\<lambda>_. True" colon_free "\<lambda>t k. endsWith k ('':'' @ t)"
  by unfold_locales
    (simp_all add: handler_defs Let_def update_conv' delete_conv' map_of_tenant_store
      memKey_inj memKey_in_tenant del: endsWith_suffix split: option.split)

lemma mem_view [simp]: "mem.view c u t = map_of (store c) (memKey u t)"
  by (cases "map_of (store c) (memKey u t)") (simp_all add: mem.view_def)

section \<open>Properties\<close>

text \<open>The abstract cache: a map from (user, tenant) pairs, over identifiers without a colon.\<close>

definition mem_abs :: "'a InMemoryPermissionCache_scheme \<Rightarrow> string \<times> string \<Rightarrow> Permission slice" where
  "mem_abs c = (\<lambda>(u, t). if colon_free u \<and> colon_free t then map_of (store c) (memKey u t) else None)"

text \<open>
  C5: For users and tenants without a colon the in-memory cache refines a map from (user, tenant)
  pairs: \<open>Get\<close> reads the pair, \<open>Set\<close> fills it only when absent, \<open>WriteThrough\<close> overwrites it,
  \<open>Invalidate\<close> removes it, \<open>InvalidateTenant\<close> removes the pairs of the tenant and no others.
\<close>

theorem mem_refines_pair_map:
  assumes "colon_free u" and "colon_free t"
  shows "fst (mem_Get u t c) = (mem_abs c (u, t), None)
    \<and> mem_abs (snd (mem_Get u t c)) = mem_abs c
    \<and> mem_abs (snd (mem_Set u t ps c)) =
        (if mem_abs c (u, t) = None then (mem_abs c)((u, t) \<mapsto> slice_elems ps) else mem_abs c)
    \<and> mem_abs (snd (mem_WriteThrough u t ps c)) = (mem_abs c)((u, t) \<mapsto> slice_elems ps)
    \<and> mem_abs (snd (mem_Invalidate u t c)) = (mem_abs c)((u, t) := None)
    \<and> mem_abs (snd (mem_InvalidateTenant t c)) = (\<lambda>(u', t'). if t' = t then None else mem_abs c (u', t'))"
  using assms
  by (simp add: mem_abs_def handler_defs Let_def update_conv' delete_conv' map_of_tenant_store
      memKey_inj memKey_in_tenant fun_eq_iff del: endsWith_suffix split: option.split)

theorem mem_refines_pair_map_witness:
  "mem_abs (snd (mem_InvalidateTenant ''t'' \<lparr>store = [(''u:t'', [''p'']), (''u:s'', [''q''])]\<rparr>)) (''u'', ''t'') = None
   \<and> fst (mem_Get ''u'' ''t'' \<lparr>store = [(''u:t'', [''p'']), (''u:s'', [''q''])]\<rparr>) = (Some [''p''], None)"
proof -
  have "colon_free ''u''" "colon_free ''t''" by (simp_all add: colon_free_def)
  from mem_refines_pair_map [OF this, where c = "\<lparr>store = [(''u:t'', [''p'']), (''u:s'', [''q''])]\<rparr>"]
  show ?thesis by (simp add: mem_abs_def colon_free_def memKey_def)
qed

text \<open>
  C38: The key is not injective on identifiers with a colon: an entry written for the user
  \<open>u:v\<close> in tenant \<open>t\<close> is read back as the permissions of the user \<open>u\<close> in tenant \<open>v:t\<close>, and
  invalidating tenant \<open>t\<close> removes it although that reader's tenant is \<open>v:t\<close>.
\<close>

theorem mem_key_collision:
  "fst (mem_Get u (v @ '':'' @ t) (snd (mem_WriteThrough (u @ '':'' @ v) t ps c)))
     = (Some (slice_elems ps), None)
   \<and> fst (mem_Get u (v @ '':'' @ t) (snd (mem_InvalidateTenant t c))) = (None, None)"
  by (simp add: handler_defs memKey_def update_conv' map_of_tenant_store suffix_def)

text \<open>
  The result of \<open>InvalidateTenant\<close> does not depend on the order in which the runtime
  enumerates the map: two caches with the same entries in any order hold the same map after it.
\<close>

lemma invalidate_tenant_any_order:
  assumes "mem_wf c" and "mset (store c) = mset (store c')"
  shows "map_of (store (snd (mem_InvalidateTenant t c)))
    = map_of (store (snd (mem_InvalidateTenant t c')))"
  using map_of_eq_if_mset_eq [OF assms(2)] assms(1)
  by (simp add: mem_InvalidateTenant_def map_of_tenant_store mem_wf_def cong: if_cong)

text \<open>
  Every method keeps the representation invariant (no key twice), and the empty cache has it.
\<close>

lemma mem_wf_preserved:
  assumes "mem_wf c"
  shows "mem_wf NewInMemoryPermissionCache
    \<and> mem_wf (snd (mem_Get u t c)) \<and> mem_wf (snd (mem_Set u t ps c))
    \<and> mem_wf (snd (mem_WriteThrough u t ps c)) \<and> mem_wf (snd (mem_Invalidate u t c))
    \<and> mem_wf (snd (mem_InvalidateTenant t c))"
  using mem_wf_ops [OF assms] by (simp add: mem_wf_def NewInMemoryPermissionCache_def)

end
