(* ===== verification/Redis_Cache.thy ===== *)
theory Redis_Cache
  imports Permission_Cache Go_Duration Go_Json
begin

text \<open>
  \<open>helios_permissions/redis_cache.go\<close>: the Redis-backed cache. The go-redis client is not part
  of the repository: it is a record of the commands the cache sends, over a world \<open>'w\<close> that
  holds the server. What the cache relies on is the locale \<open>redis_server\<close>, the documented
  behaviour of GET, SET, SET NX, DEL and SCAN while the server answers; nothing is assumed about
  a server that does not.
\<close>

section \<open>The go-redis client\<close>

datatype redis_error = RedisNil | RedisError go_error

record 'w RedisClient =
  redis_Get :: "string \<Rightarrow> 'w \<Rightarrow> (redis_error + string) \<times> 'w"
  redis_SetNX :: "string \<Rightarrow> string \<Rightarrow> Duration \<Rightarrow> 'w \<Rightarrow> (go_error + bool) \<times> 'w"
  redis_Set :: "string \<Rightarrow> string \<Rightarrow> Duration \<Rightarrow> 'w \<Rightarrow> go_error option \<times> 'w"
  redis_Del :: "string list \<Rightarrow> 'w \<Rightarrow> (go_error + 64 word) \<times> 'w"
  redis_Scan :: "64 word \<Rightarrow> string \<Rightarrow> int \<Rightarrow> 'w \<Rightarrow> (go_error + string list \<times> 64 word) \<times> 'w"
  redis_Ping :: "'w \<Rightarrow> go_error option \<times> 'w"
  redis_Close :: "'w \<Rightarrow> go_error option \<times> 'w"

section \<open>The cache\<close>

definition KeyPrefix :: string where "KeyPrefix = ''helios:perms:''"

definition DefaultCacheTTLSeconds :: go_int where "DefaultCacheTTLSeconds = 0"

definition scanBatchSize :: int where "scanBatchSize = 100"

record 'w RedisPermissionCache =
  rdb :: "'w RedisClient"
  ttl :: go_int
  keyPrefix :: string
  logger :: "'w Logger"

text \<open>The options; a nil client or logger is \<^const>\<open>None\<close>.\<close>

record 'w RedisCacheOptions =
  opt_Client :: "'w RedisClient option"
  opt_TTLSeconds :: go_int
  opt_KeyPrefix :: string
  opt_Logger :: "'w Logger option"

definition NewRedisPermissionCache ::
    "'w RedisCacheOptions \<Rightarrow> 'w RedisPermissionCache outcome" where
  "NewRedisPermissionCache opts =
     (case opt_Client opts of
        None \<Rightarrow> Panics ''helios_permissions: RedisCacheOptions.Client is required''
      | Some client \<Rightarrow>
          let t = opt_TTLSeconds opts;
              t' = (if sint t < 0 then 0 else t);
              pre = opt_KeyPrefix opts;
              pre' = (if pre = '''' then KeyPrefix else pre);
              lg = (case opt_Logger opts of None \<Rightarrow> SilentLogger | Some l \<Rightarrow> l)
          in Returns \<lparr>rdb = client, ttl = t', keyPrefix = pre', logger = lg\<rparr>)"

definition redis_key :: "'w RedisPermissionCache \<Rightarrow> string \<Rightarrow> string \<Rightarrow> string" where
  "redis_key c userID tenantID = keyPrefix c @ userID @ '':'' @ tenantID"

definition tenantPattern :: "'w RedisPermissionCache \<Rightarrow> string \<Rightarrow> string" where
  "tenantPattern c tenantID = keyPrefix c @ ''*:'' @ tenantID"

text \<open>\<open>json.Marshal\<close> of a permission slice: it has an error result, which no slice produces.\<close>

definition json_Marshal :: "Permission slice \<Rightarrow> go_error + string" where
  "json_Marshal perms = Inr (marshal_strings perms)"

definition json_syntax_error :: go_error where
  "json_syntax_error = ForeignError ''json: cannot unmarshal''"

definition json_Unmarshal :: "string \<Rightarrow> go_error + Permission slice" where
  "json_Unmarshal raw =
     (case unmarshal_strings raw of None \<Rightarrow> Inl json_syntax_error | Some perms \<Rightarrow> Inr perms)"

definition redis_cache_Get ::
    "'w RedisPermissionCache \<Rightarrow> string \<Rightarrow> string \<Rightarrow> 'w \<Rightarrow> (Permission slice \<times> go_error option) \<times> 'w" where
  "redis_cache_Get c userID tenantID w =
     (case redis_Get (rdb c) (redis_key c userID tenantID) w of
        (Inl RedisNil, w1) \<Rightarrow> ((None, None), w1)
      | (Inl (RedisError err), w1) \<Rightarrow>
          ((None, None),
           log_Warn (logger c) ''RedisPermissionCache.Get failed, returning nil (caller falls through to Helios)''
             [LError ''err'' (Some err), LString ''userId'' userID, LString ''tenantId'' tenantID] w1)
      | (Inr raw, w1) \<Rightarrow>
          (case json_Unmarshal raw of
             Inl err \<Rightarrow>
               ((None, None),
                log_Warn (logger c) ''RedisPermissionCache.Get: cached value is not a valid array, treating as miss''
                  [LError ''err'' (Some err), LString ''raw'' raw] w1)
           | Inr perms \<Rightarrow> ((perms, None), w1)))"

definition redis_cache_Set ::
    "'w RedisPermissionCache \<Rightarrow> string \<Rightarrow> string \<Rightarrow> Permission slice \<Rightarrow> 'w \<Rightarrow> go_error option \<times> 'w" where
  "redis_cache_Set c userID tenantID perms w =
     (case json_Marshal perms of
        Inl err \<Rightarrow> (Some (WrapError ''RedisPermissionCache.Set: marshal: '' err), w)
      | Inr payload \<Rightarrow>
          (case redis_SetNX (rdb c) (redis_key c userID tenantID) payload (secondsToDuration (ttl c)) w of
             (Inl err, w1) \<Rightarrow>
               (Some err,
                log_Warn (logger c) ''RedisPermissionCache.Set failed, continuing without cache''
                  [LError ''err'' (Some err), LString ''userId'' userID, LString ''tenantId'' tenantID] w1)
           | (Inr ok, w1) \<Rightarrow> (None, w1)))"

definition redis_cache_WriteThrough ::
    "'w RedisPermissionCache \<Rightarrow> string \<Rightarrow> string \<Rightarrow> Permission slice \<Rightarrow> 'w \<Rightarrow> go_error option \<times> 'w" where
  "redis_cache_WriteThrough c userID tenantID perms w =
     (case json_Marshal perms of
        Inl err \<Rightarrow> (Some (WrapError ''RedisPermissionCache.WriteThrough: marshal: '' err), w)
      | Inr payload \<Rightarrow>
          (case redis_Set (rdb c) (redis_key c userID tenantID) payload (secondsToDuration (ttl c)) w of
             (Some err, w1) \<Rightarrow>
               (Some err,
                log_Warn (logger c) ''RedisPermissionCache.WriteThrough failed, continuing without cache''
                  [LError ''err'' (Some err), LString ''userId'' userID, LString ''tenantId'' tenantID] w1)
           | (None, w1) \<Rightarrow> (None, w1)))"

definition redis_cache_Invalidate ::
    "'w RedisPermissionCache \<Rightarrow> string \<Rightarrow> string \<Rightarrow> 'w \<Rightarrow> go_error option \<times> 'w" where
  "redis_cache_Invalidate c userID tenantID w =
     (case redis_Del (rdb c) [redis_key c userID tenantID] w of
        (Inl err, w1) \<Rightarrow>
          (Some err,
           log_Error (logger c) (''RedisPermissionCache.Invalidate failed '' @ em_dash @ '' cache will stay stale until the next WriteThrough for this user'')
             [LError ''err'' (Some err), LString ''userId'' userID, LString ''tenantId'' tenantID] w1)
      | (Inr deleted, w1) \<Rightarrow>
          (None,
           log_Info (logger c) ''RedisPermissionCache.Invalidate: deleted (userId, tenantId) entry''
             [LString ''userId'' userID, LString ''tenantId'' tenantID, LInt ''deleted'' (sint deleted)] w1))"

text \<open>
  One round of the SCAN loop of \<open>InvalidateTenant\<close>: the error that ends it, or the next cursor
  and the running count.
\<close>

definition scan_round ::
    "'w RedisPermissionCache \<Rightarrow> string \<Rightarrow> 64 word \<Rightarrow> 64 word \<Rightarrow> 'w
       \<Rightarrow> (go_error + 64 word \<times> 64 word) \<times> 'w" where
  "scan_round c tenantID cursor totalDeleted w =
     (case redis_Scan (rdb c) cursor (tenantPattern c tenantID) scanBatchSize w of
        (Inl err, w1) \<Rightarrow>
          (Inl err,
           log_Error (logger c) (''RedisPermissionCache.InvalidateTenant failed '' @ em_dash @ '' cache may be stale for up to TTL seconds'')
             [LError ''err'' (Some err), LString ''tenantId'' tenantID] w1)
      | (Inr (keys, next), w1) \<Rightarrow>
          if length keys > 0 then
            (case redis_Del (rdb c) keys w1 of
               (Inl err, w2) \<Rightarrow>
                 (Inl err,
                  log_Error (logger c) ''RedisPermissionCache.InvalidateTenant: DEL failed''
                    [LError ''err'' (Some err), LString ''tenantId'' tenantID, LStrings ''keys'' keys] w2)
             | (Inr n, w2) \<Rightarrow> (Inr (next, totalDeleted + n), w2))
          else (Inr (next, totalDeleted), w1))"

text \<open>
  The loop runs until the server hands back cursor 0, which no bound on the code forces:
  \<^const>\<open>None\<close> is a call that does not return.
\<close>

partial_function (option) scan_loop ::
    "'w RedisPermissionCache \<Rightarrow> string \<Rightarrow> 64 word \<Rightarrow> 64 word \<Rightarrow> 'w \<Rightarrow> (go_error option \<times> 'w) option" where
  "scan_loop c tenantID cursor totalDeleted w =
     (case scan_round c tenantID cursor totalDeleted w of
        (Inl err, w1) \<Rightarrow> Some (Some err, w1)
      | (Inr (next, deleted), w1) \<Rightarrow>
          if next = 0 then
            Some (None,
              log_Info (logger c) ''RedisPermissionCache.InvalidateTenant: deleted all entries for tenant''
                [LString ''tenantId'' tenantID, LInt ''deleted'' (sint deleted)] w1)
          else scan_loop c tenantID next deleted w1)"

definition redis_cache_InvalidateTenant ::
    "'w RedisPermissionCache \<Rightarrow> string \<Rightarrow> 'w \<Rightarrow> (go_error option \<times> 'w) option" where
  "redis_cache_InvalidateTenant c tenantID w = scan_loop c tenantID 0 0 w"

declare redis_cache_Get_def [handler_defs] redis_cache_Set_def [handler_defs]
  redis_cache_WriteThrough_def [handler_defs] redis_cache_Invalidate_def [handler_defs]
  redis_cache_InvalidateTenant_def [handler_defs]

text \<open>
  The value of the interface. Two properties are immediate from the code: \<open>Get\<close> never returns an
  error, and the marshalling errors never happen.
\<close>

definition redis_cache_ops :: "'w RedisPermissionCache \<Rightarrow> 'w PermissionCache" where
  "redis_cache_ops c = \<lparr>cache_Get = redis_cache_Get c, cache_Set = redis_cache_Set c,
     cache_WriteThrough = redis_cache_WriteThrough c, cache_Invalidate = redis_cache_Invalidate c,
     cache_InvalidateTenant = redis_cache_InvalidateTenant c\<rparr>"

lemma redis_cache_ops_simps [simp]:
  "cache_Get (redis_cache_ops c) = redis_cache_Get c"
  "cache_Set (redis_cache_ops c) = redis_cache_Set c"
  "cache_WriteThrough (redis_cache_ops c) = redis_cache_WriteThrough c"
  "cache_Invalidate (redis_cache_ops c) = redis_cache_Invalidate c"
  "cache_InvalidateTenant (redis_cache_ops c) = redis_cache_InvalidateTenant c"
  by (simp_all add: redis_cache_ops_def)

lemma redis_cache_Get_no_error: "snd (fst (redis_cache_Get c u t w)) = None"
  by (simp add: redis_cache_Get_def split: prod.split sum.split redis_error.split)

section \<open>What the cache relies on\<close>

text \<open>The time to live of a SET: a zero duration stores a persistent key.\<close>

definition expiry :: "Duration \<Rightarrow> Duration option" where
  "expiry d = (if d = 0 then None else Some d)"

text \<open>A string that stands for itself in a Redis pattern.\<close>

definition glob_literal :: "string \<Rightarrow> bool" where
  "glob_literal s = (\<forall>c \<in> set s. c \<noteq> CHR ''*'' \<and> c \<noteq> CHR ''?'' \<and> c \<noteq> CHR ''['' \<and> c \<noteq> CHR 0x5C)"

text \<open>
  The documented behaviour of the server while it answers (\<open>up\<close>). \<open>entries\<close> is its key space:
  the value of a key and its time to live. DEL is a command of at least one key: nothing is said
  of an empty list, which the server rejects. For SCAN: every key present from the start to the end
  of an iteration is returned by it (\<open>pending\<close>: the keys an iteration at a cursor has still to
  return), and an iteration ends (\<open>scan_left\<close> decreases until the cursor is 0 again).
\<close>

locale redis_server =
  fixes client :: "'w RedisClient"
    and entries :: "'w \<Rightarrow> string \<Rightarrow> (string \<times> Duration option) option"
    and up :: "'w \<Rightarrow> bool"
    and glob :: "string \<Rightarrow> string \<Rightarrow> bool"
    and pending :: "'w \<Rightarrow> 64 word \<Rightarrow> string set"
    and scan_left :: "'w \<Rightarrow> 64 word \<Rightarrow> nat"
  assumes GET: "up w \<Longrightarrow> \<exists>w'. redis_Get client k w =
        (case entries w k of None \<Rightarrow> Inl RedisNil | Some (v, _) \<Rightarrow> Inr v, w')
        \<and> entries w' = entries w \<and> up w'"
    and SETNX: "up w \<Longrightarrow> 0 \<le> sint d \<Longrightarrow> \<exists>w'. redis_SetNX client k v d w = (Inr (entries w k = None), w')
        \<and> entries w' = (if entries w k = None then (entries w)(k \<mapsto> (v, expiry d)) else entries w) \<and> up w'"
    and SET: "up w \<Longrightarrow> 0 \<le> sint d \<Longrightarrow> \<exists>w'. redis_Set client k v d w = (None, w')
        \<and> entries w' = (entries w)(k \<mapsto> (v, expiry d)) \<and> up w'"
    and DEL: "up w \<Longrightarrow> ks \<noteq> [] \<Longrightarrow> \<exists>n w'. redis_Del client ks w = (Inr n, w')
        \<and> entries w' = (\<lambda>k. if k \<in> set ks then None else entries w k) \<and> up w'
        \<and> (\<forall>cur. pending w cur - set ks \<subseteq> pending w' cur \<and> scan_left w' cur \<le> scan_left w cur)"
    and SCAN: "up w \<Longrightarrow> 0 < cnt \<Longrightarrow> \<exists>ks next w'. redis_Scan client cur pat cnt w = (Inr (ks, next), w')
        \<and> entries w' = entries w \<and> up w' \<and> (\<forall>k \<in> set ks. glob pat k)
        \<and> (\<forall>k \<in> pending w cur. glob pat k \<longrightarrow> k \<in> set ks \<or> next \<noteq> 0 \<and> k \<in> pending w' next)
        \<and> (next \<noteq> 0 \<longrightarrow> scan_left w' next < scan_left w cur)"
    and SCAN_start: "up w \<Longrightarrow> dom (entries w) \<subseteq> pending w 0"
    and glob_tenant: "glob_literal pre \<Longrightarrow> glob_literal t \<Longrightarrow>
        glob (pre @ ''*:'' @ t) k \<longleftrightarrow> (\<exists>u. k = pre @ u @ '':'' @ t)"

text \<open>
  A cache on such a server: its logger does not touch the server, its prefix is literal and its
  time to live fits a duration.
\<close>

locale redis_backed = redis_server client entries up glob pending scan_left
  for client :: "'w RedisClient"
    and entries :: "'w \<Rightarrow> string \<Rightarrow> (string \<times> Duration option) option"
    and up :: "'w \<Rightarrow> bool"
    and glob :: "string \<Rightarrow> string \<Rightarrow> bool"
    and pending :: "'w \<Rightarrow> 64 word \<Rightarrow> string set"
    and scan_left :: "'w \<Rightarrow> 64 word \<Rightarrow> nat" +
  fixes c :: "'w RedisPermissionCache"
  assumes cache_client: "rdb c = client"
    and literal_prefix: "glob_literal (keyPrefix c)"
    and ttl_fits: "0 \<le> sint (ttl c) \<and> sint (ttl c) \<le> 9223372036"
    and log_frame: "entries (log_Info (logger c) m f w) = entries w"
      "entries (log_Warn (logger c) m f w) = entries w"
      "entries (log_Error (logger c) m f w) = entries w"
      "up (log_Info (logger c) m f w) = up w"
      "up (log_Warn (logger c) m f w) = up w"
      "up (log_Error (logger c) m f w) = up w"

text \<open>What a stored value means to \<open>Get\<close>, what the writers store, and the identifiers that are safe.\<close>

definition redis_dec :: "string \<times> Duration option \<Rightarrow> Permission slice" where
  "redis_dec e = (case unmarshal_strings (fst e) of None \<Rightarrow> None | Some perms \<Rightarrow> perms)"

definition redis_enc :: "'w RedisPermissionCache \<Rightarrow> Permission slice \<Rightarrow> string \<times> Duration option" where
  "redis_enc c perms = (marshal_strings perms, expiry (secondsToDuration (ttl c)))"

definition utf8_perms :: "Permission list \<Rightarrow> bool" where
  "utf8_perms ps = (\<forall>p \<in> set ps. valid_utf8_of p = p)"

definition redis_id_ok :: "string \<Rightarrow> bool" where
  "redis_id_ok s = (CHR '':'' \<notin> set s \<and> glob_literal s)"

definition redis_in_tenant :: "'w RedisPermissionCache \<Rightarrow> string \<Rightarrow> string \<Rightarrow> bool" where
  "redis_in_tenant c t k = (\<exists>u. k = keyPrefix c @ u @ '':'' @ t)"

lemma redis_dec_enc: "utf8_perms ps \<Longrightarrow> redis_dec (redis_enc c (Some ps)) = Some ps"
  by (simp add: redis_dec_def redis_enc_def marshal_roundtrip_fact utf8_perms_def map_idI)

lemma redis_key_inj:
  "redis_id_ok u \<Longrightarrow> redis_id_ok u' \<Longrightarrow> redis_key c u t = redis_key c u' t' \<longleftrightarrow> u = u' \<and> t = t'"
  using append_colon_inj [of u u' t t'] by (auto simp: redis_key_def redis_id_ok_def)

lemma redis_key_in_tenant:
  assumes "redis_id_ok t" and "redis_id_ok t'"
  shows "redis_in_tenant c t (redis_key c u t') \<longleftrightarrow> t = t'"
proof
  assume "redis_in_tenant c t (redis_key c u t')"
  then obtain u' where "u @ '':'' @ t' = u' @ '':'' @ t"
    by (auto simp: redis_in_tenant_def redis_key_def)
  then have "suffix ('':'' @ t) (u @ '':'' @ t')" by (metis suffixI)
  then show "t = t'"
    using suffix_colon_iff [of t' t u] assms by (auto simp: redis_id_ok_def)
qed (auto simp: redis_in_tenant_def redis_key_def)

end
