(* ===== verification/Redis_Contract.thy ===== *)
theory Redis_Contract
  imports Redis_Cache
begin

text \<open>
  The Redis cache keeps the contract of \<open>Permission_Cache\<close> on every server that behaves as
  documented: the specifications of its methods, the termination of the SCAN loop, the sublocale
  that gives it the client's lemmas, and a small reference server on which the locale is
  interpreted.
\<close>

section \<open>The methods on an answering server\<close>

context redis_backed
begin

lemma ttl_duration: "0 \<le> sint (secondsToDuration (ttl c))"
  using secondsToDuration_exact [of "ttl c"] ttl_fits by simp

lemma expiry_ttl:
  "expiry (secondsToDuration (ttl c)) =
     (if sint (ttl c) = 0 then None else Some (secondsToDuration (ttl c)))"
proof -
  have "secondsToDuration (ttl c) = 0 \<longleftrightarrow> sint (secondsToDuration (ttl c)) = 0"
    by (metis signed_0 signed_eq_0_iff)
  then show ?thesis
    using secondsToDuration_exact [of "ttl c"] ttl_fits by (auto simp: expiry_def)
qed

lemma Get_spec:
  assumes "up w"
  shows "\<exists>w'. redis_cache_Get c u t w = ((Option.bind (entries w (redis_key c u t)) redis_dec, None), w')
    \<and> entries w' = entries w \<and> up w'"
proof -
  from GET [OF assms, of "redis_key c u t"] obtain w1 where
    "redis_Get client (redis_key c u t) w =
       (case entries w (redis_key c u t) of None \<Rightarrow> Inl RedisNil | Some (v, _) \<Rightarrow> Inr v, w1)"
    and "entries w1 = entries w" "up w1" by blast
  then show ?thesis
    by (auto simp: redis_cache_Get_def cache_client json_Unmarshal_def redis_dec_def log_frame
        split: option.splits)
qed

lemma Set_spec:
  assumes "up w"
  shows "\<exists>w'. redis_cache_Set c u t ps w = (None, w')
    \<and> entries w' = (if entries w (redis_key c u t) = None
        then (entries w)(redis_key c u t \<mapsto> redis_enc c ps) else entries w) \<and> up w'"
  using SETNX [OF assms ttl_duration, of "redis_key c u t" "marshal_strings ps"]
  by (auto simp: redis_cache_Set_def json_Marshal_def cache_client redis_enc_def)

lemma WriteThrough_spec:
  assumes "up w"
  shows "\<exists>w'. redis_cache_WriteThrough c u t ps w = (None, w')
    \<and> entries w' = (entries w)(redis_key c u t \<mapsto> redis_enc c ps) \<and> up w'"
  using SET [OF assms ttl_duration, of "redis_key c u t" "marshal_strings ps"]
  by (auto simp: redis_cache_WriteThrough_def json_Marshal_def cache_client redis_enc_def)

lemma Invalidate_spec:
  assumes "up w"
  shows "\<exists>w'. redis_cache_Invalidate c u t w = (None, w')
    \<and> entries w' = (entries w)(redis_key c u t := None) \<and> up w'"
  using DEL [OF assms, of "[redis_key c u t]"]
  by (auto simp: redis_cache_Invalidate_def cache_client log_frame fun_eq_iff)

text \<open>One round of the scan: what it deletes is in the tenant, what is left is still pending.\<close>

lemma scan_round_spec:
  assumes "up w" and "glob_literal t"
  shows "\<exists>next n' w'. scan_round c t cur n w = (Inr (next, n'), w') \<and> up w'
    \<and> (\<exists>ks. (\<forall>k \<in> set ks. redis_in_tenant c t k)
        \<and> entries w' = (\<lambda>k. if k \<in> set ks then None else entries w k)
        \<and> (\<forall>k \<in> pending w cur. redis_in_tenant c t k \<longrightarrow> k \<in> set ks \<or> next \<noteq> 0 \<and> k \<in> pending w' next))
    \<and> (next \<noteq> 0 \<longrightarrow> scan_left w' next < scan_left w cur)"
proof -
  have glob: "glob (tenantPattern c t) k \<longleftrightarrow> redis_in_tenant c t k" for k
    using glob_tenant [OF literal_prefix assms(2)] by (simp add: tenantPattern_def redis_in_tenant_def)
  from SCAN [OF assms(1), of scanBatchSize cur "tenantPattern c t"] obtain ks "next" w1 where
    scan: "redis_Scan client cur (tenantPattern c t) scanBatchSize w = (Inr (ks, next), w1)"
    and w1: "entries w1 = entries w" "up w1" and ks: "\<forall>k \<in> set ks. redis_in_tenant c t k"
    and pend: "\<forall>k \<in> pending w cur. redis_in_tenant c t k \<longrightarrow> k \<in> set ks \<or> next \<noteq> 0 \<and> k \<in> pending w1 next"
    and left: "next \<noteq> 0 \<longrightarrow> scan_left w1 next < scan_left w cur"
    by (auto simp: scanBatchSize_def glob)
  show ?thesis
  proof (cases "ks = []")
    case True
    then have "scan_round c t cur n w = (Inr (next, n), w1)"
      by (simp add: scan_round_def cache_client scan)
    moreover have "entries w1 = (\<lambda>k. if k \<in> set ks then None else entries w k)"
      using True w1(1) by simp
    ultimately show ?thesis using w1(2) ks pend left by blast
  next
    case False
    from DEL [OF w1(2) False] obtain m w2 where
      del: "redis_Del client ks w1 = (Inr m, w2)" "up w2"
      and w2: "entries w2 = (\<lambda>k. if k \<in> set ks then None else entries w1 k)"
      and fr: "\<And>cur. pending w1 cur - set ks \<subseteq> pending w2 cur \<and> scan_left w2 cur \<le> scan_left w1 cur"
      by blast
    have "scan_round c t cur n w = (Inr (next, n + m), w2)"
      using False by (simp add: scan_round_def cache_client scan del)
    moreover have "entries w2 = (\<lambda>k. if k \<in> set ks then None else entries w k)"
      using w2 w1(1) by (simp cong: if_cong)
    moreover have "\<forall>k \<in> pending w cur. redis_in_tenant c t k \<longrightarrow> k \<in> set ks \<or> next \<noteq> 0 \<and> k \<in> pending w2 next"
      using pend fr [of "next"] by blast
    moreover have "next \<noteq> 0 \<longrightarrow> scan_left w2 next < scan_left w cur"
      using left fr [of "next"] by (meson le_less_trans)
    ultimately show ?thesis using del(2) ks by blast
  qed
qed

text \<open>
  The whole loop, from any cursor at which every entry of the tenant is still pending, by
  induction on what the scan has left.
\<close>

lemma scan_loop_spec:
  assumes "up w" and "glob_literal t"
    and "\<forall>k. redis_in_tenant c t k \<and> entries w k \<noteq> None \<longrightarrow> k \<in> pending w cur"
  shows "\<exists>w'. scan_loop c t cur n w = Some (None, w') \<and> up w'
    \<and> entries w' = (\<lambda>k. if redis_in_tenant c t k then None else entries w k)"
  using assms(1,3)
proof (induction "scan_left w cur" arbitrary: w cur n rule: less_induct)
  case less
  from scan_round_spec [OF less.prems(1) assms(2), of cur n] obtain "next" n' w1 ks where
    round: "scan_round c t cur n w = (Inr (next, n'), w1)" and up1: "up w1"
    and ks: "\<forall>k \<in> set ks. redis_in_tenant c t k"
    and ent: "entries w1 = (\<lambda>k. if k \<in> set ks then None else entries w k)"
    and pend: "\<forall>k \<in> pending w cur. redis_in_tenant c t k \<longrightarrow> k \<in> set ks \<or> next \<noteq> 0 \<and> k \<in> pending w1 next"
    and left: "next \<noteq> 0 \<longrightarrow> scan_left w1 next < scan_left w cur"
    by blast
  show ?case
  proof (cases "next = 0")
    case True
    have "entries w1 k = (if redis_in_tenant c t k then None else entries w k)" for k
      using ks ent pend less.prems(2) True by (cases "entries w k") auto
    with up1 round True show ?thesis
      by (auto simp: scan_loop.simps [of c t cur n w] log_frame)
  next
    case False
    have "\<forall>k. redis_in_tenant c t k \<and> entries w1 k \<noteq> None \<longrightarrow> k \<in> pending w1 next"
      using less.prems(2) ent pend by auto
    with less.hyps [of w1 "next" n'] left False up1 obtain w2 where
      "scan_loop c t next n' w1 = Some (None, w2)" "up w2"
      "entries w2 = (\<lambda>k. if redis_in_tenant c t k then None else entries w1 k)"
      by blast
    moreover have "(if redis_in_tenant c t k then None else entries w1 k)
        = (if redis_in_tenant c t k then None else entries w k)" for k
      using ent ks by auto
    ultimately show ?thesis
      using round False by (simp add: scan_loop.simps [of c t cur n w])
  qed
qed

lemma InvalidateTenant_spec:
  assumes "up w" and "glob_literal t"
  shows "\<exists>w'. redis_cache_InvalidateTenant c t w = Some (None, w') \<and> up w'
    \<and> entries w' = (\<lambda>k. if redis_in_tenant c t k then None else entries w k)"
  unfolding redis_cache_InvalidateTenant_def
  by (rule scan_loop_spec [OF assms]) (use SCAN_start [OF assms(1)] in auto)

end

text \<open>So it is a tenant cache in the sense of the contract, for safe identifiers.\<close>

sublocale redis_backed \<subseteq> redis: tenant_cache "redis_cache_ops c" "redis_key c" entries redis_dec
    "redis_enc c" utf8_perms up redis_id_ok "redis_in_tenant c"
proof unfold_locales
  fix w u t
  assume "up w"
  from Get_spec [OF this, of u t]
  show "fst (cache_Get (redis_cache_ops c) u t w) = (Option.bind (entries w (redis_key c u t)) redis_dec, None)"
    and "entries (snd (cache_Get (redis_cache_ops c) u t w)) = entries w"
    and "up (snd (cache_Get (redis_cache_ops c) u t w))"
    by auto
next
  fix w u t ps
  assume "up w"
  from Set_spec [OF this, of u t ps]
  show "fst (cache_Set (redis_cache_ops c) u t ps w) = None"
    and "entries (snd (cache_Set (redis_cache_ops c) u t ps w)) =
      (if entries w (redis_key c u t) = None then (entries w)(redis_key c u t \<mapsto> redis_enc c ps) else entries w)"
    and "up (snd (cache_Set (redis_cache_ops c) u t ps w))"
    by auto
next
  fix w u t ps
  assume "up w"
  from WriteThrough_spec [OF this, of u t ps]
  show "fst (cache_WriteThrough (redis_cache_ops c) u t ps w) = None"
    and "entries (snd (cache_WriteThrough (redis_cache_ops c) u t ps w)) = (entries w)(redis_key c u t \<mapsto> redis_enc c ps)"
    and "up (snd (cache_WriteThrough (redis_cache_ops c) u t ps w))"
    by auto
next
  fix w u t
  assume "up w"
  from Invalidate_spec [OF this, of u t]
  show "fst (cache_Invalidate (redis_cache_ops c) u t w) = None"
    and "entries (snd (cache_Invalidate (redis_cache_ops c) u t w)) = (entries w)(redis_key c u t := None)"
    and "up (snd (cache_Invalidate (redis_cache_ops c) u t w))"
    by auto
next
  fix w t
  assume "up w" and "redis_id_ok t"
  then show "\<exists>w'. cache_InvalidateTenant (redis_cache_ops c) t w = Some (None, w') \<and> up w' \<and>
      entries w' = (\<lambda>k. if redis_in_tenant c t k then None else entries w k)"
    using InvalidateTenant_spec [of w t] by (auto simp: redis_id_ok_def)
qed (simp_all add: redis_dec_enc redis_key_inj redis_key_in_tenant)

context redis_backed
begin

lemma redis_backed_tenant_cache:
  "tenant_cache (redis_cache_ops c) (redis_key c) entries redis_dec (redis_enc c) utf8_perms up
     redis_id_ok (redis_in_tenant c)"
  by (rule redis.tenant_cache_axioms)

end

section \<open>A reference server\<close>

text \<open>
  A server that behaves as documented, to show that the hypotheses can hold and to evaluate the
  cache on concrete inputs: its key space, whether it answers, and the keys that the iteration in
  progress has still to return. A scan hands out its snapshot in batches under the cursor 1.
\<close>

record redis_ref =
  ref_entries :: "(string \<times> string \<times> Duration option) list"
  ref_up :: bool
  ref_scan :: "string list"

definition ref_down :: go_error where
  "ref_down = ForeignError ''dial tcp: connection refused''"

definition ref_no_key :: go_error where
  "ref_no_key = ForeignError ''ERR wrong number of arguments for 'del' command''"

fun ref_glob :: "string \<Rightarrow> string \<Rightarrow> bool" where
  "ref_glob [] s = (s = [])"
| "ref_glob (p # ps) [] = (p = CHR ''*'' \<and> ref_glob ps [])"
| "ref_glob (p # ps) (c # cs) =
     (if p = CHR ''*'' then ref_glob ps (c # cs) \<or> ref_glob (p # ps) cs
      else if p = CHR ''?'' then ref_glob ps cs
      else p = c \<and> ref_glob ps cs)"

definition ref_lookup :: "'a redis_ref_scheme \<Rightarrow> string \<Rightarrow> (string \<times> Duration option) option" where
  "ref_lookup w = map_of (ref_entries w)"

definition ref_keys_left :: "'a redis_ref_scheme \<Rightarrow> 64 word \<Rightarrow> string list" where
  "ref_keys_left w cur = (if cur = 0 then map fst (ref_entries w) else ref_scan w)"

definition ref_client :: "'a redis_ref_scheme RedisClient" where
  "ref_client = \<lparr>
     redis_Get = (\<lambda>k w. (if \<not> ref_up w then Inl (RedisError ref_down)
        else case ref_lookup w k of None \<Rightarrow> Inl RedisNil | Some (v, _) \<Rightarrow> Inr v, w)),
     redis_SetNX = (\<lambda>k v d w. if \<not> ref_up w then (Inl ref_down, w)
        else if ref_lookup w k = None
        then (Inr True, w\<lparr>ref_entries := AList.update k (v, expiry d) (ref_entries w)\<rparr>)
        else (Inr False, w)),
     redis_Set = (\<lambda>k v d w. if \<not> ref_up w then (Some ref_down, w)
        else (None, w\<lparr>ref_entries := AList.update k (v, expiry d) (ref_entries w)\<rparr>)),
     redis_Del = (\<lambda>ks w. if \<not> ref_up w then (Inl ref_down, w)
        else if ks = [] then (Inl ref_no_key, w)
        else (Inr (of_nat (length (filter (\<lambda>e. fst e \<in> set ks) (ref_entries w)))),
              w\<lparr>ref_entries := filter (\<lambda>e. fst e \<notin> set ks) (ref_entries w)\<rparr>)),
     redis_Scan = (\<lambda>cur pat n w. if \<not> ref_up w then (Inl ref_down, w)
        else let todo = ref_keys_left w cur; rest = drop (nat n) todo in
          (Inr (filter (ref_glob pat) (take (nat n) todo), if rest = [] then 0 else 1),
           w\<lparr>ref_scan := rest\<rparr>)),
     redis_Ping = (\<lambda>w. (if ref_up w then None else Some ref_down, w)),
     redis_Close = (\<lambda>w. (None, w\<lparr>ref_up := False\<rparr>))\<rparr>"

lemma ref_glob_literal:
  "glob_literal pre \<Longrightarrow> ref_glob (pre @ ps) s \<longleftrightarrow> (\<exists>s'. s = pre @ s' \<and> ref_glob ps s')"
proof (induction pre arbitrary: s)
  case Nil
  then show ?case by simp
next
  case (Cons p pre)
  then show ?case by (cases s) (auto simp: glob_literal_def)
qed

lemma ref_glob_star: "ref_glob (CHR ''*'' # ps) s \<longleftrightarrow> (\<exists>u s'. s = u @ s' \<and> ref_glob ps s')"
proof (induction s)
  case Nil
  then show ?case by simp
next
  case (Cons c cs)
  show ?case
  proof
    assume "ref_glob (CHR ''*'' # ps) (c # cs)"
    then show "\<exists>u s'. c # cs = u @ s' \<and> ref_glob ps s'"
      using Cons by (metis append_Cons append_Nil ref_glob.simps(3))
  next
    assume "\<exists>u s'. c # cs = u @ s' \<and> ref_glob ps s'"
    then obtain u s' where us: "c # cs = u @ s'" "ref_glob ps s'" by blast
    then show "ref_glob (CHR ''*'' # ps) (c # cs)"
      using Cons by (cases u) auto
  qed
qed

lemma ref_glob_tenant:
  assumes "glob_literal pre" and "glob_literal t"
  shows "ref_glob (pre @ ''*:'' @ t) k \<longleftrightarrow> (\<exists>u. k = pre @ u @ '':'' @ t)"
proof -
  have "glob_literal ('':'' @ t)" using assms(2) by (simp add: glob_literal_def)
  from ref_glob_literal [OF this, of "[]"]
  have "ref_glob ('':'' @ t) s \<longleftrightarrow> s = '':'' @ t" for s by simp
  then show ?thesis
    using ref_glob_literal [OF assms(1)] ref_glob_star [of "'':'' @ t"] by auto
qed

lemma map_of_filter_notin:
  "map_of (filter (\<lambda>e. fst e \<notin> S) m) = (\<lambda>k. if k \<in> S then None else map_of m k)"
  by (induction m) (auto simp: fun_eq_iff)

lemma ref_client_up:
  assumes "ref_up w"
  shows "redis_Get ref_client k w =
      (case ref_lookup w k of None \<Rightarrow> Inl RedisNil | Some (v, _) \<Rightarrow> Inr v, w)"
    and "redis_SetNX ref_client k v d w = (if ref_lookup w k = None
      then (Inr True, w\<lparr>ref_entries := AList.update k (v, expiry d) (ref_entries w)\<rparr>) else (Inr False, w))"
    and "redis_Set ref_client k v d w = (None, w\<lparr>ref_entries := AList.update k (v, expiry d) (ref_entries w)\<rparr>)"
    and "ks \<noteq> [] \<Longrightarrow> redis_Del ref_client ks w = (Inr (of_nat (length (filter (\<lambda>e. fst e \<in> set ks) (ref_entries w)))),
      w\<lparr>ref_entries := filter (\<lambda>e. fst e \<notin> set ks) (ref_entries w)\<rparr>)"
    and "redis_Scan ref_client cur pat n w =
      (Inr (filter (ref_glob pat) (take (nat n) (ref_keys_left w cur)),
            if drop (nat n) (ref_keys_left w cur) = [] then 0 else 1),
       w\<lparr>ref_scan := drop (nat n) (ref_keys_left w cur)\<rparr>)"
  using assms by (simp_all add: ref_client_def Let_def)

definition ref_cache :: "'a redis_ref_scheme RedisPermissionCache" where
  "ref_cache = \<lparr>rdb = ref_client, ttl = 0, keyPrefix = KeyPrefix, logger = SilentLogger\<rparr>"

lemma ref_scan_progress:
  assumes "drop (nat n) xs \<noteq> []" and "0 < n"
  shows "length (drop (nat n) xs) < length xs"
  using assms by (cases xs) auto

interpretation ref: redis_server ref_client ref_lookup ref_up ref_glob
    "\<lambda>w cur. set (ref_keys_left w cur)" "\<lambda>w cur. length (ref_keys_left w cur)"
proof unfold_locales
  fix w :: "'a redis_ref_scheme" and ks :: "string list"
  assume "ref_up w" and "ks \<noteq> []"
  then show "\<exists>n w'. redis_Del ref_client ks w = (Inr n, w')
        \<and> ref_lookup w' = (\<lambda>k. if k \<in> set ks then None else ref_lookup w k) \<and> ref_up w'
        \<and> (\<forall>cur. set (ref_keys_left w cur) - set ks \<subseteq> set (ref_keys_left w' cur)
             \<and> length (ref_keys_left w' cur) \<le> length (ref_keys_left w cur))"
    by (auto simp: ref_client_up ref_lookup_def map_of_filter_notin ref_keys_left_def)
next
  fix w :: "'a redis_ref_scheme" and cnt :: int and cur pat
  assume up: "ref_up w" and "0 < cnt"
  let ?todo = "ref_keys_left w cur"
  let ?ks = "filter (ref_glob pat) (take (nat cnt) ?todo)"
  let ?next = "if drop (nat cnt) ?todo = [] then 0 else (1 :: 64 word)"
  let ?w' = "w\<lparr>ref_scan := drop (nat cnt) ?todo\<rparr>"
  have "redis_Scan ref_client cur pat cnt w = (Inr (?ks, ?next), ?w')"
    using up by (simp add: ref_client_up)
  moreover have "\<forall>k \<in> set ?todo. ref_glob pat k \<longrightarrow>
      k \<in> set ?ks \<or> ?next \<noteq> 0 \<and> k \<in> set (ref_keys_left ?w' ?next)"
  proof (intro ballI impI)
    fix k
    assume k: "k \<in> set ?todo" and glob: "ref_glob pat k"
    have "set ?todo = set (take (nat cnt) ?todo) \<union> set (drop (nat cnt) ?todo)"
      by (metis append_take_drop_id set_append)
    with k consider "k \<in> set (take (nat cnt) ?todo)" | "k \<in> set (drop (nat cnt) ?todo)" by blast
    then show "k \<in> set ?ks \<or> ?next \<noteq> 0 \<and> k \<in> set (ref_keys_left ?w' ?next)"
    proof cases
      case 1
      with glob show ?thesis by simp
    next
      case 2
      then have "drop (nat cnt) ?todo \<noteq> []" by fastforce
      with 2 show ?thesis by (simp add: ref_keys_left_def [of ?w'])
    qed
  qed
  moreover have "?next \<noteq> 0 \<longrightarrow> length (ref_keys_left ?w' ?next) < length ?todo"
    using ref_scan_progress [of cnt ?todo] \<open>0 < cnt\<close> by (simp add: ref_keys_left_def [of ?w'])
  ultimately show "\<exists>ks next w'. redis_Scan ref_client cur pat cnt w = (Inr (ks, next), w')
        \<and> ref_lookup w' = ref_lookup w \<and> ref_up w' \<and> (\<forall>k \<in> set ks. ref_glob pat k)
        \<and> (\<forall>k \<in> set (ref_keys_left w cur). ref_glob pat k \<longrightarrow>
             k \<in> set ks \<or> next \<noteq> 0 \<and> k \<in> set (ref_keys_left w' next))
        \<and> (next \<noteq> 0 \<longrightarrow> length (ref_keys_left w' next) < length (ref_keys_left w cur))"
    using up by (intro exI [of _ ?ks] exI [of _ ?next] exI [of _ ?w']) (auto simp: ref_lookup_def)
qed (auto simp: ref_client_up ref_lookup_def update_conv' ref_keys_left_def ref_glob_tenant [simplified]
    dom_map_of_conv_image_fst)

interpretation ref: redis_backed ref_client ref_lookup ref_up ref_glob
    "\<lambda>w cur. set (ref_keys_left w cur)" "\<lambda>w cur. length (ref_keys_left w cur)" ref_cache
  by unfold_locales (simp_all add: ref_cache_def glob_literal_def KeyPrefix_def)

section \<open>Properties\<close>

definition ref_empty :: redis_ref where
  "ref_empty = \<lparr>ref_entries = [], ref_up = True, ref_scan = []\<rparr>"

text \<open>
  C25: On an answering server a write-through returns no error and stores, under
  prefix, user, colon and tenant, the JSON array of the permissions with the configured time to
  live (none when it is 0); the next read returns exactly these permissions and changes nothing.
\<close>

theorem redis_write_then_read:
  assumes "redis_backed client entries up glob pending scan_left c" and "up w" and "utf8_perms ps"
  shows "\<exists>w1 w2. redis_cache_WriteThrough c u t (Some ps) w = (None, w1)
    \<and> entries w1 = (entries w)(keyPrefix c @ u @ '':'' @ t \<mapsto>
        (''['' @ marshal_elems ps @ '']'',
         if sint (ttl c) = 0 then None else Some (secondsToDuration (ttl c))))
    \<and> redis_cache_Get c u t w1 = ((Some ps, None), w2) \<and> entries w2 = entries w1"
proof -
  from redis_backed.WriteThrough_spec [OF assms(1,2), of u t "Some ps"] obtain w1 where
    w1: "redis_cache_WriteThrough c u t (Some ps) w = (None, w1)" "up w1"
      "entries w1 = (entries w)(redis_key c u t \<mapsto> redis_enc c (Some ps))" by blast
  from redis_backed.Get_spec [OF assms(1) w1(2), of u t] obtain w2 where
    "redis_cache_Get c u t w1 = ((Some ps, None), w2)" "entries w2 = entries w1"
    using w1(3) redis_dec_enc [OF assms(3), of c] by auto
  moreover have "expiry (secondsToDuration (ttl c)) =
      (if sint (ttl c) = 0 then None else Some (secondsToDuration (ttl c)))"
    by (rule redis_backed.expiry_ttl [OF assms(1)])
  ultimately show ?thesis
    using w1 by (auto simp: redis_enc_def marshal_strings_def redis_key_def)
qed

theorem redis_write_then_read_witness:
  "\<exists>w1 w2. redis_cache_WriteThrough ref_cache ''u'' ''t'' (Some [''p'']) ref_empty = (None, w1)
     \<and> redis_cache_Get ref_cache ''u'' ''t'' w1 = ((Some [''p''], None), w2)"
proof -
  have "utf8_perms [''p'']" by (simp add: utf8_perms_def valid_utf8_of_ascii)
  moreover have "ref_up ref_empty" by (simp add: ref_empty_def)
  ultimately show ?thesis
    using redis_write_then_read [OF ref.redis_backed_axioms, of ref_empty "[''p'']" "''u''" "''t''"]
    by blast
qed

text \<open>
  C11: For a tenant whose identifier has no colon and no pattern character, \<open>InvalidateTenant\<close>
  returns, without an error, on every answering server, and afterwards the key space holds
  exactly the entries that are not of the tenant (prefix, a user, a colon and the tenant): those
  of the tenant are all gone, every other key is untouched, however the server batches its scan,
  also when batches are empty, for which no DEL may be sent.
\<close>

theorem redis_invalidate_tenant_total:
  assumes "redis_backed client entries up glob pending scan_left c" and "up w" and "redis_id_ok t"
  shows "\<exists>w'. redis_cache_InvalidateTenant c t w = Some (None, w')
    \<and> (\<forall>k. entries w' k = (if \<exists>u. k = keyPrefix c @ u @ '':'' @ t then None else entries w k))"
  using redis_backed.InvalidateTenant_spec [OF assms(1,2), of t] assms(3)
  by (auto simp: redis_id_ok_def redis_in_tenant_def)

theorem redis_invalidate_tenant_total_witness:
  "\<exists>w'. redis_cache_InvalidateTenant ref_cache ''t''
       \<lparr>ref_entries = [(''helios:perms:u:t'', ''[]'', None), (''helios:perms:u:s'', ''[]'', None)],
        ref_up = True, ref_scan = []\<rparr> = Some (None, w')
     \<and> ref_lookup w' ''helios:perms:u:t'' = None
     \<and> ref_lookup w' ''helios:perms:u:s'' = Some (''[]'', None)"
proof -
  let ?w = "\<lparr>ref_entries = [(''helios:perms:u:t'', ''[]'', None), (''helios:perms:u:s'', ''[]'', None)],
        ref_up = True, ref_scan = []\<rparr> :: redis_ref"
  let ?c = "ref_cache :: redis_ref RedisPermissionCache"
  have "ref_up ?w" and "redis_id_ok ''t''" by (simp_all add: redis_id_ok_def glob_literal_def)
  from redis_invalidate_tenant_total [OF ref.redis_backed_axioms, OF this] obtain w' where
    w': "redis_cache_InvalidateTenant ref_cache ''t'' ?w = Some (None, w')"
    "\<forall>k. ref_lookup w' k =
      (if \<exists>u. k = keyPrefix ?c @ u @ '':'' @ ''t'' then None else ref_lookup ?w k)"
    by blast
  have "''helios:perms:u:t'' = keyPrefix ?c @ ''u'' @ '':'' @ ''t''"
    by (simp add: ref_cache_def KeyPrefix_def)
  then have a: "ref_lookup w' ''helios:perms:u:t'' = None" using w'(2) by metis
  have "\<nexists>u. ''helios:perms:u:s'' = keyPrefix ?c @ u @ '':'' @ ''t''"
  proof
    assume "\<exists>u. ''helios:perms:u:s'' = keyPrefix ?c @ u @ '':'' @ ''t''"
    then obtain u where "''helios:perms:u:s'' = keyPrefix ?c @ u @ '':'' @ ''t''" by blast
    then have "last ''helios:perms:u:s'' = last (keyPrefix ?c @ u @ '':'' @ ''t'')" by simp
    then show False by simp
  qed
  then have "ref_lookup w' ''helios:perms:u:s'' = Some (''[]'', None)"
    using w'(2) by (simp add: ref_lookup_def)
  with a w'(1) show ?thesis by blast
qed

text \<open>
  C34: An entry that is present but not an array (text that does not parse, or the JSON
  \<open>null\<close> that a write-through of a nil slice stores) is a miss for \<open>Get\<close>, and \<open>Set\<close>, which
  writes only absent keys, reports success and leaves it: the entry does not heal by the
  repopulation after a fetch, only by a write-through or an invalidation.
\<close>

theorem redis_corrupt_entry_is_sticky:
  assumes "redis_backed client entries up glob pending scan_left c" and "up w"
    and "entries w (redis_key c u t) = Some (v, x)"
    and "unmarshal_strings v = None \<or> unmarshal_strings v = Some None"
  shows "\<exists>w1 w2 w3. redis_cache_Get c u t w = ((None, None), w1)
    \<and> redis_cache_Set c u t ps w1 = (None, w2)
    \<and> redis_cache_Get c u t w2 = ((None, None), w3) \<and> entries w3 = entries w"
proof -
  have miss: "Option.bind (entries w (redis_key c u t)) redis_dec = None"
    using assms(3,4) by (auto simp: redis_dec_def)
  from redis_backed.Get_spec [OF assms(1,2), of u t] miss obtain w1 where
    w1: "redis_cache_Get c u t w = ((None, None), w1)" "entries w1 = entries w" "up w1" by auto
  from redis_backed.Set_spec [OF assms(1) w1(3), of u t ps] w1(2) assms(3) obtain w2 where
    w2: "redis_cache_Set c u t ps w1 = (None, w2)" "entries w2 = entries w" "up w2" by auto
  from redis_backed.Get_spec [OF assms(1) w2(3), of u t] w2(2) miss obtain w3 where
    "redis_cache_Get c u t w2 = ((None, None), w3)" "entries w3 = entries w" by auto
  with w1 w2 show ?thesis by blast
qed

theorem redis_corrupt_entry_is_sticky_witness:
  "\<exists>w1 w2 w3. redis_cache_Get ref_cache ''u'' ''t''
       \<lparr>ref_entries = [(''helios:perms:u:t'', ''null'', None)], ref_up = True, ref_scan = []\<rparr>
         = ((None, None), w1)
     \<and> redis_cache_Set ref_cache ''u'' ''t'' (Some [''p'']) w1 = (None, w2)
     \<and> redis_cache_Get ref_cache ''u'' ''t'' w2 = ((None, None), w3 :: redis_ref)"
proof -
  let ?w = "\<lparr>ref_entries = [(''helios:perms:u:t'', ''null'', None)], ref_up = True, ref_scan = []\<rparr> :: redis_ref"
  have up: "ref_up ?w" by simp
  have ent: "ref_lookup ?w (redis_key ref_cache ''u'' ''t'') = Some (''null'', None)"
    by (simp add: ref_lookup_def redis_key_def ref_cache_def KeyPrefix_def)
  have "unmarshal_strings ''null'' = None \<or> unmarshal_strings ''null'' = Some None"
    by (simp add: unmarshal_strings_def parse_null)
  from redis_corrupt_entry_is_sticky [OF ref.redis_backed_axioms, OF up ent this, of "Some [''p'']"]
  show ?thesis by blast
qed

text \<open>
  Whatever the server answers, \<open>Get\<close> returns no error (a failure is a miss), and the three
  writers return exactly the error of the command they sent, none of their own.
\<close>

lemma redis_errors:
  "snd (fst (redis_cache_Get c u t w)) = None
   \<and> fst (redis_cache_Set c u t ps w) =
       (case fst (redis_SetNX (rdb c) (redis_key c u t) (marshal_strings ps) (secondsToDuration (ttl c)) w) of
          Inl e \<Rightarrow> Some e | Inr _ \<Rightarrow> None)
   \<and> fst (redis_cache_WriteThrough c u t ps w) =
       fst (redis_Set (rdb c) (redis_key c u t) (marshal_strings ps) (secondsToDuration (ttl c)) w)
   \<and> fst (redis_cache_Invalidate c u t w) =
       (case fst (redis_Del (rdb c) [redis_key c u t] w) of Inl e \<Rightarrow> Some e | Inr _ \<Rightarrow> None)"
  by (simp add: redis_cache_Get_no_error redis_cache_Set_def redis_cache_WriteThrough_def
      redis_cache_Invalidate_def json_Marshal_def split: prod.split sum.split option.split)

end
