(* ===== verification/Client_Contract.thy ===== *)
theory Client_Contract
  imports Permission_Client In_Memory_Cache Redis_Contract
begin

text \<open>
  The client on the two caches of the repository: the client's locales interpreted for the
  in-memory cache and for the Redis cache on the reference server, and the properties of the
  client's reads and writes.
\<close>

section \<open>The client on the two caches\<close>

text \<open>A client whose Helios gives one fixed answer, on a cache.\<close>

definition client_over :: "'w PermissionCache \<Rightarrow> (go_error + http_response) \<Rightarrow> (unit, 'w) permissionClient" where
  "client_over ops answer = \<lparr>cache = ops, helios = answering_client answer, staleOnError = True,
     client_logger = SilentLogger\<rparr>"

lemma client_over_simps [simp]:
  "cache (client_over ops answer) = ops"
  "helios (client_over ops answer) = answering_client answer"
  "client_logger (client_over ops answer) = SilentLogger"
  by (simp_all add: client_over_def)

lemma answering_frame [simp]:
  "snd (FetchUserPermissions fixed_net (answering_client answer) ctx u t w) = w"
  by (simp add: answering_fetch)

interpretation mem: client_on_tenant_cache mem_cache memKey "\<lambda>c. map_of (store c)" Some slice_elems
    "\<lambda>_. True" "\<lambda>_. True" fixed_net "client_over mem_cache answer" colon_free
    "\<lambda>t k. endsWith k ('':'' @ t)"
  for answer
  by unfold_locales simp_all

interpretation ref: client_on_tenant_cache
    "redis_cache_ops (ref_cache :: 'a redis_ref_scheme RedisPermissionCache)"
    "redis_key (ref_cache :: 'a redis_ref_scheme RedisPermissionCache)" ref_lookup redis_dec
    "redis_enc (ref_cache :: 'a redis_ref_scheme RedisPermissionCache)" utf8_perms ref_up fixed_net
    "client_over (redis_cache_ops ref_cache) answer" redis_id_ok
    "redis_in_tenant (ref_cache :: 'a redis_ref_scheme RedisPermissionCache)"
  for answer
  by unfold_locales simp_all

section \<open>Reads\<close>

text \<open>A read on an entry that is in place, and on an absent one, whatever Helios is then.\<close>

lemma read_in_place:
  assumes "client_on_cache ops key raw dec enc storable avail net c" and "avail w"
    and "raw w (key u t) = Some (enc (Some ps))" and "storable ps" and "\<not> IsUniversalPerm p"
  shows "readers_give net' c ctx u t p w (Some ps, None) (snd (cache_Get ops u t w))"
proof -
  note loc = assms(1)
  have pc: "permission_cache ops key raw dec enc storable avail"
    using loc by (rule client_on_cache.axioms(1))
  have "permission_cache.view key raw dec w u t = Some ps"
    using permission_cache.dec_enc [OF pc assms(4)] assms(3)
    by (simp add: permission_cache.view_def [OF pc])
  then have "cache_lookup c u t w = (Some ps, snd (cache_Get ops u t w))"
    using client_on_cache.lookup_avail [OF loc assms(2), of u t] by simp
  then show ?thesis by (intro readers_giveI fetchAndCache_hit assms(5))
qed


text \<open>
  C2: On a cache that answers, a read of a pair whose entry is absent makes exactly one fetch: when
  Helios gives a resolution whose permissions the cache can hold, the three readers (the checks
  and explanations of a permission that is not universal) answer from them (none for an inactive user or a non-member) and leave the world of one \<open>Get\<close>, that fetch
  and one \<open>Set\<close>, in which the entry holds them. From then on, in every world in which the entry
  has not been overwritten or dropped, a check or an explanation of any permission that is not
  universal and a listing answer from the same permissions and only read the cache, whatever
  Helios would answer then.
\<close>

theorem miss_fetches_then_hits:
  assumes "client_on_cache ops key raw dec enc storable avail net c" and "avail w"
    and "raw w (key u t) = None" and "\<not> IsUniversalPerm p"
    and "FetchUserPermissions net (helios c) ctx u t (snd (cache_Get ops u t w)) = ((res, None), w1)"
    and "storable (answer_perms res)"
    and "w' = snd (cache_Set ops u t (Some (answer_perms res)) w1)"
  shows "readers_give net c ctx u t p w (Some (answer_perms res), None) w'
    \<and> avail w' \<and> raw w' = (raw w)(key u t \<mapsto> enc (Some (answer_perms res)))
    \<and> (\<forall>w2 net' ctx' q. avail w2 \<and> raw w2 (key u t) = raw w' (key u t) \<and> \<not> IsUniversalPerm q \<longrightarrow>
          readers_give net' c ctx' u t q w2 (Some (answer_perms res), None) (snd (cache_Get ops u t w2)))"
proof -
  note loc = assms(1)
  from client_on_cache.miss_fetched [OF loc assms(2,3,5,7)] have
    fc: "fetchAndCache net c ctx u t w = ((Some (answer_perms res), None), w')" and w': "avail w'"
      "raw w' = (raw w)(key u t \<mapsto> enc (Some (answer_perms res)))" by blast+
  from w'(2) have "raw w2 (key u t) = raw w' (key u t) \<Longrightarrow>
      raw w2 (key u t) = Some (enc (Some (answer_perms res)))" for w2 by simp
  then show ?thesis
    using readers_giveI [OF fc assms(4)] w' read_in_place [OF loc] assms(6) by blast
qed

text \<open>Concrete answers for the witnesses.\<close>

definition not_found :: http_response where
  "not_found = \<lparr>resp_StatusCode = 404, resp_bytes = [], resp_error = None, resp_error_early = False\<rparr>"

definition active_answer :: "Role \<Rightarrow> Permission list \<Rightarrow> http_response" where
  "active_answer role ps =
     \<lparr>resp_StatusCode = 200, resp_bytes = active_body role ps, resp_error = None, resp_error_early = False\<rparr>"

definition server_error :: http_response where
  "server_error = \<lparr>resp_StatusCode = 503, resp_bytes = ''down'', resp_error = None, resp_error_early = False\<rparr>"

definition mem_start :: InMemoryPermissionCache where
  "mem_start = NewInMemoryPermissionCache"

lemma mem_start_empty [simp]: "map_of (store mem_start) k = None"
  by (simp add: mem_start_def NewInMemoryPermissionCache_def)

lemma read_not_found: "read_response not_found = (Some (zero_resolution\<lparr>Status := ''not_a_member''\<rparr>), None)"
  by (simp add: read_response_def not_found_def)

lemma answer_perms_not_found [simp]: "answer_perms (Some (zero_resolution\<lparr>Status := ''not_a_member''\<rparr>)) = []"
  by (simp add: answer_perms_def)

lemma not_universal_example: "\<not> IsUniversalPerm ''x:y:z''"
  by (simp add: IsUniversalPerm_iff SELF_PERMISSIONS_def ROLE_PERMISSIONS_def map_index_def perm_consts)

text \<open>The client of the witness, and what a check of an absent entry fetches.\<close>

lemma fetch_not_found:
  "FetchUserPermissions fixed_net (helios (client_over mem_cache (Inr not_found))) () ''u'' ''t''
     (snd (cache_Get mem_cache ''u'' ''t'' mem_start))
   = ((Some (zero_resolution\<lparr>Status := ''not_a_member''\<rparr>), None), mem_start)"
  by (simp add: answering_fetch read_not_found mem_Get_def)

lemma mem_Get_world [simp]: "snd (mem_Get u t w) = w"
  by (simp add: mem_Get_def split: option.split)

theorem miss_fetches_then_hits_witness:
  "CallerHasPermission fixed_net (client_over mem_cache (Inr not_found)) () ''u'' ''t'' ''x:y:z'' mem_start
      = ((False, None), snd (mem_Set ''u'' ''t'' (Some []) mem_start))
   \<and> readers_give fixed_net (client_over mem_cache (Inr not_found)) () ''u'' ''t'' ''x:y:z''
        \<lparr>store = [(''v:t'', [''x:y:z'']), (''u:t'', [])]\<rparr> (Some [], None)
        \<lparr>store = [(''v:t'', [''x:y:z'']), (''u:t'', [])]\<rparr>"
proof -
  let ?c = "client_over mem_cache (Inr not_found) :: (unit, InMemoryPermissionCache) permissionClient"
  let ?w = "\<lparr>store = [(''v:t'', [''x:y:z'']), (''u:t'', [])]\<rparr> :: InMemoryPermissionCache"
  let ?w' = "snd (cache_Set mem_cache ''u'' ''t''
      (Some (answer_perms (Some (zero_resolution\<lparr>Status := ''not_a_member''\<rparr>)))) mem_start)"
  note found = miss_fetches_then_hits [OF mem.client_on_cache_axioms TrueI mem_start_empty
      not_universal_example fetch_not_found TrueI refl]
  have "map_of (store ?w) (memKey ''u'' ''t'') = map_of (store ?w') (memKey ''u'' ''t'')"
    by (simp add: memKey_def mem_Set_def mem_start_def NewInMemoryPermissionCache_def)
  with found not_universal_example
  have "readers_give fixed_net ?c () ''u'' ''t'' ''x:y:z'' ?w (Some [], None) (snd (cache_Get mem_cache ''u'' ''t'' ?w))"
    unfolding answer_perms_not_found by blast
  moreover from found have "CallerHasPermission fixed_net ?c () ''u'' ''t'' ''x:y:z'' mem_start
      = ((False, None), snd (mem_Set ''u'' ''t'' (Some []) mem_start))"
    by (simp add: readers_give_def)
  ultimately show ?thesis by simp
qed

text \<open>
  What is cached decides: on a hit all three readers answer from the cached permissions and
  send nothing, so neither a revocation nor an outage of Helios changes an answer until the
  entry is written or dropped; an empty cached array is a hit that grants nothing.
\<close>

lemma hit_needs_no_helios:
  assumes "client_on_cache ops key raw dec enc storable avail net c" and "avail w"
    and "Option.bind (raw w (key u t)) dec = Some ps" and "\<not> IsUniversalPerm p"
  shows "CallerHasPermission net' c ctx u t p w = ((p \<in> set ps, None), snd (cache_Get ops u t w))
    \<and> GetUserPermissions net' c ctx u t w =
        ((foldSelfPermissions (Some ps), None), snd (cache_Get ops u t w))
    \<and> map_option Allowed (fst (fst (Explain net' c ctx u t p w))) = Some (p \<in> set ps)
    \<and> raw (snd (cache_Get ops u t w)) = raw w"
proof -
  note loc = assms(1)
  have pc: "permission_cache ops key raw dec enc storable avail"
    using loc by (rule client_on_cache.axioms(1))
  have "permission_cache.view key raw dec w u t = Some ps"
    using assms(3) by (simp add: permission_cache.view_def [OF pc])
  then have "cache_lookup c u t w = (Some ps, snd (cache_Get ops u t w))"
    using client_on_cache.lookup_avail [OF loc assms(2), of u t] by simp
  then have hit: "fetchAndCache net' c ctx u t w = ((Some ps, None), snd (cache_Get ops u t w))"
    by (rule fetchAndCache_hit)
  show ?thesis
    using readers_on_result [OF hit] assms(4) permission_cache.get_effect [OF pc assms(2)] by simp
qed

text \<open>
  C10: On a cache that answers, for an absent entry and a permission that is not universal, a failed
  fetch is reported and not cached: the three readers return the error of the fetch
  (a \<open>HeliosUnreachableError\<close>) and grant nothing, and the entries of the cache are as before, so
  the next read fetches again.
\<close>

theorem failed_fetch_not_cached:
  assumes "client_on_cache ops key raw dec enc storable avail net c" and "avail w"
    and "raw w (key u t) = None" and "\<not> IsUniversalPerm p"
    and "FetchUserPermissions net (helios c) ctx u t (snd (cache_Get ops u t w)) = ((res, Some e), w1)"
  shows "CallerHasPermission net c ctx u t p w = ((False, Some e), w1)
    \<and> GetUserPermissions net c ctx u t w = ((None, Some e), w1)
    \<and> Explain net c ctx u t p w = ((None, Some e), w1)
    \<and> IsHeliosUnreachableError (Some e) \<and> raw w1 = raw w"
proof -
  note loc = assms(1)
  have pc: "permission_cache ops key raw dec enc storable avail"
    using loc by (rule client_on_cache.axioms(1))
  have "permission_cache.view key raw dec w u t = None"
    using assms(3) by (simp add: permission_cache.view_def [OF pc])
  from client_on_cache.miss_error [OF loc assms(2) this assms(5)]
  have "fetchAndCache net c ctx u t w = ((None, Some e), w1)" "raw w1 = raw w" by blast+
  moreover have "IsHeliosUnreachableError (Some e)"
    using fetch_error_is_helios [of net "helios c" ctx u t "snd (cache_Get ops u t w)"] assms(5) by simp
  ultimately show ?thesis using readers_on_error [of net c ctx u t w e w1] assms(4) by simp
qed

theorem failed_fetch_not_cached_witness:
  "\<exists>e. fst (CallerHasPermission fixed_net (client_over mem_cache (Inr server_error)) () ''u'' ''t'' ''x:y:z'' mem_start)
     = (False, Some e) \<and> IsHeliosUnreachableError (Some e)"
proof -
  let ?c = "client_over mem_cache (Inr server_error) :: (unit, InMemoryPermissionCache) permissionClient"
  have fetch: "FetchUserPermissions fixed_net (helios ?c) () ''u'' ''t'' (snd (cache_Get mem_cache ''u'' ''t'' mem_start))
      = ((None, Some (HeliosUnreachableError 503 ''non_2xx'' (Some (ErrorString ''body=down'')))), mem_start)"
    by (simp add: answering_fetch read_response_def server_error_def read_limited_def mem_Get_def)
  from failed_fetch_not_cached [OF mem.client_on_cache_axioms TrueI _ not_universal_example fetch]
  show ?thesis by simp
qed

text \<open>
  C26: A cache that cannot be read does not change an answer: for any implementation, whenever
  \<open>Get\<close> yields nil, with an error or without, \<open>CallerHasPermission\<close>, \<open>GetUserPermissions\<close> and
  \<open>Explain\<close> report exactly what Helios said, its error or its permissions, for every permission that
  is not universal, and leave the world of that fetch and its write-back, also when the
  write-back fails.
\<close>

theorem cache_outage_transparent:
  assumes "cache_Get (cache c) u t w = ((None, err), w0)" and "\<not> IsUniversalPerm p"
    and "(case err of None \<Rightarrow> w0 | Some e \<Rightarrow> log_Warn (client_logger c)
           ''cache.Get failed, falling through to Helios''
           [LError ''err'' (Some e), LString ''userId'' u, LString ''tenantId'' t] w0) = w1"
  shows "readers_give net c ctx u t p w (fetch_outcome (fst (FetchUserPermissions net (helios c) ctx u t w1)))
      (snd (fetchAndPopulate net c ctx u t w1))
    \<and> fst (CallerHasPermission net c ctx u t p w) =
      (case fst (FetchUserPermissions net (helios c) ctx u t w1) of
         (_, Some e) \<Rightarrow> (False, Some e)
       | (res, None) \<Rightarrow> (p \<in> set (answer_perms res), None))
    \<and> fst (GetUserPermissions net c ctx u t w) =
      (case fst (FetchUserPermissions net (helios c) ctx u t w1) of
         (_, Some e) \<Rightarrow> (None, Some e)
       | (res, None) \<Rightarrow> (foldSelfPermissions (Some (answer_perms res)), None))
    \<and> fst (Explain net c ctx u t p w) =
      (case fst (FetchUserPermissions net (helios c) ctx u t w1) of
         (_, Some e) \<Rightarrow> (None, Some e)
       | (res, None) \<Rightarrow>
           (Some \<lparr>Allowed = p \<in> set (answer_perms res),
               ExReason = if p \<in> set (answer_perms res) then ''granted_by_role'' else ''not_in_role_perm_set'',
               ExRole = '''', ExPermissions = foldSelfPermissions (Some (answer_perms res))\<rparr>, None))"
proof -
  have "cache_lookup c u t w = (None, w1)"
    using assms(1,3) by (auto simp: cache_lookup_def split: option.splits)
  then have "fetchAndCache net c ctx u t w = fetchAndPopulate net c ctx u t w1"
    by (rule fetchAndCache_miss)
  then have "readers_give net c ctx u t p w (fetch_outcome (fst (FetchUserPermissions net (helios c) ctx u t w1)))
      (snd (fetchAndPopulate net c ctx u t w1))"
    by (intro readers_giveI assms(2)) (simp add: fetchAndPopulate_outcome [symmetric])
  then show ?thesis
    by (auto simp: readers_give_def fetch_outcome_def split: prod.splits option.splits)
qed

definition redis_is_down :: redis_ref where
  "redis_is_down = \<lparr>ref_entries = [], ref_up = False, ref_scan = []\<rparr>"

theorem cache_outage_transparent_witness:
  "fst (CallerHasPermission fixed_net (client_over (redis_cache_ops ref_cache)
      (Inr (active_answer ''ADMIN'' [''x:y:z'']))) () ''u'' ''t'' ''x:y:z'' redis_is_down) = (True, None)
   \<and> map_option ExReason (fst (fst (Explain fixed_net (client_over (redis_cache_ops ref_cache)
      (Inr (active_answer ''ADMIN'' [''x:y:z'']))) () ''u'' ''t'' ''x:y:z'' redis_is_down))) = Some ''granted_by_role''"
proof -
  let ?c = "client_over (redis_cache_ops ref_cache) (Inr (active_answer ''ADMIN'' [''x:y:z'']))
    :: (unit, redis_ref) permissionClient"
  have get: "cache_Get (cache ?c) ''u'' ''t'' redis_is_down = ((None, None), redis_is_down)"
    by (simp add: redis_cache_Get_def ref_cache_def ref_client_def redis_is_down_def)
  have "read_response (active_answer ''ADMIN'' [''x:y:z'']) =
      (Some \<lparr>Status = ''active'', MRole = ''ADMIN'', Permissions = Some [''x:y:z''],
         IsActive = True, ExpiresAt = None, MReason = ''''\<rparr>, None)"
    by (simp add: active_answer_def read_response_def read_limited_def Unmarshal_resolution_def
        unmarshal_active valid_utf8_of_ascii)
      (simp add: active_body_def marshal_string_def marshal_strings_def quote_body_plain html_safe_def)
  then have "fst (FetchUserPermissions fixed_net (helios ?c) () ''u'' ''t'' redis_is_down) =
      (Some \<lparr>Status = ''active'', MRole = ''ADMIN'', Permissions = Some [''x:y:z''],
         IsActive = True, ExpiresAt = None, MReason = ''''\<rparr>, None)"
    by (simp add: answering_fetch)
  with cache_outage_transparent [OF get not_universal_example, of redis_is_down fixed_net "()"]
  show ?thesis by (simp add: answer_perms_def)
qed

text \<open>
  C35: \<open>StaleOnError\<close> has no effect: every reader does the same whatever its value. There is no
  stale value to fall back to either: a fetch is made only after the cache has given nil, and its
  error is then the result of the call.
\<close>

theorem stale_on_error_ignored:
  "CallerHasPermission net (c\<lparr>staleOnError := b\<rparr>) ctx u t p w = CallerHasPermission net c ctx u t p w
   \<and> GetUserPermissions net (c\<lparr>staleOnError := b\<rparr>) ctx u t w = GetUserPermissions net c ctx u t w
   \<and> Explain net (c\<lparr>staleOnError := b\<rparr>) ctx u t p w = Explain net c ctx u t p w
   \<and> (case fst (fetchAndCache net c ctx u t w) of
        (perms, Some e) \<Rightarrow> perms = None \<and> fst (cache_lookup c u t w) = None
      | (perms, None) \<Rightarrow> perms \<noteq> None)"
proof -
  have "populate (c\<lparr>staleOnError := b\<rparr>) u t res = populate c u t res" for res
    by (simp add: fun_eq_iff populate_def Let_def split: option.split prod.split)
  then have "fetchAndPopulate net (c\<lparr>staleOnError := b\<rparr>) ctx u t = fetchAndPopulate net c ctx u t"
    by (simp add: fun_eq_iff fetchAndPopulate_def split: option.split prod.split)
  moreover have "cache_lookup (c\<lparr>staleOnError := b\<rparr>) u t = cache_lookup c u t"
    by (simp add: fun_eq_iff cache_lookup_def split: option.split prod.split)
  ultimately have "fetchAndCache net (c\<lparr>staleOnError := b\<rparr>) ctx u t = fetchAndCache net c ctx u t"
    by (simp add: fun_eq_iff fetchAndCache_def split: option.split prod.split)
  moreover have "case fst (fetchAndCache net c ctx u t w) of
        (perms, Some e) \<Rightarrow> perms = None \<and> fst (cache_lookup c u t w) = None
      | (perms, None) \<Rightarrow> perms \<noteq> None"
    by (auto simp: fetchAndCache_def fetchAndPopulate_result split: prod.split option.split)
  ultimately show ?thesis
    by (simp add: CallerHasPermission_def GetUserPermissions_def Explain_def)
qed

text \<open>
  C9: \<open>Explain\<close> and \<open>CallerHasPermission\<close> always agree: the same error, or the same decision, the
  same effect on the world, and a reason that says which. A universal permission is granted
  without a look at cache or Helios.
\<close>

theorem explain_agrees:
  "snd (Explain net c ctx u t p w) = snd (CallerHasPermission net c ctx u t p w)
   \<and> (case fst (CallerHasPermission net c ctx u t p w) of
        (allowed, Some e) \<Rightarrow> \<not> allowed \<and> fst (Explain net c ctx u t p w) = (None, Some e)
      | (allowed, None) \<Rightarrow>
          (\<exists>x. fst (Explain net c ctx u t p w) = (Some x, None) \<and> Allowed x = allowed
             \<and> ExReason x = (if allowed then ''granted_by_role'' else ''not_in_role_perm_set'')
             \<and> set SELF_PERMISSIONS \<subseteq> set (slice_elems (ExPermissions x))))
   \<and> (IsUniversalPerm p \<longrightarrow> CallerHasPermission net c ctx u t p w = ((True, None), w))"
proof (cases "IsUniversalPerm p")
  case True
  then show ?thesis by (simp add: readers_universal)
next
  case False
  obtain r w1 where r: "fetchAndCache net c ctx u t w = (r, w1)" by fastforce
  from fetchAndCache_shape [of net c ctx u t w] r
  consider ps where "r = (Some ps, None)" | e where "r = (None, Some e)" by auto
  then show ?thesis
  proof cases
    case 1
    with r have "fetchAndCache net c ctx u t w = ((Some ps, None), w1)" by simp
    from readers_on_result [OF this] False show ?thesis by simp
  next
    case 2
    with r have "fetchAndCache net c ctx u t w = ((None, Some e), w1)" by simp
    from readers_on_error [OF this] False show ?thesis by simp
  qed
qed

theorem explain_agrees_witness:
  "CallerHasPermission fixed_net (client_over mem_cache (Inr server_error)) () ''u'' ''t''
     PermissionMuseBlogRead mem_start = ((True, None), mem_start)"
proof -
  have "IsUniversalPerm PermissionMuseBlogRead"
    by (simp add: IsUniversalPerm_iff ROLE_PERMISSIONS_def map_index_def)
  then show ?thesis
    using explain_agrees [of fixed_net "client_over mem_cache (Inr server_error)" "()" "''u''" "''t''"
        PermissionMuseBlogRead mem_start] by blast
qed

text \<open>
  C27: The list of \<open>GetUserPermissions\<close> against the checks: for a permission that is not universal
  the check says whether it is in the list, and whatever is in the list is granted; but the list
  is not complete: a caller without a membership is granted the viewer's permissions by the
  check while the list, and the list \<open>Explain\<close> gives, hold the self-scope ones only.
\<close>

theorem list_against_checks:
  "(\<forall>ps w1. fetchAndCache net c ctx u t w = ((Some ps, None), w1) \<longrightarrow>
      (\<exists>qs. fst (GetUserPermissions net c ctx u t w) = (Some qs, None) \<and>
         set qs = set SELF_PERMISSIONS \<union> set ps \<and>
         (\<forall>p. p \<in> set qs \<longrightarrow> fst (CallerHasPermission net c ctx u t p w) = (True, None)) \<and>
         (\<forall>p. \<not> IsUniversalPerm p \<longrightarrow> fst (CallerHasPermission net c ctx u t p w) = (p \<in> set qs, None))))
   \<and> (\<forall>w1. fetchAndCache net c ctx u t w = ((Some [], None), w1) \<longrightarrow>
        fst (CallerHasPermission net c ctx u t PermissionMuseBlogRead w) = (True, None)
        \<and> PermissionMuseBlogRead \<notin> set (slice_elems (fst (fst (GetUserPermissions net c ctx u t w))))
        \<and> (\<exists>x. fst (Explain net c ctx u t PermissionMuseBlogRead w) = (Some x, None)
             \<and> Allowed x \<and> PermissionMuseBlogRead \<notin> set (slice_elems (ExPermissions x))))"
proof -
  have uni: "IsUniversalPerm PermissionMuseBlogRead"
    by (simp add: IsUniversalPerm_iff ROLE_PERMISSIONS_def map_index_def)
  have notself: "PermissionMuseBlogRead \<notin> set SELF_PERMISSIONS"
    by (simp add: SELF_PERMISSIONS_def perm_consts)
  have list: "\<exists>qs. fst (GetUserPermissions net c ctx u t w) = (Some qs, None) \<and>
         set qs = set SELF_PERMISSIONS \<union> set ps \<and>
         (\<forall>p. p \<in> set qs \<longrightarrow> fst (CallerHasPermission net c ctx u t p w) = (True, None)) \<and>
         (\<forall>p. \<not> IsUniversalPerm p \<longrightarrow> fst (CallerHasPermission net c ctx u t p w) = (p \<in> set qs, None))"
    if r: "fetchAndCache net c ctx u t w = ((Some ps, None), w1)" for ps w1
  proof -
    obtain qs where qs: "foldSelfPermissions (Some ps) = Some qs" by (simp add: foldSelf_value)
    then have "set qs = set SELF_PERMISSIONS \<union> set ps"
      using foldSelf_set [of "Some ps"] by simp
    moreover have "fst (CallerHasPermission net c ctx u t p w) = (IsUniversalPerm p \<or> p \<in> set ps, None)" for p
      using readers_on_result(1) [OF r, of p] readers_universal(1) [of p net c ctx u t w]
      by (cases "IsUniversalPerm p") auto
    ultimately show ?thesis
      using readers_on_result(2) [OF r] qs self_is_universal by auto
  qed
  have gap: "PermissionMuseBlogRead \<notin> set (slice_elems (fst (fst (GetUserPermissions net c ctx u t w))))"
    if r: "fetchAndCache net c ctx u t w = ((Some [], None), w1)" for w1
    using readers_on_result(2) [OF r] notself by simp
  from list gap notself readers_universal [OF uni, of net c ctx u t w] show ?thesis by auto
qed

theorem list_against_checks_witness:
  "fst (CallerHasPermission fixed_net (client_over mem_cache (Inr not_found)) () ''u'' ''t''
      PermissionMuseBlogRead mem_start) = (True, None)
   \<and> PermissionMuseBlogRead \<notin> set (slice_elems (fst (fst (GetUserPermissions fixed_net
        (client_over mem_cache (Inr not_found)) () ''u'' ''t'' mem_start))))"
proof -
  let ?c = "client_over mem_cache (Inr not_found) :: (unit, InMemoryPermissionCache) permissionClient"
  have "fst (fetchAndCache fixed_net ?c () ''u'' ''t'' mem_start) = (Some [], None)"
    by (simp add: fetchAndCache_def cache_lookup_def mem_Get_def fetchAndPopulate_result
        answering_fetch read_not_found)
  then obtain w1 where "fetchAndCache fixed_net ?c () ''u'' ''t'' mem_start = ((Some [], None), w1)"
    by (cases "fetchAndCache fixed_net ?c () ''u'' ''t'' mem_start") simp
  with list_against_checks [of fixed_net ?c "()" "''u''" "''t''" mem_start] show ?thesis by blast
qed

text \<open>
  Folding gives the self-scope permissions in their order and then the given ones in theirs,
  each at its first occurrence: no duplicates, nothing lost or added, and folding again changes
  nothing.
\<close>

lemma foldSelf_first_occurrences:
  "foldSelfPermissions perms = Some (rev (remdups (rev (SELF_PERMISSIONS @ slice_elems perms))))
   \<and> distinct (slice_elems (foldSelfPermissions perms))
   \<and> set (slice_elems (foldSelfPermissions perms)) = set SELF_PERMISSIONS \<union> set (slice_elems perms)
   \<and> (\<exists>rest. slice_elems (foldSelfPermissions perms) = SELF_PERMISSIONS @ rest)
   \<and> foldSelfPermissions (foldSelfPermissions perms) = foldSelfPermissions perms"
proof -
  have d: "distinct SELF_PERMISSIONS" using vocabulary_distinct by simp
  have pre: "\<exists>rest. rev (remdups (rev (SELF_PERMISSIONS @ ys))) = SELF_PERMISSIONS @ rest" for ys
  proof (induction ys rule: rev_induct)
    case Nil
    then show ?case using d by (simp add: distinct_remdups_id)
  next
    case (snoc y ys)
    then show ?case by (auto simp: insert_absorb)
  qed
  have "rev (remdups (rev (xs @ xs @ rest))) = rev (remdups (rev (xs @ rest)))"
    for xs rest :: "Permission list"
  proof -
    have "remdups (rev rest @ rev xs @ rev xs) = remdups (rev rest @ remdups (rev xs @ rev xs))"
      by (rule remdups_append2 [symmetric])
    also have "remdups (rev xs @ rev xs) = remdups (rev xs)" by (rule remdups_append) simp
    finally show ?thesis by (simp add: remdups_append2)
  qed
  moreover obtain rest where rest: "rev (remdups (rev (SELF_PERMISSIONS @ slice_elems perms))) = SELF_PERMISSIONS @ rest"
    using pre by blast
  moreover have "rev (remdups (rev (SELF_PERMISSIONS @ rest))) = SELF_PERMISSIONS @ rest"
  proof -
    have "distinct (SELF_PERMISSIONS @ rest)" unfolding rest [symmetric] by simp
    then have "distinct (rev (SELF_PERMISSIONS @ rest))" by (simp only: distinct_rev)
    then show ?thesis by (simp only: distinct_remdups_id rev_rev_ident)
  qed
  ultimately have "foldSelfPermissions (foldSelfPermissions perms) = foldSelfPermissions perms"
    by (simp only: foldSelf_value slice_elems_simps)
  moreover have "distinct (slice_elems (foldSelfPermissions perms))" by (simp add: foldSelf_value)
  ultimately show ?thesis
    using pre [of "slice_elems perms"] by (simp only: foldSelf_value slice_elems_simps) auto
qed

text \<open>
  C19: The roles end to end: when Helios answers that a user is an active member with the
  permissions the contract gives a role, the check on an empty entry of an answering cache grants exactly what the role
  has, and the self-scope permissions.
\<close>

theorem member_gets_role_permissions:
  assumes "client_on_cache ops key raw dec enc storable avail net c" and "avail w"
    and "raw w (key u t) = None" and "IsValidRole role"
    and "FetchUserPermissions net (helios c) ctx u t (snd (cache_Get ops u t w)) = ((Some r, None), w1)"
    and "Status r = ''active''" and "Permissions r = ResolvePermissions role"
  shows "fst (CallerHasPermission net c ctx u t p w) = (RoleHasPermission role p \<or> IsSelfScope p, None)"
proof -
  have perms: "set (answer_perms (Some r)) = role_perms role"
    using assms(6,7) by (simp add: answer_perms_def ResolvePermissions_elems)
  from client_on_cache.miss_fetched [OF assms(1,2,3,5) refl] obtain w' where
    w': "fetchAndCache net c ctx u t w = ((Some (answer_perms (Some r)), None), w')" by blast
  have viewer: "role_perms RoleViewer \<subseteq> role_perms role"
    using assms(4) role_chain by (auto simp: IsValidRole_def split: if_splits)
  show ?thesis
  proof (cases "IsUniversalPerm p")
    case True
    then have "RoleHasPermission role p \<or> IsSelfScope p"
      using viewer by (auto simp: IsUniversalPerm_iff IsSelfScope_iff RoleHasPermission_iff)
    with True show ?thesis by (simp add: readers_universal)
  next
    case False
    then have "\<not> IsSelfScope p" by (auto simp: IsUniversalPerm_iff IsSelfScope_iff)
    with readers_on_result(1) [OF w' False] perms show ?thesis
      by (simp add: RoleHasPermission_iff)
  qed
qed

definition editor_answer :: http_response where
  "editor_answer = active_answer RoleEditor (slice_elems (ResolvePermissions RoleEditor))"

lemma editor_perms:
  "ResolvePermissions RoleEditor =
     Some [PermissionAthensProjectView, PermissionMercuryApi_keysRead,
      PermissionMercuryService_clientsRead, PermissionMercuryUsersRead, PermissionMuseAuthorCreate,
      PermissionMuseAuthorRead, PermissionMuseBlogCreate, PermissionMuseBlogRead]"
  by (simp add: ResolvePermissions_def ROLE_PERMISSIONS_def)

lemma read_editor_answer:
  "\<exists>r. read_response editor_answer = (Some r, None) \<and> Status r = ''active''
     \<and> Permissions r = ResolvePermissions RoleEditor"
proof -
  let ?ps = "slice_elems (ResolvePermissions RoleEditor)"
  have plain: "\<forall>p \<in> insert RoleEditor (set ?ps). \<forall>ch \<in> set p. (of_char ch :: nat) < 128 \<and> html_safe ch"
    unfolding editor_perms slice_elems_simps by (simp add: perm_consts RoleEditor_def html_safe_def)
  have "length (active_body RoleEditor ?ps) \<le> 1048576"
    unfolding editor_perms slice_elems_simps
    by (simp add: active_body_def marshal_string_def marshal_strings_def perm_consts
        RoleEditor_def quote_body_plain html_safe_def)
  moreover have "map valid_utf8_of ?ps = ?ps"
    using plain by (simp add: map_idI valid_utf8_of_ascii)
  moreover have "Some ?ps = ResolvePermissions RoleEditor"
    by (simp add: editor_perms)
  ultimately show ?thesis
    by (simp add: editor_answer_def active_answer_def read_response_def read_limited_def
        Unmarshal_resolution_def unmarshal_active)
qed

theorem member_gets_role_permissions_witness:
  "fst (CallerHasPermission fixed_net (client_over mem_cache (Inr editor_answer)) () ''u'' ''t''
      PermissionMuseBlogCreate mem_start) = (True, None)
   \<and> fst (CallerHasPermission fixed_net (client_over mem_cache (Inr editor_answer)) () ''u'' ''t''
      PermissionHeliosTenantTransfer mem_start) = (False, None)"
proof -
  let ?c = "client_over mem_cache (Inr editor_answer) :: (unit, InMemoryPermissionCache) permissionClient"
  obtain r where r: "read_response editor_answer = (Some r, None)" "Status r = ''active''"
    "Permissions r = ResolvePermissions RoleEditor" using read_editor_answer by blast
  have fetch: "FetchUserPermissions fixed_net (helios ?c) () ''u'' ''t'' (snd (cache_Get mem_cache ''u'' ''t'' mem_start))
      = ((Some r, None), mem_start)"
    by (simp add: answering_fetch r mem_Get_def)
  have valid: "IsValidRole RoleEditor" by (simp add: IsValidRole_def)
  have "fst (CallerHasPermission fixed_net ?c () ''u'' ''t'' p mem_start)
      = (RoleHasPermission RoleEditor p \<or> IsSelfScope p, None)" for p
    by (rule member_gets_role_permissions [OF mem.client_on_cache_axioms TrueI _ valid fetch r(2,3)])
      simp
  moreover have "RoleHasPermission RoleEditor PermissionMuseBlogCreate"
    "\<not> RoleHasPermission RoleEditor PermissionHeliosTenantTransfer"
    "\<not> IsSelfScope PermissionHeliosTenantTransfer"
    by (simp_all add: RoleHasPermission_def ROLE_PERMISSIONS_def IsSelfScope_iff SELF_PERMISSIONS_def
        map_index_def perm_consts)
  ultimately show ?thesis by simp
qed

section \<open>Writes\<close>



text \<open>
  C4: For well-formed identifiers, on a cache that answers, \<open>InvalidateTenant\<close> of the client returns without an error;
  then every user of the tenant is fetched anew, and every user of another tenant is read as
  before.
\<close>

theorem tenant_invalidation_is_exact:
  assumes "client_on_tenant_cache ops key raw dec enc storable avail net c id_ok in_tenant"
    and "avail w" and "id_ok t" and "id_ok t'" and "t' \<noteq> t"
  shows "\<exists>w'. client_InvalidateTenant c t w = Some (None, w')
    \<and> fetchAndCache net c ctx u t w' = fetchAndPopulate net c ctx u t (snd (cache_Get ops u t w'))
    \<and> fst (cache_lookup c u t' w') = fst (cache_lookup c u t' w)"
proof -
  note loc = assms(1)
  have cc: "client_on_cache ops key raw dec enc storable avail net c"
    using loc by (rule client_on_tenant_cache.axioms(1))
  have pc: "permission_cache ops key raw dec enc storable avail"
    using cc by (rule client_on_cache.axioms(1))
  have tc: "tenant_cache ops key raw dec enc storable avail id_ok in_tenant"
    using loc by (rule client_on_tenant_cache.axioms(2))
  have ops: "cache c = ops" using cc by (rule client_on_cache.client_cache)
  from tenant_cache.tenant_effect [OF tc assms(2,3)] obtain w' where
    w': "client_InvalidateTenant c t w = Some (None, w')" "avail w'"
    "raw w' = (\<lambda>k. if in_tenant t k then None else raw w k)"
    by (auto simp: client_InvalidateTenant_def ops)
  have "permission_cache.view key raw dec w' u t = None"
    "permission_cache.view key raw dec w' u t' = permission_cache.view key raw dec w u t'"
    using w'(3) tenant_cache.in_tenant_key [OF tc assms(3)] assms(3-5)
    by (auto simp: permission_cache.view_def [OF pc])
  then show ?thesis
    using w' client_on_cache.miss_spec [OF cc w'(2)] client_on_cache.lookup_avail [OF cc] assms(2) by auto
qed

theorem tenant_invalidation_is_exact_witness:
  "\<exists>w'. client_InvalidateTenant (client_over mem_cache (Inr not_found)) ''t''
       \<lparr>store = [(''u:t'', [''p'']), (''u:s'', [''q''])]\<rparr> = Some (None, w')
     \<and> fst (cache_lookup (client_over mem_cache (Inr not_found)) ''u'' ''s'' (w' :: InMemoryPermissionCache))
       = Some [''q'']"
proof -
  let ?w = "\<lparr>store = [(''u:t'', [''p'']), (''u:s'', [''q''])]\<rparr> :: InMemoryPermissionCache"
  have ids: "colon_free ''t''" "colon_free ''s''" "''s'' \<noteq> ''t''" by (simp_all add: colon_free_def)
  have "fst (cache_lookup (client_over mem_cache (Inr not_found)) ''u'' ''s'' ?w) = Some [''q'']"
    by (simp add: cache_lookup_def mem_Get_def memKey_def)
  then show ?thesis
    using tenant_invalidation_is_exact [OF mem.client_on_tenant_cache_axioms TrueI ids,
        of "Inr not_found" ?w "()" "''u''"] by metis
qed

text \<open>
  C39: The two caches differ on a write-through of a nil slice: the in-memory cache then holds an
  empty array, a hit that grants nothing, while the Redis cache holds \<open>null\<close>, which its readers
  take for a miss and which \<open>Set\<close> does not replace: on Redis every later check of the pair goes
  to Helios.
\<close>

theorem nil_write_differs:
  assumes "redis_backed rclient entries up glob pending scan_left rc" and "up w"
  shows "fst (mem_Get u t (snd (mem_WriteThrough u t None m))) = (Some [], None)
    \<and> (\<exists>w1 w2 w3. redis_cache_WriteThrough rc u t None w = (None, w1)
        \<and> fst (redis_cache_Get rc u t w1) = (None, None)
        \<and> redis_cache_Set rc u t ps w1 = (None, w2) \<and> entries w2 = entries w1
        \<and> redis_cache_Get rc u t w2 = ((None, None), w3))"
proof -
  note loc = assms(1)
  from redis_backed.WriteThrough_spec [OF loc assms(2), of u t None] obtain w1 where
    w1: "redis_cache_WriteThrough rc u t None w = (None, w1)" "up w1"
    "entries w1 = (entries w)(redis_key rc u t \<mapsto> redis_enc rc None)" by blast
  have nil: "redis_dec (redis_enc rc None) = None"
    by (simp add: redis_dec_def redis_enc_def marshal_roundtrip_fact)
  from redis_backed.Get_spec [OF loc w1(2), of u t] w1(3) nil
  have "fst (redis_cache_Get rc u t w1) = (None, None)" by auto
  moreover from redis_backed.Set_spec [OF loc w1(2), of u t ps] w1(3) obtain w2 where
    w2: "redis_cache_Set rc u t ps w1 = (None, w2)" "entries w2 = entries w1" "up w2" by auto
  moreover from redis_backed.Get_spec [OF loc w2(3), of u t] w2(2) w1(3) nil
  obtain w3 where "redis_cache_Get rc u t w2 = ((None, None), w3)" by auto
  ultimately show ?thesis
    using w1(1) by (simp add: mem_Get_def mem_WriteThrough_def update_conv')
qed

theorem nil_write_differs_witness:
  "fst (mem_Get ''u'' ''t'' (snd (mem_WriteThrough ''u'' ''t'' None mem_start))) = (Some [], None)
   \<and> (\<exists>w1. redis_cache_WriteThrough ref_cache ''u'' ''t'' None ref_empty = (None, w1)
        \<and> fst (redis_cache_Get ref_cache ''u'' ''t'' w1) = (None, None))"
proof -
  have "ref_up ref_empty" by (simp add: ref_empty_def)
  from nil_write_differs [OF ref.redis_backed_axioms, OF this, of "''u''" "''t''" mem_start] show ?thesis
    by blast
qed

end
