(* ===== verification/Coalescing.thy ===== *)
theory Coalescing
  imports In_Flight Client_Contract
begin

text \<open>
  What the coalescing of overlapping fetches guarantees, and what it does not: the properties of
  the state machine of \<open>In_Flight\<close>, for every client, every Helios and every interleaving, with
  the rest of the world changing at will between the steps where a property says so.
\<close>

section \<open>Results\<close>

text \<open>A result is a slice or an error, never neither and never both, from the goroutine on.\<close>

definition result_ok :: "Permission slice \<Rightarrow> go_error option \<Rightarrow> bool" where
  "result_ok perms err \<longleftrightarrow> (perms = None \<longleftrightarrow> err \<noteq> None)"

fun flight_result_ok :: "routine_pc \<Rightarrow> inFlightEntry \<Rightarrow> bool" where
  "flight_result_ok RFetch e = True"
| "flight_result_ok (RStore res) e = True"
| "flight_result_ok (RAssign perms err) e = result_ok perms err"
| "flight_result_ok RClose e = result_ok (entry_res e) (entry_err e)"
| "flight_result_ok RDelete e = result_ok (entry_res e) (entry_err e)"
| "flight_result_ok RFinished e = result_ok (entry_res e) (entry_err e)"

definition results_ok :: "('x, 'w) sdk_state \<Rightarrow> bool" where
  "results_ok s \<longleftrightarrow> (\<forall>r < length (routines s). flight_result_ok (r_pc (routines s ! r)) (entries s ! r))"

lemma results_ok_caller:
  assumes "caller_step c i s = Some s'" and "results_ok s" and "flights_ok s"
  shows "results_ok s'"
  using assms(1)
  by (cases rule: caller_step_cases)
    (use assms(2,3) in \<open>auto simp: results_ok_def flights_ok_def nth_append less_Suc_eq\<close>)

lemma results_ok_routine:
  assumes "routine_step net c r s = Some s'" and "results_ok s" and "flights_ok s"
  shows "results_ok s'"
proof -
  have len: "length (routines s) = length (entries s)" using assms(3) by (simp add: flights_ok_def)
  have old: "flight_result_ok (r_pc (routines s ! q)) (entries s ! q)" if "q < length (routines s)" for q
    using assms(2) that by (simp add: results_ok_def)
  have r: "r < length (routines s)" and others: "length (routines s') = length (routines s)"
    "\<And>q. q < length (routines s) \<Longrightarrow> q \<noteq> r \<Longrightarrow> r_pc (routines s' ! q) = r_pc (routines s ! q)"
    "\<And>q. q < length (routines s) \<Longrightarrow> q \<noteq> r \<Longrightarrow> entries s' ! q = entries s ! q"
    using assms(1) by (cases rule: routine_step_cases; simp)+
  have "flight_result_ok (r_pc (routines s' ! r)) (entries s' ! r)"
    using assms(1) by (cases rule: routine_step_cases) (use old [OF r] r len in \<open>simp_all add: result_ok_def\<close>)
  with old others show ?thesis
    unfolding results_ok_def by metis
qed

lemma reachable_results: "reachable net c calls s \<Longrightarrow> results_ok s"
proof (induction rule: reachable.induct)
  case (start w)
  then show ?case by (simp add: results_ok_def idle_def)
next
  case (step s s')
  have "flights_ok s" using reachable_ok [OF step.hyps(1)] by (simp add: state_ok_def)
  with step show ?case
    by (elim sys_stepE prog_stepE) (simp_all add: results_ok_caller results_ok_routine, simp add: results_ok_def)
qed

section \<open>What Helios answered\<close>

text \<open>
  A run with a record of the answers: \<open>A r\<close> is what the fetch of goroutine \<open>r\<close> returned, noted
  when the goroutine makes it. The record does not steer the run: every reachable state has one.
\<close>

type_synonym answers = "nat \<Rightarrow> (MembershipResolution option \<times> go_error option) option"

definition note_answer ::
    "('x, 'w) net \<Rightarrow> ('x, 'w) permissionClient \<Rightarrow> nat \<Rightarrow> ('x, 'w) sdk_state \<Rightarrow> answers \<Rightarrow> answers" where
  "note_answer net c r s A =
     (if r_pc (routines s ! r) = RFetch then
        let call = r_call (routines s ! r) in
        A(r \<mapsto> fst (FetchUserPermissions net (helios c) (call_ctx call) (call_user call) (call_tenant call) (world s)))
      else A)"

inductive recorded_run ::
    "('x, 'w) net \<Rightarrow> ('x, 'w) permissionClient \<Rightarrow> 'x api_call list \<Rightarrow> ('x, 'w) sdk_state \<Rightarrow> answers \<Rightarrow> bool"
  for net c calls where
  begin_run: "recorded_run net c calls (idle w calls) (\<lambda>_. None)"
| caller_moves: "recorded_run net c calls s A \<Longrightarrow> caller_step c i s = Some s' \<Longrightarrow>
    recorded_run net c calls s' A"
| routine_moves: "recorded_run net c calls s A \<Longrightarrow> routine_step net c r s = Some s' \<Longrightarrow>
    recorded_run net c calls s' (note_answer net c r s A)"
| world_moves: "recorded_run net c calls s A \<Longrightarrow> recorded_run net c calls (s\<lparr>world := w\<rparr>) A"

lemma recorded_reachable: "recorded_run net c calls s A \<Longrightarrow> reachable net c calls s"
  by (induction rule: recorded_run.induct)
    (auto intro: reachable.intros sys_step.intros prog_step.intros)

lemma reachable_recorded: "reachable net c calls s \<Longrightarrow> \<exists>A. recorded_run net c calls s A"
  by (induction rule: reachable.induct)
    (auto elim!: sys_stepE prog_stepE intro: recorded_run.intros)

text \<open>A goroutine carries the outcome of its own recorded answer, and its entry gets no other.\<close>

fun carries :: "(MembershipResolution option \<times> go_error option) option \<Rightarrow> routine_pc \<Rightarrow> inFlightEntry \<Rightarrow> bool" where
  "carries a RFetch e = True"
| "carries a (RStore res) e = (a = Some (res, None))"
| "carries a (RAssign perms err) e = (map_option fetch_outcome a = Some (perms, err))"
| "carries a RClose e = (map_option fetch_outcome a = Some (entry_res e, entry_err e))"
| "carries a RDelete e = (map_option fetch_outcome a = Some (entry_res e, entry_err e))"
| "carries a RFinished e = (map_option fetch_outcome a = Some (entry_res e, entry_err e))"

definition answers_ok :: "('x, 'w) sdk_state \<Rightarrow> answers \<Rightarrow> bool" where
  "answers_ok s A \<longleftrightarrow> (\<forall>r < length (routines s). carries (A r) (r_pc (routines s ! r)) (entries s ! r))"

lemma answers_ok_caller:
  assumes "caller_step c i s = Some s'" and "answers_ok s A" and "flights_ok s"
  shows "answers_ok s' A"
  using assms(1)
  by (cases rule: caller_step_cases)
    (use assms(2,3) in \<open>auto simp: answers_ok_def flights_ok_def nth_append less_Suc_eq\<close>)

lemma fetch_step:
  assumes "routine_step net c r s = Some s'" and "r_pc (routines s ! r) = RFetch"
  shows "carries (note_answer net c r s A r) (r_pc (routines s' ! r)) e"
  using assms
  by (auto simp: routine_step_def note_answer_def fetch_outcome_def Let_def
      split: prod.splits option.splits if_splits)

lemma answers_ok_routine:
  assumes "routine_step net c r s = Some s'" and "answers_ok s A" and "flights_ok s"
  shows "answers_ok s' (note_answer net c r s A)"
proof -
  have len: "length (routines s) = length (entries s)" using assms(3) by (simp add: flights_ok_def)
  have old: "carries (A q) (r_pc (routines s ! q)) (entries s ! q)" if "q < length (routines s)" for q
    using assms(2) that by (simp add: answers_ok_def)
  have r: "r < length (routines s)" and others: "length (routines s') = length (routines s)"
    "\<And>q. q < length (routines s) \<Longrightarrow> q \<noteq> r \<Longrightarrow> r_pc (routines s' ! q) = r_pc (routines s ! q)"
    "\<And>q. q < length (routines s) \<Longrightarrow> q \<noteq> r \<Longrightarrow> entries s' ! q = entries s ! q"
    using assms(1) by (cases rule: routine_step_cases; simp)+
  have rest: "note_answer net c r s A q = A q" if "q \<noteq> r" for q
    using that by (simp add: note_answer_def Let_def)
  have "carries (note_answer net c r s A r) (r_pc (routines s' ! r)) (entries s' ! r)"
  proof (cases "r_pc (routines s ! r) = RFetch")
    case True
    with assms(1) show ?thesis by (rule fetch_step)
  next
    case False
    then have "note_answer net c r s A = A" by (simp add: note_answer_def)
    with assms(1) show ?thesis
      by (cases rule: routine_step_cases)
        (use old [OF r] r len False in \<open>simp_all add: fetch_outcome_def\<close>)
  qed
  with old others rest show ?thesis
    unfolding answers_ok_def by metis
qed

lemma recorded_answers: "recorded_run net c calls s A \<Longrightarrow> answers_ok s A"
proof (induction rule: recorded_run.induct)
  case (begin_run w)
  then show ?case by (simp add: answers_ok_def idle_def)
next
  case (caller_moves s A i s')
  have "flights_ok s" using reachable_ok [OF recorded_reachable [OF caller_moves(1)]]
    by (simp add: state_ok_def)
  with caller_moves show ?case by (simp add: answers_ok_caller)
next
  case (routine_moves s A r s')
  have "flights_ok s" using reachable_ok [OF recorded_reachable [OF routine_moves(1)]]
    by (simp add: state_ok_def)
  with routine_moves show ?case by (simp add: answers_ok_routine)
next
  case (world_moves s A w)
  then show ?case by (simp add: answers_ok_def)
qed

section \<open>Safety and progress\<close>

lemmas machine_defs = getOrStart_def caller_step_def routine_step_def set_caller_def set_routine_def
  idle_def newInFlight_def flight_key_def new_entry_def

text \<open>Calls and a client whose Helios is down, for the witnesses.\<close>

definition call_uv :: "string \<Rightarrow> string \<Rightarrow> unit api_call" where
  "call_uv u t = \<lparr>call_ctx = (), call_user = u, call_tenant = t\<rparr>"

abbreviation down_client :: "(unit, InMemoryPermissionCache) permissionClient" where
  "down_client \<equiv> client_over mem_cache (Inr server_error)"

lemma reachable_schedule:
  "run_schedule net c ms (idle w calls) = Some s \<Longrightarrow> reachable net c calls s"
  by (rule reachable_prog [OF run_schedule_prog reachable.start])

text \<open>
  C3: At any moment of any run at most one fetch is under way for a key: two goroutines with the
  same key that have not finished are the same, and the map of the coalescer holds exactly the
  entry of that goroutine under the key.
\<close>

theorem single_flight:
  assumes "reachable net c calls s" and "r < length (routines s)" and "q < length (routines s)"
    and "flight_key (r_call (routines s ! r)) = flight_key (r_call (routines s ! q))"
    and "r_pc (routines s ! r) \<noteq> RFinished" and "r_pc (routines s ! q) \<noteq> RFinished"
  shows "r = q \<and> waiter s (flight_key (r_call (routines s ! r))) = Some r"
proof -
  have "flights_ok s" using reachable_ok [OF assms(1)] by (simp add: state_ok_def)
  then have w: "waiter s k = Some e \<longleftrightarrow> e < length (routines s) \<and>
      flight_key (r_call (routines s ! e)) = k \<and> r_pc (routines s ! e) \<noteq> RFinished" for k e
    by (simp add: flights_ok_def)
  let ?k = "flight_key (r_call (routines s ! r))"
  have "waiter s ?k = Some r" using w [of ?k r] assms by simp
  moreover have "waiter s ?k = Some q" using w [of ?k q] assms by simp
  ultimately show ?thesis by simp
qed

definition two_leads :: "(unit, InMemoryPermissionCache) sdk_state option" where
  "two_leads = run_schedule fixed_net down_client
     [Caller 0, Caller 1, Caller 0, Caller 1] (idle mem_start [call_uv ''u'' ''t'', call_uv ''v'' ''t''])"

lemma two_leads_value:
  "\<exists>s. two_leads = Some s \<and> length (routines s) = 2
     \<and> routines s ! 0 = \<lparr>r_call = call_uv ''u'' ''t'', r_pc = RFetch\<rparr>
     \<and> routines s ! 1 = \<lparr>r_call = call_uv ''v'' ''t'', r_pc = RFetch\<rparr>"
  by (simp add: two_leads_def machine_defs mem_Get_def Let_def call_uv_def cache_lookup_def)

theorem single_flight_witness:
  "\<exists>s. two_leads = Some s \<and> waiter s ''u:t'' = Some 0 \<and> waiter s ''v:t'' = Some 1"
proof -
  obtain s where s: "two_leads = Some s" "length (routines s) = 2"
    "routines s ! 0 = \<lparr>r_call = call_uv ''u'' ''t'', r_pc = RFetch\<rparr>"
    "routines s ! 1 = \<lparr>r_call = call_uv ''v'' ''t'', r_pc = RFetch\<rparr>"
    using two_leads_value by blast
  have reach: "reachable fixed_net down_client [call_uv ''u'' ''t'', call_uv ''v'' ''t''] s"
    using s(1) unfolding two_leads_def by (rule reachable_schedule)
  have "waiter s (flight_key (r_call (routines s ! r))) = Some r" if "r < 2" for r
  proof -
    have "r_pc (routines s ! r) = RFetch"
      using s(3,4) that by (cases r) (auto simp: less_Suc_eq numeral_2_eq_2)
    then show ?thesis using single_flight [OF reach, of r r] that s(2) by simp
  qed
  from this [of 0] this [of 1] s have "waiter s ''u:t'' = Some 0" "waiter s ''v:t'' = Some 1"
    by (simp_all add: flight_key_def call_uv_def)
  with s(1) show ?thesis by blast
qed

text \<open>
  C8: All callers that coalesced on a fetch return the same result, and it is what Helios answered
  to the one fetch of their entry, in any run with a record of the answers (every reachable state
  has one): the error of that fetch, or exactly the permissions of its answer. No call returns
  neither a slice nor an error, or both; an answer from the cache is a slice.
\<close>

theorem coalesced_callers_agree:
  assumes "recorded_run net c calls s A" and "ca \<in> set (callers s)" and "c_pc ca = CDone src perms err"
  shows "(perms = None \<longleftrightarrow> err \<noteq> None)
    \<and> (\<forall>e. src = Some e \<longrightarrow> e < length (entries s) \<and> perms = entry_res (entries s ! e)
          \<and> err = entry_err (entries s ! e) \<and> flight_key (c_call ca) = flight_key (r_call (routines s ! e))
          \<and> (case A e of
               None \<Rightarrow> False
             | Some (res, Some e') \<Rightarrow> perms = None \<and> err = Some e'
             | Some (res, None) \<Rightarrow> perms = Some (answer_perms res) \<and> err = None))
    \<and> (\<forall>cb e perms' err'. cb \<in> set (callers s) \<and> src = Some e \<and> c_pc cb = CDone (Some e) perms' err'
          \<longrightarrow> perms' = perms \<and> err' = err)
    \<and> (src = None \<longrightarrow> err = None)"
proof -
  have reach: "reachable net c calls s" by (rule recorded_reachable [OF assms(1)])
  then have ok: "state_ok s" by (rule reachable_ok)
  then have call: "caller_ok s cb" if "cb \<in> set (callers s)" for cb
    using that by (auto simp: state_ok_def callers_ok_def in_set_conv_nth)
  note ca = call [OF assms(2), unfolded caller_ok_def assms(3), simplified]
  have same: "perms' = entry_res (entries s ! e) \<and> err' = entry_err (entries s ! e)"
    if "cb \<in> set (callers s)" "c_pc cb = CDone (Some e) perms' err'" for cb e perms' err'
    using call [OF that(1)] that(2) by (simp add: caller_ok_def)
  show ?thesis
  proof (cases src)
    case None
    with ca show ?thesis by simp
  next
    case (Some e)
    with ca have e: "e < length (entries s)" "entry_done (entries s ! e)"
      "perms = entry_res (entries s ! e)" "err = entry_err (entries s ! e)"
      "flight_key (c_call ca) = flight_key (r_call (routines s ! e))" by simp_all
    have f: "flights_ok s" using ok by (simp add: state_ok_def)
    then have fin: "r_pc (routines s ! e) = RDelete \<or> r_pc (routines s ! e) = RFinished"
      and er: "e < length (routines s)" using e(1,2) by (simp_all add: flights_ok_def)
    have "result_ok perms err"
      using reachable_results [OF reach] fin er e(3,4) by (auto simp: results_ok_def)
    moreover have "map_option fetch_outcome (A e) = Some (perms, err)"
      using recorded_answers [OF assms(1)] fin er e(3,4) by (auto simp: answers_ok_def)
    ultimately show ?thesis using e same Some
      by (auto simp: result_ok_def fetch_outcome_def split: prod.splits option.splits)
  qed
qed

definition shared_run :: "(unit, InMemoryPermissionCache) sdk_state option" where
  "shared_run = run_schedule fixed_net down_client
     [Caller 0, Caller 1, Caller 0, Caller 1, Goroutine 0, Goroutine 0, Goroutine 0, Caller 0, Caller 1]
     (idle mem_start [call_uv ''u'' ''t'', call_uv ''u'' ''t''])"

lemma shared_run_value:
  "\<exists>s err. shared_run = Some s \<and> length (callers s) = 2 \<and> length (routines s) = 1
     \<and> c_pc (callers s ! 0) = CDone (Some 0) None (Some err)
     \<and> (\<exists>perms err'. c_pc (callers s ! 1) = CDone (Some 0) perms err')"
  by (simp add: shared_run_def machine_defs mem_Get_def Let_def call_uv_def cache_lookup_def
      answering_fetch read_response_def server_error_def read_limited_def)

theorem coalesced_callers_agree_witness:
  "\<exists>s A res err. shared_run = Some s
     \<and> recorded_run fixed_net down_client [call_uv ''u'' ''t'', call_uv ''u'' ''t''] s A
     \<and> A 0 = Some (res, Some err) \<and> c_pc (callers s ! 1) = CDone (Some 0) None (Some err)"
proof -
  obtain s err perms err' where s: "shared_run = Some s" "length (callers s) = 2"
    "c_pc (callers s ! 0) = CDone (Some 0) None (Some err)"
    "c_pc (callers s ! 1) = CDone (Some 0) perms err'"
    using shared_run_value by blast
  have "reachable fixed_net down_client [call_uv ''u'' ''t'', call_uv ''u'' ''t''] s"
    using s(1) unfolding shared_run_def by (rule reachable_schedule)
  then obtain A where run: "recorded_run fixed_net down_client [call_uv ''u'' ''t'', call_uv ''u'' ''t''] s A"
    using reachable_recorded by blast
  have "callers s ! 0 \<in> set (callers s)" "callers s ! 1 \<in> set (callers s)" using s(2) by simp_all
  with coalesced_callers_agree [OF run this(1) s(3)] s(4)
  have "\<exists>res. A 0 = Some (res, Some err)" "perms = None" "err' = Some err"
    by (auto split: option.splits prod.splits)
  with s(1,4) run show ?thesis by blast
qed

text \<open>
  C6: Every call returns: from any reachable state, however the rest of the world changed before,
  the program can still make at most eight steps for each call given, each of its steps lowers
  that bound, a change of the world does not raise it, and as long as a call has not returned some
  process can move: no deadlock and no lost wake-up.
\<close>

theorem every_call_returns:
  assumes "reachable net c calls s"
  shows "steps_left s \<le> 8 * length calls
    \<and> (\<forall>s'. prog_step net c s s' \<longrightarrow> steps_left s' < steps_left s)
    \<and> (\<forall>w. steps_left (s\<lparr>world := w\<rparr>) = steps_left s)
    \<and> ((\<exists>ca \<in> set (callers s). \<not> caller_returned ca) \<longrightarrow> (\<exists>s'. prog_step net c s s'))"
proof -
  have "steps_left s \<le> 8 * length calls"
    using assms
  proof (induction rule: reachable.induct)
    case (start w)
    then show ?case by (simp add: steps_left_def idle_def)
  next
    case (step s s')
    from step(2) show ?case
    proof (rule sys_stepE)
      assume "prog_step net c s s'"
      from steps_left_prog [OF this] step(3) show ?thesis by simp
    next
      fix w
      assume "s' = s\<lparr>world := w\<rparr>"
      with step(3) show ?thesis by (simp add: steps_left_def)
    qed
  qed
  then show ?thesis
    using steps_left_prog never_stuck [OF reachable_ok [OF assms]] by (auto simp: steps_left_def)
qed

theorem every_call_returns_witness:
  "\<exists>s'. prog_step fixed_net down_client (idle mem_start [call_uv ''u'' ''t'']) s'"
proof -
  have reach: "reachable fixed_net down_client [call_uv ''u'' ''t''] (idle mem_start [call_uv ''u'' ''t''])"
    by (rule reachable.start)
  have "\<exists>ca \<in> set (callers (idle mem_start [call_uv ''u'' ''t''])). \<not> caller_returned ca"
    by (simp add: idle_def caller_returned_def)
  with every_call_returns [OF reach] show ?thesis by (simp add: idle_def caller_returned_def)
qed

lemma runs_end: "\<exists>s'. (prog_step net c)\<^sup>*\<^sup>* s s' \<and> (\<nexists>s''. prog_step net c s' s'')"
proof (induction "steps_left s" arbitrary: s rule: less_induct)
  case less
  show ?case
  proof (cases "\<exists>s'. prog_step net c s s'")
    case True
    then obtain s1 where s1: "prog_step net c s s1" by blast
    from less.hyps [OF steps_left_prog [OF s1]] show ?thesis
      using s1 by (meson converse_rtranclp_into_rtranclp)
  qed blast
qed

section \<open>A call that runs alone\<close>

text \<open>What the only call of a run will return, and the world it will leave.\<close>

fun routine_outcome ::
    "('x, 'w) net \<Rightarrow> ('x, 'w) permissionClient \<Rightarrow> 'x api_call \<Rightarrow> inFlightEntry \<Rightarrow> 'w \<Rightarrow> routine_pc
       \<Rightarrow> (Permission slice \<times> go_error option) \<times> 'w" where
  "routine_outcome net c call e w RFetch =
     fetchAndPopulate net c (call_ctx call) (call_user call) (call_tenant call) w"
| "routine_outcome net c call e w (RStore res) = populate c (call_user call) (call_tenant call) res w"
| "routine_outcome net c call e w (RAssign perms err) = ((perms, err), w)"
| "routine_outcome net c call e w RClose = ((entry_res e, entry_err e), w)"
| "routine_outcome net c call e w RDelete = ((entry_res e, entry_err e), w)"
| "routine_outcome net c call e w RFinished = ((entry_res e, entry_err e), w)"

text \<open>The states of such a run, with the outcome that each leads to.\<close>

inductive lone ::
    "('x, 'w) net \<Rightarrow> ('x, 'w) permissionClient \<Rightarrow> 'x api_call
       \<Rightarrow> (Permission slice \<times> go_error option) \<times> 'w \<Rightarrow> ('x, 'w) sdk_state \<Rightarrow> bool"
  for net c call out where
  before: "fetchAndCache net c (call_ctx call) (call_user call) (call_tenant call) w = out \<Longrightarrow>
     lone net c call out \<lparr>world = w, waiter = newInFlight, entries = [], routines = [],
       callers = [\<lparr>c_call = call, c_pc = CStart\<rparr>]\<rparr>"
| hit: "((perms, err), w) = out \<Longrightarrow>
     lone net c call out \<lparr>world = w, waiter = newInFlight, entries = [], routines = [],
       callers = [\<lparr>c_call = call, c_pc = CDone None perms err\<rparr>]\<rparr>"
| missed: "fetchAndPopulate net c (call_ctx call) (call_user call) (call_tenant call) w = out \<Longrightarrow>
     lone net c call out \<lparr>world = w, waiter = newInFlight, entries = [], routines = [],
       callers = [\<lparr>c_call = call, c_pc = CMissed\<rparr>]\<rparr>"
| waiting: "routine_outcome net c call e w pc = out \<Longrightarrow>
     entry_done e \<longleftrightarrow> pc = RDelete \<or> pc = RFinished \<Longrightarrow>
     m = (if pc = RFinished then newInFlight else newInFlight(flight_key call \<mapsto> 0)) \<Longrightarrow>
     lone net c call out \<lparr>world = w, waiter = m, entries = [e],
       routines = [\<lparr>r_call = call, r_pc = pc\<rparr>],
       callers = [\<lparr>c_call = call, c_pc = CWaiting 0\<rparr>]\<rparr>"
| returned: "((perms, err), w) = out \<Longrightarrow> pc = RDelete \<or> pc = RFinished \<Longrightarrow>
     m = (if pc = RFinished then newInFlight else newInFlight(flight_key call \<mapsto> 0)) \<Longrightarrow>
     lone net c call out \<lparr>world = w, waiter = m, entries = [e],
       routines = [\<lparr>r_call = call, r_pc = pc\<rparr>],
       callers = [\<lparr>c_call = call, c_pc = CDone (Some 0) perms err\<rparr>]\<rparr>"

lemma lone_caller:
  assumes "lone net c call out s" and "caller_step c i s = Some s'"
  shows "lone net c call out s'"
proof -
  have i: "i = 0" using assms by (cases rule: lone.cases) (auto simp: caller_step_def split: if_splits)
  from assms(1) show ?thesis
  proof (cases rule: lone.cases)
    case (before w)
    obtain cached w1 where l: "cache_lookup c (call_user call) (call_tenant call) w = (cached, w1)"
      by fastforce
    show ?thesis
    proof (cases cached)
      case None
      with before l assms(2) i show ?thesis
        by (auto simp: caller_step_def set_caller_def fetchAndCache_def intro!: lone.missed)
    next
      case (Some ps)
      with before l assms(2) i show ?thesis
        by (auto simp: caller_step_def set_caller_def fetchAndCache_def intro!: lone.hit)
    qed
  next
    case (missed w)
    with assms(2) i show ?thesis
      by (auto simp: caller_step_def getOrStart_def set_caller_def newInFlight_def new_entry_def
          intro!: lone.waiting [unfolded newInFlight_def])
  next
    case (waiting e w pc m)
    with assms(2) i show ?thesis
      by (auto simp: caller_step_def set_caller_def split: if_splits intro!: lone.returned)
  qed (use assms(2) i in \<open>auto simp: caller_step_def\<close>)
qed

lemma lone_routine:
  assumes "lone net c call out s" and "routine_step net c r s = Some s'"
  shows "lone net c call out s'"
  using assms(1)
proof (cases rule: lone.cases)
  case (waiting e w pc m)
  have r: "r = 0" using assms(2) waiting by (auto simp: routine_step_def split: if_splits)
  show ?thesis
  proof (cases pc)
    case RFetch
    obtain res err w1 where f: "FetchUserPermissions net (helios c) (call_ctx call) (call_user call) (call_tenant call) w
        = ((res, err), w1)" by (metis prod.exhaust)
    show ?thesis
    proof (cases err)
      case None
      with waiting RFetch r f assms(2) show ?thesis
        by (auto simp: routine_step_def set_routine_def fetchAndPopulate_def intro!: lone.waiting)
    next
      case (Some x)
      with waiting RFetch r f assms(2) show ?thesis
        by (auto simp: routine_step_def set_routine_def fetchAndPopulate_def intro!: lone.waiting)
    qed
  next
    case (RStore res)
    with waiting r assms(2) show ?thesis
      by (auto simp: routine_step_def set_routine_def split: prod.splits intro!: lone.waiting)
  next
    case (RAssign perms err)
    with waiting r assms(2) show ?thesis
      by (auto simp: routine_step_def set_routine_def intro!: lone.waiting)
  next
    case RClose
    with waiting r assms(2) show ?thesis
      by (auto simp: routine_step_def set_routine_def intro!: lone.waiting)
  next
    case RDelete
    with waiting r assms(2) show ?thesis
      by (auto simp: routine_step_def set_routine_def newInFlight_def fun_eq_iff intro!: lone.waiting)
  next
    case RFinished
    with waiting r assms(2) show ?thesis by (auto simp: routine_step_def)
  qed
next
  case (returned perms err w pc m e)
  have r: "r = 0" using assms(2) returned by (auto simp: routine_step_def split: if_splits)
  with returned show ?thesis
    using assms(2) by (auto simp: routine_step_def set_routine_def newInFlight_def fun_eq_iff
        intro!: lone.returned)
qed (use assms(2) in \<open>simp_all add: routine_step_def\<close>)

lemma lone_run: "(prog_step net c)\<^sup>*\<^sup>* s s' \<Longrightarrow> lone net c call out s \<Longrightarrow> lone net c call out s'"
  by (induction rule: rtranclp_induct) (auto elim!: prog_stepE intro: lone_caller lone_routine)

text \<open>
  C7: The concurrent machine refines the sequential client: a call that runs alone, in whatever
  order it and the goroutine it starts move, comes to an end; it has then returned what
  \<open>fetchAndCache\<close> returns and left the world that \<open>fetchAndCache\<close> leaves, and the coalescer's map
  is empty again.
\<close>

theorem lone_call_is_sequential:
  assumes "(prog_step net c)\<^sup>*\<^sup>* (idle w [call]) s" and "\<nexists>s'. prog_step net c s s'"
  shows "\<exists>src perms err w'. fetchAndCache net c (call_ctx call) (call_user call) (call_tenant call) w
      = ((perms, err), w')
    \<and> c_pc (callers s ! 0) = CDone src perms err \<and> world s = w' \<and> waiter s = newInFlight"
proof -
  let ?out = "fetchAndCache net c (call_ctx call) (call_user call) (call_tenant call) w"
  have "lone net c call ?out (idle w [call])"
    using lone.before [of net c call w ?out] by (simp add: idle_def)
  from lone_run [OF assms(1) this] have l: "lone net c call ?out s" .
  have ok: "state_ok s"
    by (rule reachable_ok [OF reachable_prog [OF assms(1) reachable.start]])
  have all: "caller_returned ca" if "ca \<in> set (callers s)" for ca
    using never_stuck [OF ok that] assms(2) by blast
  have fin: "r_pc (routines s ! r) = RFinished" if "r < length (routines s)" for r
    using routine_enabled [OF that] assms(2) by (metis prog_step.by_routine)
  from l show ?thesis
  proof (cases rule: lone.cases)
    case (hit perms err w1)
    then show ?thesis by (auto intro: exI [of _ perms])
  next
    case (returned perms err w1 pc m e)
    then show ?thesis using fin [of 0] by auto
  qed (use all in \<open>auto simp: caller_returned_def\<close>)
qed
theorem lone_call_is_sequential_witness:
  "\<exists>s src err. (prog_step fixed_net down_client)\<^sup>*\<^sup>* (idle mem_start [call_uv ''u'' ''t'']) s
     \<and> c_pc (callers s ! 0) = CDone src None (Some err) \<and> world s = mem_start"
proof -
  obtain s where s: "(prog_step fixed_net down_client)\<^sup>*\<^sup>* (idle mem_start [call_uv ''u'' ''t'']) s"
    "\<nexists>s'. prog_step fixed_net down_client s s'"
    using runs_end by blast
  have "\<exists>err. fetchAndCache fixed_net down_client () ''u'' ''t'' mem_start = ((None, Some err), mem_start)"
    by (simp add: fetchAndCache_def cache_lookup_def mem_Get_def fetchAndPopulate_def answering_fetch
        read_response_def server_error_def read_limited_def)
  with lone_call_is_sequential [OF s] s(1) show ?thesis by (auto simp: call_uv_def)
qed

section \<open>Whose permissions a caller gets\<close>

text \<open>
  For users without a colon the coalescer never mixes identities: the fetch a caller waits
  for, or got its result from, is for its own user and its own tenant.
\<close>

lemma coalesced_identity:
  assumes "reachable net c calls s" and "ca \<in> set (callers s)"
    and "c_pc ca = CWaiting e \<or> c_pc ca = CDone (Some e) perms err"
    and "colon_free (call_user (c_call ca))" and "colon_free (call_user (r_call (routines s ! e)))"
  shows "call_user (r_call (routines s ! e)) = call_user (c_call ca)
    \<and> call_tenant (r_call (routines s ! e)) = call_tenant (c_call ca)"
proof -
  have "caller_ok s ca"
    using reachable_ok [OF assms(1)] assms(2)
    by (auto simp: state_ok_def callers_ok_def in_set_conv_nth)
  with assms(3) have "flight_key (r_call (routines s ! e)) = flight_key (c_call ca)"
    by (auto simp: caller_ok_def)
  from append_colon_inj [OF assms(5) [unfolded colon_free_def] assms(4) [unfolded colon_free_def]
      this [unfolded flight_key_def]]
  show ?thesis .
qed

text \<open>
  C36: With a colon in an identifier it does mix them: a call for the user \<open>u\<close> in tenant \<open>v:t\<close>
  that arrives while the fetch for the user \<open>u:v\<close> in tenant \<open>t\<close> is under way returns the result
  of that fetch, another user's permissions in another tenant, or the error of a context that is
  not its own.
\<close>

theorem coalescing_mixes_identities:
  assumes "cache_lookup c (u @ '':'' @ v) t w = (None, w)" and "cache_lookup c u (v @ '':'' @ t) w = (None, w)"
    and "fst (fetchAndPopulate net c ctx (u @ '':'' @ v) t w) = (perms, err)"
  shows "\<exists>s. reachable net c
        [\<lparr>call_ctx = ctx, call_user = u @ '':'' @ v, call_tenant = t\<rparr>,
         \<lparr>call_ctx = ctx', call_user = u, call_tenant = v @ '':'' @ t\<rparr>] s
    \<and> callers s ! 1 = \<lparr>c_call = \<lparr>call_ctx = ctx', call_user = u, call_tenant = v @ '':'' @ t\<rparr>,
         c_pc = CDone (Some 0) perms err\<rparr>"
proof -
  let ?A = "\<lparr>call_ctx = ctx, call_user = u @ '':'' @ v, call_tenant = t\<rparr>"
  let ?B = "\<lparr>call_ctx = ctx', call_user = u, call_tenant = v @ '':'' @ t\<rparr>"
  let ?pre = "[Caller 0, Caller 1, Caller 0, Caller 1]"
  obtain res e w1 where f: "FetchUserPermissions net (helios c) ctx (u @ '':'' @ v) t w = ((res, e), w1)"
    by (metis prod.exhaust)
  have "\<exists>ms s. run_schedule net c ms (idle w [?A, ?B]) = Some s \<and>
      callers s ! 1 = \<lparr>c_call = ?B, c_pc = CDone (Some 0) perms err\<rparr>"
  proof (cases e)
    case None
    obtain w2 where p: "populate c (u @ '':'' @ v) t res w1 = ((perms, err), w2)"
      using assms(3) f None by (cases "populate c (u @ '':'' @ v) t res w1") (simp add: fetchAndPopulate_def)
    show ?thesis
      by (rule exI [of _ "?pre @ [Goroutine 0, Goroutine 0, Goroutine 0, Goroutine 0, Caller 1]"])
        (use assms(1,2) f p None in \<open>simp add: machine_defs Let_def\<close>)
  next
    case (Some e')
    have pe: "perms = None" "err = Some e'" using assms(3) f Some by (simp_all add: fetchAndPopulate_def)
    show ?thesis
      by (rule exI [of _ "?pre @ [Goroutine 0, Goroutine 0, Goroutine 0, Caller 1]"])
        (use assms(1,2) f pe Some in \<open>simp add: machine_defs Let_def\<close>)
  qed
  then obtain ms s where "run_schedule net c ms (idle w [?A, ?B]) = Some s"
    "callers s ! 1 = \<lparr>c_call = ?B, c_pc = CDone (Some 0) perms err\<rparr>" by blast
  then show ?thesis by (intro exI [of _ s] conjI reachable_schedule)
qed

theorem coalescing_mixes_identities_witness:
  "\<exists>s. reachable fixed_net (client_over mem_cache (Inr not_found)
         :: (unit, InMemoryPermissionCache) permissionClient) [call_uv ''u:v'' ''t'', call_uv ''u'' ''v:t''] s
     \<and> callers s ! 1 = \<lparr>c_call = call_uv ''u'' ''v:t'', c_pc = CDone (Some 0) (Some []) None\<rparr>"
proof -
  let ?c = "client_over mem_cache (Inr not_found) :: (unit, InMemoryPermissionCache) permissionClient"
  have "cache_lookup ?c (''u'' @ '':'' @ ''v'') ''t'' mem_start = (None, mem_start)"
    "cache_lookup ?c ''u'' (''v'' @ '':'' @ ''t'') mem_start = (None, mem_start)"
    by (simp_all add: cache_lookup_def mem_Get_def)
  moreover have "fst (fetchAndPopulate fixed_net ?c () (''u'' @ '':'' @ ''v'') ''t'' mem_start) = (Some [], None)"
    by (simp add: fetchAndPopulate_result answering_fetch read_not_found)
  ultimately show ?thesis
    using coalescing_mixes_identities [of ?c "''u''" "''v''" "''t''" mem_start fixed_net "()" "Some []" None "()"]
    by (simp add: call_uv_def)
qed

section \<open>How many fetches\<close>

text \<open>The callers that have joined or led a fetch.\<close>

definition joined :: "('x, 'w) sdk_state \<Rightarrow> nat set" where
  "joined s = {i. i < length (callers s) \<and> c_pc (callers s ! i) \<noteq> CStart \<and> c_pc (callers s ! i) \<noteq> CMissed}"

lemma finite_joined [simp]: "finite (joined s)" by (simp add: joined_def)

lemma joined_caller:
  assumes "caller_step c i s = Some s'"
  shows "joined s \<subseteq> joined s'
    \<and> (length (routines s') = length (routines s) \<or>
       length (routines s') = Suc (length (routines s)) \<and> i \<in> joined s' - joined s)"
  using assms
  by (cases rule: caller_step_cases)
    (use caller_step_others [OF assms] in \<open>auto simp: joined_def split: if_splits\<close>)

lemma fetches_le_joined: "reachable net c calls s \<Longrightarrow> length (routines s) \<le> card (joined s)"
proof (induction rule: reachable.induct)
  case (start w)
  then show ?case by (simp add: idle_def)
next
  case (step s s')
  from step(2) show ?case
  proof (elim sys_stepE prog_stepE)
    fix i
    assume st: "caller_step c i s = Some s'"
    show ?thesis
    proof (cases "length (routines s') = length (routines s)")
      case True
      have "card (joined s) \<le> card (joined s')"
        using joined_caller [OF st] by (intro card_mono) auto
      with True step(3) show ?thesis by simp
    next
      case False
      then have "insert i (joined s) \<subseteq> joined s'" "i \<notin> joined s"
        "length (routines s') = Suc (length (routines s))"
        using joined_caller [OF st] by auto
      then have "Suc (card (joined s)) \<le> card (joined s')"
        by (metis card_insert_disjoint card_mono finite_joined)
      with step(3) \<open>length (routines s') = Suc (length (routines s))\<close> show ?thesis by simp
    qed
  next
    fix r
    assume st: "routine_step net c r s = Some s'"
    have "length (routines s') = length (routines s)"
      using st by (cases rule: routine_step_cases) simp_all
    with step(3) routine_step_callers [OF st] show ?thesis by (simp add: joined_def)
  next
    fix w
    assume "s' = s\<lparr>world := w\<rparr>"
    with step(3) show ?thesis by (simp add: joined_def)
  qed
qed

text \<open>A goroutine can run to its end with nobody else moving.\<close>

lemma routine_runs:
  assumes "r < length (routines s)" and "r_pc (routines s ! r) \<noteq> RFinished"
  shows "\<exists>s'. (prog_step net c)\<^sup>*\<^sup>* s s' \<and> callers s' = callers s
    \<and> length (routines s') = length (routines s) \<and> r_pc (routines s' ! r) = RFinished
    \<and> (\<forall>q < length (routines s). q \<noteq> r \<longrightarrow> routines s' ! q = routines s ! q)
    \<and> waiter s' = (waiter s)(flight_key (r_call (routines s ! r)) := None)"
  using assms
proof (induction "routine_left (r_pc (routines s ! r))" arbitrary: s rule: less_induct)
  case less
  from routine_enabled [OF less.prems] obtain s1 where st: "routine_step net c r s = Some s1" by blast
  then have step: "prog_step net c s s1" by (rule prog_step.by_routine)
  have s1: "callers s1 = callers s" "length (routines s1) = length (routines s)"
    "r_call (routines s1 ! r) = r_call (routines s ! r)"
    "routine_left (r_pc (routines s1 ! r)) < routine_left (r_pc (routines s ! r))"
    using st less.prems by (cases rule: routine_step_cases; simp)+
  have others: "\<forall>q < length (routines s). q \<noteq> r \<longrightarrow> routines s1 ! q = routines s ! q"
    using st by (cases rule: routine_step_cases) (simp_all add: set_routine_def)
  have w: "waiter s1 = (if r_pc (routines s1 ! r) = RFinished
      then (waiter s)(flight_key (r_call (routines s ! r)) := None) else waiter s)"
    using st less.prems by (cases rule: routine_step_cases) simp_all
  show ?case
  proof (cases "r_pc (routines s1 ! r) = RFinished")
    case True
    with step s1 others w show ?thesis by (intro exI [of _ s1]) simp
  next
    case False
    have "r < length (routines s1)" using less.prems s1(2) by simp
    from less.hyps [OF s1(4) this False] obtain s' where "(prog_step net c)\<^sup>*\<^sup>* s1 s'"
      "callers s' = callers s1" "length (routines s') = length (routines s1)"
      "r_pc (routines s' ! r) = RFinished"
      "\<forall>q < length (routines s1). q \<noteq> r \<longrightarrow> routines s' ! q = routines s1 ! q"
      "waiter s' = (waiter s1)(flight_key (r_call (routines s1 ! r)) := None)" by blast
    with step s1 others w False show ?thesis
      by (intro exI [of _ s']) (auto intro: converse_rtranclp_into_rtranclp)
  qed
qed

text \<open>The callers of one call: the first ones have moved on, the others have not.\<close>

definition fleet :: "'x api_call \<Rightarrow> caller_pc list \<Rightarrow> 'x caller list" where
  "fleet call pcs = map (\<lambda>pc. \<lparr>c_call = call, c_pc = pc\<rparr>) pcs"

lemma fleet_simps:
  "length (fleet call pcs) = length pcs"
  "i < length pcs \<Longrightarrow> fleet call pcs ! i = \<lparr>c_call = call, c_pc = pcs ! i\<rparr>"
  "(fleet call pcs)[i := \<lparr>c_call = call, c_pc = pc\<rparr>] = fleet call (pcs[i := pc])"
  by (simp_all add: fleet_def map_update)

lemma all_miss:
  assumes "client_on_cache ops key raw dec enc storable avail net c" and "avail w"
    and "raw w (key (call_user call) (call_tenant call)) = None"
  shows "\<exists>w'. (prog_step net c)\<^sup>*\<^sup>* (idle w (replicate (j + m) call))
    \<lparr>world = w', waiter = newInFlight, entries = [], routines = [],
     callers = fleet call (replicate j CMissed @ replicate m CStart)\<rparr>
    \<and> avail w' \<and> raw w' = raw w"
proof (induction j arbitrary: m)
  case 0
  have "idle w (replicate m call) = \<lparr>world = w, waiter = newInFlight, entries = [], routines = [],
     callers = fleet call (replicate m CStart)\<rparr>"
    by (simp add: idle_def fleet_def)
  then show ?case using assms(2) by auto
next
  case (Suc j)
  note loc = assms(1)
  have pc: "permission_cache ops key raw dec enc storable avail"
    using loc by (rule client_on_cache.axioms(1))
  let ?u = "call_user call" and ?t = "call_tenant call"
  let ?s = "\<lambda>w' pcs. \<lparr>world = w', waiter = newInFlight, entries = [], routines = [],
     callers = fleet call pcs\<rparr>"
  from Suc.IH [of "Suc m"] obtain w1 where
    run: "(prog_step net c)\<^sup>*\<^sup>* (idle w (replicate (j + Suc m) call))
      (?s w1 (replicate j CMissed @ replicate (Suc m) CStart))"
    and w1: "avail w1" "raw w1 = raw w" by blast
  let ?w2 = "snd (cache_Get ops ?u ?t w1)"
  have "permission_cache.view key raw dec w1 ?u ?t = None"
    using w1(2) assms(3) by (simp add: permission_cache.view_def [OF pc])
  then have miss: "cache_lookup c ?u ?t w1 = (None, ?w2)"
    using client_on_cache.lookup_avail [OF loc w1(1), of ?u ?t] by simp
  have "(replicate j CMissed @ CStart # replicate m CStart)[j := CMissed]
      = replicate (Suc j) CMissed @ replicate m CStart"
    using list_update_length [of "replicate j CMissed" CStart "replicate m CStart" CMissed]
    by (simp add: replicate_app_Cons_same)
  then have "caller_step c j (?s w1 (replicate j CMissed @ replicate (Suc m) CStart))
      = Some (?s ?w2 (replicate (Suc j) CMissed @ replicate m CStart))"
    using miss by (simp add: caller_step_def set_caller_def fleet_simps nth_append)
  then have "prog_step net c (?s w1 (replicate j CMissed @ replicate (Suc m) CStart))
      (?s ?w2 (replicate (Suc j) CMissed @ replicate m CStart))"
    by (rule prog_step.by_caller)
  with run have "(prog_step net c)\<^sup>*\<^sup>* (idle w (replicate (Suc j + m) call))
      (?s ?w2 (replicate (Suc j) CMissed @ replicate m CStart))"
    by simp
  moreover have "avail ?w2" "raw ?w2 = raw w"
    using permission_cache.get_avail [OF pc w1(1)] permission_cache.get_effect [OF pc w1(1)] w1(2) by simp_all
  ultimately show ?case by blast
qed

text \<open>From there one caller after the other can lead a fetch that ends before the next begins.\<close>

lemma serial_fetches:
  assumes "callers s0 = fleet call (replicate n CMissed)" and "state_ok s0"
    and "waiter s0 (flight_key call) = None" and "routines s0 = []" and "j \<le> n"
  shows "\<exists>s. (prog_step net c)\<^sup>*\<^sup>* s0 s \<and> length (routines s) = j \<and> waiter s (flight_key call) = None
    \<and> (\<forall>r < j. r_pc (routines s ! r) = RFinished)
    \<and> (\<forall>i. j \<le> i \<and> i < n \<longrightarrow> callers s ! i = \<lparr>c_call = call, c_pc = CMissed\<rparr>)
    \<and> length (callers s) = n \<and> state_ok s"
  using assms(5)
proof (induction j)
  case 0
  then show ?case using assms(1-4) by (intro exI [of _ s0]) (simp add: fleet_simps)
next
  case (Suc j)
  then obtain s where s: "(prog_step net c)\<^sup>*\<^sup>* s0 s" "length (routines s) = j"
    "waiter s (flight_key call) = None" "\<forall>r < j. r_pc (routines s ! r) = RFinished"
    "\<forall>i. j \<le> i \<and> i < n \<longrightarrow> callers s ! i = \<lparr>c_call = call, c_pc = CMissed\<rparr>"
    "length (callers s) = n" "state_ok s" by auto
  have j: "j < n" "callers s ! j = \<lparr>c_call = call, c_pc = CMissed\<rparr>" using s(5) Suc.prems by auto
  have len: "length (entries s) = j" using s(2,7) by (simp add: state_ok_def flights_ok_def)
  define s1 where "s1 = getOrStart j call s"
  have st: "caller_step c j s = Some s1"
    using j s(6) by (simp add: caller_step_def s1_def)
  then have step: "prog_step net c s s1" by (rule prog_step.by_caller)
  have s1: "routines s1 = routines s @ [\<lparr>r_call = call, r_pc = RFetch\<rparr>]"
    "\<And>i. i \<noteq> j \<Longrightarrow> callers s1 ! i = callers s ! i" "length (callers s1) = n" "state_ok s1"
    using s(3,6) caller_step_others [OF st] state_ok_prog [OF step s(7)]
    by (simp_all add: s1_def getOrStart_def Let_def)
  have "j < length (routines s1)" "r_pc (routines s1 ! j) \<noteq> RFinished"
    using s1(1) s(2) by (simp_all add: nth_append)
  from routine_runs [OF this, of net c] obtain s2 where s2: "(prog_step net c)\<^sup>*\<^sup>* s1 s2"
    "callers s2 = callers s1" "length (routines s2) = length (routines s1)"
    "r_pc (routines s2 ! j) = RFinished"
    "\<forall>q < length (routines s1). q \<noteq> j \<longrightarrow> routines s2 ! q = routines s1 ! q"
    "waiter s2 = (waiter s1)(flight_key (r_call (routines s1 ! j)) := None)" by blast
  have "(prog_step net c)\<^sup>*\<^sup>* s s2" using step s2(1) by (rule converse_rtranclp_into_rtranclp)
  with s(1) have run: "(prog_step net c)\<^sup>*\<^sup>* s0 s2" by (rule rtranclp_trans)
  have "state_ok s2" using s2(1) s1(4) by (induction rule: rtranclp_induct) (auto intro: state_ok_prog)
  moreover have "r_pc (routines s2 ! r) = RFinished" if "r < Suc j" for r
    using that s(2,4) s1(1) s2(4,5) by (cases "r = j") (auto simp: nth_append less_Suc_eq)
  moreover have "waiter s2 (flight_key call) = None" using s2(6) s1(1) s(2) by (simp add: nth_append)
  ultimately show ?case
    using run s(2,5) s1 s2(2,3) by (intro exI [of _ s2]) auto
qed

text \<open>
  C37: Coalescing bounds the fetches of overlapping calls only by their number, and the bound is
  reached: however many calls for one absent pair begin before the first of them has an answer,
  there is a run in which each of them makes a fetch of its own, because a caller that has missed
  the cache does not look at it again after the fetch it could have joined has ended.
\<close>

theorem fetch_count_is_tight:
  assumes "client_on_cache ops key raw dec enc storable avail net c" and "avail w"
    and "raw w (key (call_user call) (call_tenant call)) = None"
  shows "(\<forall>s calls. reachable net c calls s \<longrightarrow> length (routines s) \<le> length calls)
    \<and> (\<exists>s. (prog_step net c)\<^sup>*\<^sup>* (idle w (replicate n call)) s \<and> length (routines s) = n
        \<and> (\<forall>r < n. r_pc (routines s ! r) = RFinished))"
proof
  show "\<forall>s calls. reachable net c calls s \<longrightarrow> length (routines s) \<le> length calls"
  proof (intro allI impI)
    fix s calls
    assume r: "reachable net c calls s"
    have "length (routines s) \<le> card (joined s)" by (rule fetches_le_joined [OF r])
    also have "\<dots> \<le> length (callers s)"
      using card_mono [of "{..<length (callers s)}" "joined s"] by (auto simp: joined_def)
    also have "\<dots> = length calls" using reachable_calls [OF r] by (metis length_map)
    finally show "length (routines s) \<le> length calls" .
  qed
  from all_miss [OF assms, of n 0] obtain w' where
    run: "(prog_step net c)\<^sup>*\<^sup>* (idle w (replicate n call)) \<lparr>world = w', waiter = newInFlight, entries = [],
      routines = [], callers = fleet call (replicate n CMissed)\<rparr>" by auto
  let ?s0 = "\<lparr>world = w', waiter = newInFlight, entries = [], routines = [],
      callers = fleet call (replicate n CMissed)\<rparr>"
  have "state_ok ?s0"
    by (rule reachable_ok [OF reachable_prog [OF run reachable.start]])
  from serial_fetches [of ?s0 call n n net c, OF _ this] obtain s where
    s: "(prog_step net c)\<^sup>*\<^sup>* ?s0 s" "length (routines s) = n" "\<forall>r < n. r_pc (routines s ! r) = RFinished"
    by (auto simp: newInFlight_def)
  from run s(1) have "(prog_step net c)\<^sup>*\<^sup>* (idle w (replicate n call)) s" by (rule rtranclp_trans)
  with s(2,3) show "\<exists>s. (prog_step net c)\<^sup>*\<^sup>* (idle w (replicate n call)) s \<and> length (routines s) = n
        \<and> (\<forall>r < n. r_pc (routines s ! r) = RFinished)" by blast
qed

theorem fetch_count_is_tight_witness:
  "\<exists>s. (prog_step fixed_net down_client)\<^sup>*\<^sup>* (idle mem_start (replicate 10 (call_uv ''u'' ''t''))) s
     \<and> length (routines s) = 10"
proof -
  show ?thesis
    using fetch_count_is_tight [OF mem.client_on_cache_axioms, where w = mem_start and n = 10
        and call = "call_uv ''u'' ''t''" and answer1 = "Inr server_error"] by fastforce
qed

section \<open>Revocation during a fetch\<close>

text \<open>
  C33: A fetch under way can undo a revocation: let its answer, which granted \<open>ps\<close>, be on the way
  to the cache. If the revocation is an invalidation, \<open>Set\<close> finds the key absent and stores the
  old answer, and every later check grants \<open>ps\<close> from the cache without asking Helios. Only if it
  is a write-through does the \<open>NX\<close> of \<open>Set\<close> keep the new value.
\<close>

theorem revocation_race:
  assumes "client_on_cache ops key raw dec enc storable avail net c" and "avail (world s)"
    and "r < length (routines s)" and "r_pc (routines s ! r) = RStore (Some m)"
    and "Status m = ''active''" and "Permissions m = Some ps" and "storable ps" and "storable qs"
    and "call_user (r_call (routines s ! r)) = u" and "call_tenant (r_call (routines s ! r)) = t"
    and "\<not> IsUniversalPerm p"
  shows "(\<exists>w' s'. client_Invalidate c u t (world s) = (None, w')
        \<and> routine_step net c r (s\<lparr>world := w'\<rparr>) = Some s'
        \<and> (\<forall>net' ctx. fst (CallerHasPermission net' c ctx u t p (world s')) = (p \<in> set ps, None)))
    \<and> (\<exists>w' s'. client_WriteThrough c u t (Some qs) (world s) = (None, w')
        \<and> routine_step net c r (s\<lparr>world := w'\<rparr>) = Some s'
        \<and> (\<forall>net' ctx. fst (CallerHasPermission net' c ctx u t p (world s')) = (p \<in> set qs, None)))"
proof -
  note loc = assms(1)
  have pc: "permission_cache ops key raw dec enc storable avail"
    using loc by (rule client_on_cache.axioms(1))
  have ops: "cache c = ops" using loc by (rule client_on_cache.client_cache)
  have ans: "answer_perms (Some m) = ps" using assms(5,6) by (simp add: answer_perms_def)
  have store: "\<exists>s'. routine_step net c r (s\<lparr>world := w'\<rparr>) = Some s'
      \<and> world s' = snd (cache_Set ops u t (Some ps) w')" if "avail w'" for w'
    using client_on_cache.populate_avail [OF loc that, of u t "Some m"] assms(3,4,9,10) ans
    by (simp add: routine_step_def)
  have read: "fst (CallerHasPermission net' c ctx u t p w1) = (p \<in> set xs, None)"
    if "avail w1" "raw w1 (key u t) = Some (enc (Some xs))" "storable xs" for net' ctx w1 xs
  proof -
    have "permission_cache.view key raw dec w1 u t = Some xs"
      using that permission_cache.dec_enc [OF pc] by (simp add: permission_cache.view_def [OF pc])
    then have "cache_lookup c u t w1 = (Some xs, snd (cache_Get ops u t w1))"
      using client_on_cache.lookup_avail [OF loc that(1)] by simp
    from readers_on_result(1) [OF fetchAndCache_hit [OF this] assms(11)] show ?thesis by simp
  qed
  obtain w1 where w1: "client_Invalidate c u t (world s) = (None, w1)" "avail w1" "raw w1 (key u t) = None"
    using permission_cache.invalidate_result [OF pc assms(2)] permission_cache.invalidate_effect [OF pc assms(2)]
      permission_cache.invalidate_avail [OF pc assms(2)]
    by (metis client_Invalidate_def fun_upd_same ops prod.collapse)
  obtain w2 where w2: "client_WriteThrough c u t (Some qs) (world s) = (None, w2)" "avail w2"
    "raw w2 (key u t) = Some (enc (Some qs))"
    using permission_cache.write_result [OF pc assms(2)] permission_cache.write_effect [OF pc assms(2)]
      permission_cache.write_avail [OF pc assms(2)]
    by (metis client_WriteThrough_def fun_upd_same ops prod.collapse)
  obtain s1 s2 where s1: "routine_step net c r (s\<lparr>world := w1\<rparr>) = Some s1"
      "world s1 = snd (cache_Set ops u t (Some ps) w1)"
    and s2: "routine_step net c r (s\<lparr>world := w2\<rparr>) = Some s2"
      "world s2 = snd (cache_Set ops u t (Some ps) w2)"
    using store w1(2) w2(2) by blast
  have "avail (world s1)" "raw (world s1) (key u t) = Some (enc (Some ps))"
    using permission_cache.set_avail [OF pc w1(2)] permission_cache.set_effect [OF pc w1(2)] w1(3) s1(2) by simp_all
  moreover have "avail (world s2)" "raw (world s2) (key u t) = Some (enc (Some qs))"
    using permission_cache.set_avail [OF pc w2(2)] permission_cache.set_effect [OF pc w2(2)] w2(3) s2(2) by simp_all
  ultimately show ?thesis
    using w1(1) w2(1) s1(1) s2(1) read assms(7,8) by blast
qed

text \<open>The state of a call whose fetch was answered, before its answer is stored.\<close>

abbreviation granting_client :: "(unit, InMemoryPermissionCache) permissionClient" where
  "granting_client \<equiv> client_over mem_cache (Inr (active_answer ''ADMIN'' [''x:y:z'']))"

definition fetched_state :: "(unit, InMemoryPermissionCache) sdk_state" where
  "fetched_state = the (run_schedule fixed_net granting_client [Caller 0, Caller 0, Goroutine 0]
     (idle mem_start [call_uv ''u'' ''t'']))"

theorem revocation_race_witness:
  "\<exists>w' s'. client_Invalidate granting_client ''u'' ''t'' (world fetched_state) = (None, w')
     \<and> routine_step fixed_net granting_client 0 (fetched_state\<lparr>world := w'\<rparr>) = Some s'
     \<and> fst (CallerHasPermission fixed_net granting_client () ''u'' ''t'' ''x:y:z'' (world s')) = (True, None)"
proof -
  let ?m = "\<lparr>Status = ''active'', MRole = ''ADMIN'', Permissions = Some [''x:y:z''],
         IsActive = True, ExpiresAt = None, MReason = ''''\<rparr>"
  have "read_response (active_answer ''ADMIN'' [''x:y:z'']) = (Some ?m, None)"
    by (simp add: active_answer_def read_response_def read_limited_def Unmarshal_resolution_def
        unmarshal_active valid_utf8_of_ascii)
      (simp add: active_body_def marshal_string_def marshal_strings_def quote_body_plain html_safe_def)
  then have st: "routines fetched_state = [\<lparr>r_call = call_uv ''u'' ''t'', r_pc = RStore (Some ?m)\<rparr>]"
    by (simp add: fetched_state_def machine_defs mem_Get_def Let_def call_uv_def cache_lookup_def answering_fetch)
  have "(\<exists>w' s'. client_Invalidate granting_client ''u'' ''t'' (world fetched_state) = (None, w')
        \<and> routine_step fixed_net granting_client 0 (fetched_state\<lparr>world := w'\<rparr>) = Some s'
        \<and> (\<forall>net' ctx. fst (CallerHasPermission net' granting_client ctx ''u'' ''t'' ''x:y:z'' (world s'))
             = (''x:y:z'' \<in> set [''x:y:z''], None)))"
    by (rule revocation_race [OF mem.client_on_cache_axioms, where s = fetched_state and r = 0 and m = ?m
        and qs = "[]", THEN conjunct1]) (simp_all add: st call_uv_def not_universal_example)
  then obtain w' s' where "client_Invalidate granting_client ''u'' ''t'' (world fetched_state) = (None, w')"
    "routine_step fixed_net granting_client 0 (fetched_state\<lparr>world := w'\<rparr>) = Some s'"
    "fst (CallerHasPermission fixed_net granting_client () ''u'' ''t'' ''x:y:z'' (world s')) = (True, None)"
    by auto
  then show ?thesis by blast
qed

end
