(* ===== verification/Provenance.thy ===== *)
theory Provenance
  imports Coalescing
begin

text \<open>
  Where the permissions come from: overlapping calls of \<open>helios_permissions/permission_client.go\<close>
  together with the writes and invalidations of its client, with a record of what Helios answered
  and what was written, and the invariant that every cache entry and every result goes back to a
  grant in that record.
\<close>

section \<open>Runs with a record of what was granted\<close>

text \<open>A grant: the permissions that an authority stated for a user in a tenant.\<close>

type_synonym grant = "string \<times> string \<times> Permission list"

text \<open>What Helios states when the goroutine \<open>r\<close> moves.\<close>

definition answered :: "('x, 'w) net \<Rightarrow> ('x, 'w) permissionClient \<Rightarrow> ('x, 'w) sdk_state \<Rightarrow> nat \<Rightarrow> grant set" where
  "answered net c s r =
     (let call = r_call (routines s ! r); u = call_user call; t = call_tenant call in
      if r_pc (routines s ! r) = RFetch then
        (case fst (FetchUserPermissions net (helios c) (call_ctx call) u t (world s)) of
           (res, None) \<Rightarrow> {(u, t, answer_perms res)}
         | (res, Some err) \<Rightarrow> {})
      else {})"

text \<open>
  The calls of \<open>calls\<close> overlap with writes and invalidations through the client and with the
  loss of entries; the cache is empty at first. The set collects the answers of Helios and the
  writes.
\<close>

inductive granting_run ::
    "('x, 'w) net \<Rightarrow> ('x, 'w) permissionClient \<Rightarrow> (string \<Rightarrow> bool) \<Rightarrow> ('w \<Rightarrow> string \<Rightarrow> 'v option)
       \<Rightarrow> ('w \<Rightarrow> bool) \<Rightarrow> 'x api_call list \<Rightarrow> ('x, 'w) sdk_state \<Rightarrow> grant set \<Rightarrow> bool"
  for net c id_ok raw avail calls where
  start: "avail w \<Longrightarrow> raw w = Map.empty \<Longrightarrow>
      \<forall>call \<in> set calls. id_ok (call_user call) \<and> id_ok (call_tenant call) \<Longrightarrow>
      granting_run net c id_ok raw avail calls (idle w calls) {}"
| caller: "granting_run net c id_ok raw avail calls s G \<Longrightarrow> caller_step c i s = Some s' \<Longrightarrow>
      granting_run net c id_ok raw avail calls s' G"
| routine: "granting_run net c id_ok raw avail calls s G \<Longrightarrow> routine_step net c r s = Some s' \<Longrightarrow>
      granting_run net c id_ok raw avail calls s' (answered net c s r \<union> G)"
| written: "granting_run net c id_ok raw avail calls s G \<Longrightarrow> id_ok u \<Longrightarrow> id_ok t \<Longrightarrow>
      client_WriteThrough c u t (Some ps) (world s) = (e, w') \<Longrightarrow>
      granting_run net c id_ok raw avail calls (s\<lparr>world := w'\<rparr>) (insert (u, t, ps) G)"
| dropped: "granting_run net c id_ok raw avail calls s G \<Longrightarrow>
      client_Invalidate c u t (world s) = (e, w') \<Longrightarrow>
      granting_run net c id_ok raw avail calls (s\<lparr>world := w'\<rparr>) G"
| tenant_dropped: "granting_run net c id_ok raw avail calls s G \<Longrightarrow> id_ok t \<Longrightarrow>
      client_InvalidateTenant c t (world s) = Some (e, w') \<Longrightarrow>
      granting_run net c id_ok raw avail calls (s\<lparr>world := w'\<rparr>) G"
| expired: "granting_run net c id_ok raw avail calls s G \<Longrightarrow> avail w' \<Longrightarrow> raw w' \<subseteq>\<^sub>m raw (world s) \<Longrightarrow>
      granting_run net c id_ok raw avail calls (s\<lparr>world := w'\<rparr>) G"

lemma granting_run_reachable:
  "granting_run net c id_ok raw avail calls s G \<Longrightarrow> reachable net c calls s"
  by (induction rule: granting_run.induct)
    (auto intro: reachable.intros sys_step.intros prog_step.intros)

text \<open>A caller that finds its permissions in the cache.\<close>

lemma caller_hit:
  assumes "caller_step c i s = Some s'" and "c_pc (callers s ! i) = CStart"
  shows "(\<exists>ps w1. cache_lookup c (call_user (c_call (callers s ! i))) (call_tenant (c_call (callers s ! i))) (world s)
        = (Some ps, w1) \<and> s' = set_caller i (CDone None (Some ps) None) (s\<lparr>world := w1\<rparr>))
    \<or> (\<exists>w1. cache_lookup c (call_user (c_call (callers s ! i))) (call_tenant (c_call (callers s ! i))) (world s)
        = (None, w1) \<and> s' = set_caller i CMissed (s\<lparr>world := w1\<rparr>))"
  using assms by (auto simp: caller_step_def Let_def split: if_splits prod.splits option.splits)

text \<open>What a goroutine does to the world, and the result it holds or has left in its entry.\<close>

fun held_ok :: "routine_pc \<Rightarrow> (Permission list \<Rightarrow> bool) \<Rightarrow> bool" where
  "held_ok (RStore res) P = P (answer_perms res)"
| "held_ok (RAssign perms err) P = (\<forall>ps. perms = Some ps \<longrightarrow> P ps)"
| "held_ok pc P = True"

lemma held_ok_mono: "held_ok pc P \<Longrightarrow> (\<And>ps. P ps \<Longrightarrow> Q ps) \<Longrightarrow> held_ok pc Q"
  by (cases pc) auto

section \<open>Every entry and every result has a grant\<close>

definition granted :: "grant set \<Rightarrow> 'x api_call \<Rightarrow> Permission list \<Rightarrow> bool" where
  "granted G call ps \<longleftrightarrow> (call_user call, call_tenant call, ps) \<in> G"

definition routines_backed :: "(string \<Rightarrow> bool) \<Rightarrow> grant set \<Rightarrow> ('x, 'w) sdk_state \<Rightarrow> bool" where
  "routines_backed id_ok G s \<longleftrightarrow>
     (\<forall>r < length (routines s).
        id_ok (call_user (r_call (routines s ! r))) \<and> id_ok (call_tenant (r_call (routines s ! r)))
        \<and> held_ok (r_pc (routines s ! r)) (granted G (r_call (routines s ! r)))
        \<and> (\<forall>ps. entry_res (entries s ! r) = Some ps \<longrightarrow> granted G (r_call (routines s ! r)) ps))"

lemma routines_backed_mono: "routines_backed id_ok G s \<Longrightarrow> G \<subseteq> G' \<Longrightarrow> routines_backed id_ok G' s"
  unfolding routines_backed_def granted_def by (blast intro: held_ok_mono)

lemma routines_backed_world: "routines_backed id_ok G (s\<lparr>world := w\<rparr>) = routines_backed id_ok G s"
  by (simp add: routines_backed_def)

lemma routines_backed_caller:
  assumes "caller_step c i s = Some s'" and "routines_backed id_ok G s"
    and "\<forall>ca \<in> set (callers s). id_ok (call_user (c_call ca)) \<and> id_ok (call_tenant (c_call ca))"
    and "flights_ok s"
  shows "routines_backed id_ok G s'"
  using assms(1)
proof (cases rule: caller_step_cases)
  case lead
  then show ?thesis using assms(2-4)
    by (auto simp: routines_backed_def nth_append flights_ok_def new_entry_def less_Suc_eq)
qed (use assms(2) in \<open>simp_all add: routines_backed_def\<close>)

lemma routines_backed_routine:
  assumes "routine_step net c r s = Some s'" and "routines_backed id_ok G s" and "flights_ok s"
  shows "routines_backed id_ok (answered net c s r \<union> G) s'"
proof -
  let ?G = "answered net c s r \<union> G"
  have len: "length (routines s) = length (entries s)" using assms(3) by (simp add: flights_ok_def)
  have old: "routines_backed id_ok ?G s" using assms(2) by (rule routines_backed_mono) simp
  have answer: "granted ?G (r_call (routines s ! r)) (answer_perms res)"
    if "r < length (routines s)" "r_pc (routines s ! r) = RFetch" "s' = set_routine r (RStore res) (s\<lparr>world := w1\<rparr>)"
    for res w1
  proof -
    have "r_pc (routines s' ! r) = RStore res" using that(1,3) by simp
    then show ?thesis
      using assms(1) that(1,2)
      by (auto simp: routine_step_def Let_def answered_def granted_def split: prod.splits option.splits)
  qed
  from assms(1) show ?thesis
  proof (cases rule: routine_step_cases)
    case (fetched res w1)
    from answer [OF fetched] old show ?thesis
      by (simp add: routines_backed_def fetched(3))
  qed (use old len in \<open>auto simp: routines_backed_def nth_list_update\<close>)
qed

definition entries_backed ::
    "(string \<Rightarrow> bool) \<Rightarrow> (string \<Rightarrow> string \<Rightarrow> string) \<Rightarrow> (Permission slice \<Rightarrow> 'v) \<Rightarrow> grant set
       \<Rightarrow> (string \<rightharpoonup> 'v) \<Rightarrow> bool" where
  "entries_backed id_ok key enc G m \<longleftrightarrow>
     (\<forall>k v. m k = Some v \<longrightarrow> (\<exists>u t ps. (u, t, ps) \<in> G \<and> id_ok u \<and> id_ok t \<and> k = key u t \<and> v = enc (Some ps)))"

lemma entries_backed_mono: "entries_backed id_ok key enc G m \<Longrightarrow> G \<subseteq> G' \<Longrightarrow> entries_backed id_ok key enc G' m"
  unfolding entries_backed_def by blast

lemma entries_backed_less: "entries_backed id_ok key enc G m \<Longrightarrow> m' \<subseteq>\<^sub>m m \<Longrightarrow> entries_backed id_ok key enc G m'"
  unfolding entries_backed_def map_le_def by (metis domI)

lemma entries_backed_update:
  "entries_backed id_ok key enc G m \<Longrightarrow> (u, t, ps) \<in> G \<Longrightarrow> id_ok u \<Longrightarrow> id_ok t \<Longrightarrow>
     entries_backed id_ok key enc G (m(key u t \<mapsto> enc (Some ps)))"
  unfolding entries_backed_def by auto

text \<open>A caller gets what was granted, or what the cache makes of it.\<close>

definition callers_backed ::
    "('v \<Rightarrow> Permission slice) \<Rightarrow> (Permission slice \<Rightarrow> 'v) \<Rightarrow> grant set \<Rightarrow> ('x, 'w) sdk_state \<Rightarrow> bool" where
  "callers_backed dec enc G s \<longleftrightarrow>
     (\<forall>ca \<in> set (callers s). \<forall>src ps err. c_pc ca = CDone src (Some ps) err \<longrightarrow>
        (\<exists>qs. granted G (c_call ca) qs \<and> (ps = qs \<or> dec (enc (Some qs)) = Some ps)))"

lemma callers_backed_mono: "callers_backed dec enc G s \<Longrightarrow> G \<subseteq> G' \<Longrightarrow> callers_backed dec enc G' s"
  unfolding callers_backed_def granted_def by blast

lemma callers_backed_set:
  assumes "callers_backed dec enc G s" and "i < length (callers s)" and "callers s1 = callers s"
    and "\<And>src ps err. pc = CDone src (Some ps) err \<Longrightarrow>
      \<exists>qs. granted G (c_call (callers s ! i)) qs \<and> (ps = qs \<or> dec (enc (Some qs)) = Some ps)"
  shows "callers_backed dec enc G (set_caller i pc s1)"
  using assms by (auto simp: callers_backed_def set_caller_def dest!: set_update_subset_insert [THEN subsetD])

context client_on_tenant_cache
begin

lemma hit_backed:
  assumes "avail w" and "entries_backed id_ok key enc G (raw w)" and "id_ok u" "id_ok t"
    and "cache_lookup c u t w = (Some ps, w1)"
  shows "\<exists>qs. (u, t, qs) \<in> G \<and> dec (enc (Some qs)) = Some ps"
proof -
  have "view w u t = Some ps" using assms(5) by (simp add: lookup_avail [OF assms(1)])
  then obtain v where v: "raw w (key u t) = Some v" "dec v = Some ps"
    by (auto simp: view_def bind_eq_Some_conv)
  with assms(2) obtain u' t' qs where "(u', t', qs) \<in> G" "id_ok u'" "id_ok t'" "key u t = key u' t'" "v = enc (Some qs)"
    unfolding entries_backed_def by blast
  with key_inj assms(3,4) v(2) show ?thesis by blast
qed

lemma lookup_frame:
  assumes "avail w" and "cache_lookup c u t w = (res, w1)"
  shows "avail w1 \<and> raw w1 = raw w"
  using assms(2) by (auto simp: lookup_avail [OF assms(1)] get_avail get_effect assms(1))

lemma caller_world:
  assumes "caller_step c i s = Some s'" and "avail (world s)"
  shows "avail (world s') \<and> raw (world s') = raw (world s)"
proof (cases "c_pc (callers s ! i) = CStart")
  case True
  from caller_hit [OF assms(1) True] show ?thesis
    using lookup_frame [OF assms(2)] by auto
next
  case False
  from assms(1) have "world s' = world s"
    by (cases rule: caller_step_cases) (use False in simp_all)
  with assms(2) show ?thesis by simp
qed

lemma callers_backed_caller:
  assumes "caller_step c i s = Some s'" and "avail (world s)" and "callers_backed dec enc G s"
    and "entries_backed id_ok key enc G (raw (world s))" and "routines_backed id_ok G s" and "state_ok s"
    and ids: "\<forall>ca \<in> set (callers s). id_ok (call_user (c_call ca)) \<and> id_ok (call_tenant (c_call ca))"
    and colon: "\<And>u. id_ok u \<Longrightarrow> colon_free u"
  shows "callers_backed dec enc G s'"
proof (cases "c_pc (callers s ! i) = CStart")
  case True
  have i: "i < length (callers s)" using assms(1) by (auto simp: caller_step_def split: if_splits)
  then have id: "id_ok (call_user (c_call (callers s ! i)))" "id_ok (call_tenant (c_call (callers s ! i)))"
    using ids by simp_all
  from caller_hit [OF assms(1) True] show ?thesis
    using hit_backed [OF assms(2,4) id]
    by (auto simp: granted_def intro!: callers_backed_set [OF assms(3) i])
next
  case False
  from assms(1) show ?thesis
  proof (cases rule: caller_step_cases)
    case (resume e)
    have ok: "caller_ok s (callers s ! i)" and len: "length (routines s) = length (entries s)"
      using assms(6) resume(1) by (simp_all add: state_ok_def callers_ok_def flights_ok_def)
    with resume(2) have e: "e < length (routines s)"
      "flight_key (r_call (routines s ! e)) = flight_key (c_call (callers s ! i))"
      by (simp_all add: caller_ok_def)
    have "colon_free (call_user (r_call (routines s ! e)))" "colon_free (call_user (c_call (callers s ! i)))"
      using assms(5) e(1) ids resume(1) colon by (auto simp: routines_backed_def)
    from append_colon_inj [OF this [unfolded colon_free_def] e(2) [unfolded flight_key_def]]
    have "granted G (c_call (callers s ! i)) ps \<longleftrightarrow> granted G (r_call (routines s ! e)) ps" for ps
      by (simp add: granted_def)
    then show ?thesis
      using assms(5) e(1) resume(1,4)
      by (auto simp: routines_backed_def intro!: callers_backed_set [OF assms(3) resume(1)])
  qed (use False in \<open>auto intro!: callers_backed_set [OF assms(3)]\<close>)
qed

lemma routine_world:
  assumes "routine_step net c r s = Some s'" and "avail (world s)"
    and "entries_backed id_ok key enc G (raw (world s))" and "routines_backed id_ok G s"
  shows "avail (world s') \<and> entries_backed id_ok key enc G (raw (world s'))"
proof -
  let ?call = "r_call (routines s ! r)"
  let ?u = "call_user ?call" and ?t = "call_tenant ?call"
  have r: "r < length (routines s)" using assms(1) by (auto simp: routine_step_def split: if_splits)
  show ?thesis
  proof (cases "r_pc (routines s ! r)")
    case RFetch
    then have "world s' = snd (FetchUserPermissions net (helios c) (call_ctx ?call) ?u ?t (world s))"
      using assms(1) r by (auto simp: routine_step_def Let_def split: prod.splits option.splits)
    with fetch_frame [OF assms(2)] assms(3) show ?thesis by simp
  next
    case (RStore res)
    then have "world s' = snd (cache_Set ops ?u ?t (Some (answer_perms res)) (world s))"
      using assms(1) r by (auto simp: routine_step_def Let_def populate_avail [OF assms(2)])
    moreover have "(?u, ?t, answer_perms res) \<in> G" "id_ok ?u" "id_ok ?t"
      using assms(4) r RStore by (auto simp: routines_backed_def granted_def)
    ultimately show ?thesis
      using assms(2,3) by (simp add: set_avail set_effect entries_backed_update)
  qed (use assms r in \<open>auto simp: routine_step_def Let_def\<close>)
qed

definition backed :: "('x, 'w) sdk_state \<Rightarrow> grant set \<Rightarrow> bool" where
  "backed s G \<longleftrightarrow> avail (world s) \<and> entries_backed id_ok key enc G (raw (world s)) \<and> routines_backed id_ok G s
     \<and> callers_backed dec enc G s"

lemma backed_world:
  "backed s G \<Longrightarrow> avail w \<Longrightarrow> entries_backed id_ok key enc G' (raw w) \<Longrightarrow> G \<subseteq> G' \<Longrightarrow> backed (s\<lparr>world := w\<rparr>) G'"
  using callers_backed_mono [of dec enc G s G'] routines_backed_mono [of id_ok G s G']
  by (simp add: backed_def routines_backed_world callers_backed_def)

lemma granting_run_backed:
  assumes "granting_run net c id_ok raw avail calls s G" and colon: "\<And>u. id_ok u \<Longrightarrow> colon_free u"
    and calls: "\<forall>call \<in> set calls. id_ok (call_user call) \<and> id_ok (call_tenant call)"
  shows "backed s G"
  using assms(1)
proof (induction rule: granting_run.induct)
  case (start w)
  then show ?case
    by (auto simp: backed_def idle_def entries_backed_def routines_backed_def callers_backed_def)
next
  case (caller s G i s')
  have reach: "reachable net c calls s" using caller.hyps(1) by (rule granting_run_reachable)
  have ids: "\<forall>ca \<in> set (callers s). id_ok (call_user (c_call ca)) \<and> id_ok (call_tenant (c_call ca))"
    using reachable_calls [OF reach] calls by (metis image_eqI list.set_map)
  have ok: "state_ok s" by (rule reachable_ok [OF reach])
  show ?case
    using caller.IH caller_world [OF caller.hyps(2)] callers_backed_caller [OF caller.hyps(2) _ _ _ _ ok ids colon]
      routines_backed_caller [OF caller.hyps(2) _ ids] ok
    by (simp add: backed_def state_ok_def)
next
  case (routine s G r s')
  have ok: "flights_ok s"
    using reachable_ok [OF granting_run_reachable [OF routine.hyps(1)]] by (simp add: state_ok_def)
  let ?G = "answered net c s r \<union> G"
  have sub: "G \<subseteq> ?G" by simp
  have b: "avail (world s)" "entries_backed id_ok key enc ?G (raw (world s))" "routines_backed id_ok ?G s"
      "callers_backed dec enc ?G s"
    using routine.IH entries_backed_mono [OF _ sub] routines_backed_mono [OF _ sub] callers_backed_mono [OF _ sub]
    by (auto simp: backed_def)
  have "callers_backed dec enc ?G s'"
    using b(4) routine_step_callers [OF routine.hyps(2)] by (simp add: callers_backed_def)
  then show ?case
    using routine_world [OF routine.hyps(2) b(1-3)] routine.IH routines_backed_routine [OF routine.hyps(2) _ ok]
    by (simp add: backed_def)
next
  case (written s G u t ps e w')
  then have w': "w' = snd (cache_WriteThrough ops u t (Some ps) (world s))"
    by (simp add: client_WriteThrough_def client_cache)
  have av: "avail (world s)" "entries_backed id_ok key enc (insert (u, t, ps) G) (raw (world s))"
    using written.IH entries_backed_mono [of id_ok key enc G "raw (world s)" "insert (u, t, ps) G"]
    by (auto simp: backed_def)
  show ?case
    by (rule backed_world [OF written.IH])
      (use av written.hyps(2,3) in \<open>auto simp: w' write_avail write_effect intro!: entries_backed_update\<close>)
next
  case (dropped s G u t e w')
  then have w': "w' = snd (cache_Invalidate ops u t (world s))"
    by (simp add: client_Invalidate_def client_cache)
  have av: "avail (world s)" "entries_backed id_ok key enc G (raw (world s))"
    using dropped.IH by (simp_all add: backed_def)
  show ?case
    by (rule backed_world [OF dropped.IH])
      (use av in \<open>auto simp: w' invalidate_avail invalidate_effect map_le_def intro: entries_backed_less\<close>)
next
  case (tenant_dropped s G t e w')
  have av: "avail (world s)" "entries_backed id_ok key enc G (raw (world s))"
    using tenant_dropped.IH by (simp_all add: backed_def)
  from tenant_effect [OF av(1) tenant_dropped.hyps(2)] tenant_dropped.hyps(3) have
    "avail w'" "raw w' = (\<lambda>k. if in_tenant t k then None else raw (world s) k)"
    by (auto simp: client_InvalidateTenant_def client_cache)
  then show ?case
    by (intro backed_world [OF tenant_dropped.IH])
      (use av in \<open>auto simp: map_le_def dom_def split: if_splits intro: entries_backed_less\<close>)
next
  case (expired s G w')
  then show ?case
    by (intro backed_world [OF expired.IH]) (auto simp: backed_def intro: entries_backed_less)
qed

end

lemma granting_run_calls:
  "granting_run net c id_ok raw avail calls s G \<Longrightarrow>
     \<forall>call \<in> set calls. id_ok (call_user call) \<and> id_ok (call_tenant call)"
  by (induction rule: granting_run.induct) auto

section \<open>No permission without a grant\<close>

text \<open>
  C1: No permission comes from nowhere. On a cache that keeps its contract, answers throughout and
  is empty at first, for calls and writes whose users and tenants are well-formed (no colon; for
  Redis no pattern character either), and when the cache can hold every slice that was answered
  or written (for Redis: UTF-8 text): however calls, fetches, writes of slices that are not nil,
  invalidations and the loss of entries interleave, the permissions that a call returns, from the
  cache, from its own fetch or from another's that it joined, are as a whole what Helios answered
  for this very user and tenant, or what was written through for them. With a colon in an
  identifier this fails, as another property shows.
\<close>

theorem no_permission_without_grant:
  assumes "client_on_tenant_cache ops key raw dec enc storable avail net c id_ok in_tenant"
    and "granting_run net c id_ok raw avail calls s G"
    and "\<And>u. id_ok u \<Longrightarrow> colon_free u" and "\<And>u t qs. (u, t, qs) \<in> G \<Longrightarrow> storable qs"
    and "ca \<in> set (callers s)" and "c_pc ca = CDone src (Some ps) err"
  shows "(call_user (c_call ca), call_tenant (c_call ca), ps) \<in> G"
proof -
  have "callers_backed dec enc G s"
    using client_on_tenant_cache.granting_run_backed [OF assms(1,2,3) granting_run_calls [OF assms(2)]]
    by (simp add: client_on_tenant_cache.backed_def [OF assms(1)])
  with assms(5,6) obtain qs where qs: "granted G (c_call ca) qs" "ps = qs \<or> dec (enc (Some qs)) = Some ps"
    unfolding callers_backed_def by blast
  have "permission_cache ops key raw dec enc storable avail"
    using client_on_cache.axioms(1) [OF client_on_tenant_cache.axioms(1) [OF assms(1)]] .
  then have "dec (enc (Some qs)) = Some qs"
    using assms(4) qs(1) by (simp add: permission_cache.dec_enc granted_def)
  with qs show ?thesis by (auto simp: granted_def)
qed

theorem no_permission_without_grant_witness:
  "\<exists>s. granting_run fixed_net (client_over mem_cache (Inr not_found) :: (unit, InMemoryPermissionCache) permissionClient) colon_free (\<lambda>c. map_of (store c)) (\<lambda>_. True)
       [call_uv ''u'' ''t''] s {(''u'', ''t'', [''x:y:z''])}
     \<and> c_pc (callers s ! 0) = CDone None (Some [''x:y:z'']) None
     \<and> (call_user (c_call (callers s ! 0)), call_tenant (c_call (callers s ! 0)), [''x:y:z'']) \<in> {(''u'', ''t'', [''x:y:z''])}"
proof -
  let ?c = "client_over mem_cache (Inr not_found) :: (unit, InMemoryPermissionCache) permissionClient"
  let ?run = "granting_run fixed_net ?c colon_free (\<lambda>c. map_of (store c)) (\<lambda>_. True) [call_uv ''u'' ''t'']"
  let ?w = "snd (mem_WriteThrough ''u'' ''t'' (Some [''x:y:z'']) mem_start)"
  let ?s = "(idle mem_start [call_uv ''u'' ''t''])\<lparr>world := ?w\<rparr>"
  have ids: "colon_free ''u''" "colon_free ''t''" by (simp_all add: colon_free_def)
  have "?run (idle mem_start [call_uv ''u'' ''t'']) {}"
    by (rule granting_run.start) (use ids in \<open>simp_all add: call_uv_def mem_start_def NewInMemoryPermissionCache_def\<close>)
  from granting_run.written [OF this ids, of "[''x:y:z'']" None ?w]
  have written: "?run ?s {(''u'', ''t'', [''x:y:z''])}"
    by (simp add: client_WriteThrough_def idle_def mem_WriteThrough_def)
  have "caller_step ?c 0 ?s = Some (set_caller 0 (CDone None (Some [''x:y:z'']) None) ?s)"
    by (simp add: caller_step_def idle_def call_uv_def cache_lookup_def mem_Get_def mem_WriteThrough_def Let_def
        mem_start_def NewInMemoryPermissionCache_def)
  with granting_run.caller [OF written] obtain s where
    run: "?run s {(''u'', ''t'', [''x:y:z''])}" and s: "s = set_caller 0 (CDone None (Some [''x:y:z'']) None) ?s"
    by blast
  have pc: "c_pc (callers s ! 0) = CDone None (Some [''x:y:z'']) None" and "callers s ! 0 \<in> set (callers s)"
    by (simp_all add: s set_caller_def idle_def)
  from no_permission_without_grant [OF mem.client_on_tenant_cache_axioms run _ _ this(2,1)] run pc
  show ?thesis by blast
qed

end
