(* ===== verification/Factory.thy ===== *)
theory Factory
  imports Client_Contract
begin

text \<open>
  \<open>helios_permissions/factory.go\<close>: \<open>Create\<close>, which wires the Redis cache, the Helios client and
  the permission client, and owns the Redis connection it builds; and the \<open>Close\<close> of its result.
  The connection URL parser and the client constructor of go-redis are parameters.
\<close>

section \<open>Create\<close>

text \<open>A nil pointer or interface is \<^const>\<open>None\<close>.\<close>

record ('x, 'w) CreateOptions =
  HeliosBaseURL :: string
  co_SignatureSharedSecret :: string
  HeliosSourceService :: string
  RedisURL :: string
  co_Redis :: "'w RedisClient option"
  CacheTTLSeconds :: go_int
  co_Logger :: "'w Logger option"
  co_StaleOnError :: "bool option"
  co_FetchTimeout :: Duration
  co_HTTPClient :: "('x, 'w) http_Client option"

record ('o, 'w) redis_lib =
  ParseURL :: "string \<Rightarrow> go_error + 'o"
  NewRedisClient :: "'o \<Rightarrow> 'w RedisClient"

text \<open>The variable \<open>ownsRedis\<close> that the closure \<open>Close\<close> captures is part of the result.\<close>

record ('x, 'w) Result =
  R_Client :: "('x, 'w) permissionClient"
  R_Redis :: "'w RedisClient"
  R_Helios :: "('x, 'w) HeliosClient"
  R_ownsRedis :: bool

text \<open>Lines 114 to 124: the injected Redis client, or one of our own.\<close>

definition obtain_redis ::
    "('o, 'w) redis_lib \<Rightarrow> ('x, 'w) CreateOptions \<Rightarrow> go_error + 'w RedisClient \<times> bool" where
  "obtain_redis lib opts =
     (case co_Redis opts of
        Some client \<Rightarrow> Inr (client, False)
      | None \<Rightarrow>
          (case ParseURL lib (RedisURL opts) of
             Inl err \<Rightarrow> Inl (WrapError ''helios_permissions: parse RedisURL: '' err)
           | Inr ropts \<Rightarrow> Inr (NewRedisClient lib ropts, True)))"

definition Create ::
    "('x, 'w) net \<Rightarrow> ('o, 'w) redis_lib \<Rightarrow> ('x, 'w) CreateOptions \<Rightarrow> 'w
       \<Rightarrow> (go_error + ('x, 'w) Result) outcome \<times> 'w" where
  "Create net lib opts w =
     (if HeliosBaseURL opts = '''' then
        (Returns (Inl (ErrorString ''helios_permissions: CreateOptions.HeliosBaseURL is required'')), w)
      else if co_SignatureSharedSecret opts = '''' then
        (Returns (Inl (ErrorString ''helios_permissions: CreateOptions.SignatureSharedSecret is required'')), w)
      else if co_Redis opts = None \<and> RedisURL opts = '''' then
        (Returns (Inl (ErrorString
           ''helios_permissions: one of CreateOptions.Redis or CreateOptions.RedisURL is required'')), w)
      else
        let lg = (case co_Logger opts of None \<Rightarrow> SilentLogger | Some l \<Rightarrow> l) in
        (case obtain_redis lib opts of
           Inl err \<Rightarrow> (Returns (Inl err), w)
         | Inr (redisClient, ownsRedis) \<Rightarrow>
             (case redis_Ping redisClient w of
                (Some err, w1) \<Rightarrow>
                  (Returns (Inl (WrapError ''helios_permissions: Redis ping failed: '' err)),
                   if ownsRedis then snd (redis_Close redisClient w1) else w1)
              | (None, w1) \<Rightarrow>
                  (case NewRedisPermissionCache \<lparr>opt_Client = Some redisClient,
                          opt_TTLSeconds = CacheTTLSeconds opts, opt_KeyPrefix = '''', opt_Logger = Some lg\<rparr> of
                     Panics msg \<Rightarrow> (Panics msg, w1)
                   | Returns rcache \<Rightarrow>
                       (case NewHeliosClient net \<lparr>BaseURL = HeliosBaseURL opts,
                               SignatureSharedSecret = co_SignatureSharedSecret opts,
                               SourceService = HeliosSourceService opts, HTTPClient = co_HTTPClient opts,
                               FetchTimeout = co_FetchTimeout opts, Now = None\<rparr> of
                          Panics msg \<Rightarrow> (Panics msg, w1)
                        | Returns he \<Rightarrow>
                            (case NewClient \<lparr>opt_Cache = Some (redis_cache_ops rcache), opt_Helios = Some he,
                                    opt_StaleOnError = co_StaleOnError opts, opt_ClientLogger = Some lg\<rparr> of
                               Inl err \<Rightarrow>
                                 (Returns (Inl err),
                                  if ownsRedis then snd (redis_Close redisClient w1) else w1)
                             | Inr client \<Rightarrow>
                                 (Returns (Inr \<lparr>R_Client = client, R_Redis = redisClient, R_Helios = he,
                                    R_ownsRedis = ownsRedis\<rparr>), w1)))))))"

text \<open>The closure; \<open>closed\<close> is the variable it shares between its calls.\<close>

definition Close :: "('x, 'w) Result \<Rightarrow> bool \<times> 'w \<Rightarrow> go_error option \<times> (bool \<times> 'w)" where
  "Close res st =
     (case st of (closed, w) \<Rightarrow>
        if closed then (None, (closed, w))
        else if R_ownsRedis res then
          (case redis_Close (R_Redis res) w of (err, w1) \<Rightarrow> (err, (True, w1)))
        else (None, (True, w)))"

text \<open>A number of calls of \<open>Close\<close>, with their results.\<close>

fun close_times :: "nat \<Rightarrow> ('x, 'w) Result \<Rightarrow> bool \<times> 'w \<Rightarrow> go_error option list \<times> (bool \<times> 'w)" where
  "close_times 0 res st = ([], st)"
| "close_times (Suc n) res st =
     (case Close res st of (err, st1) \<Rightarrow>
        (case close_times n res st1 of (errs, st2) \<Rightarrow> (err # errs, st2)))"

section \<open>Wiring\<close>

text \<open>The cache and the Helios client that \<open>Create\<close> builds from valid options.\<close>

definition wired_cache :: "('x, 'w) CreateOptions \<Rightarrow> 'w RedisClient \<Rightarrow> 'w RedisPermissionCache" where
  "wired_cache opts client =
     \<lparr>rdb = client, ttl = (if sint (CacheTTLSeconds opts) < 0 then 0 else CacheTTLSeconds opts),
      keyPrefix = KeyPrefix,
      logger = (case co_Logger opts of None \<Rightarrow> SilentLogger | Some l \<Rightarrow> l)\<rparr>"

lemma new_cache_wired:
  "NewRedisPermissionCache \<lparr>opt_Client = Some client, opt_TTLSeconds = CacheTTLSeconds opts,
      opt_KeyPrefix = '''', opt_Logger = Some (case co_Logger opts of None \<Rightarrow> SilentLogger | Some l \<Rightarrow> l)\<rparr>
   = Returns (wired_cache opts client)"
  by (simp add: NewRedisPermissionCache_def wired_cache_def Let_def)

lemma new_helios_wired:
  assumes "b \<noteq> ''''" and "k \<noteq> ''''"
  shows "\<exists>he. NewHeliosClient net \<lparr>BaseURL = b, SignatureSharedSecret = k, SourceService = s,
      HTTPClient = h, FetchTimeout = f, Now = None\<rparr> = Returns he
    \<and> hc_BaseURL he = b \<and> hc_Secret he = k
    \<and> hc_SourceService he = (if s = '''' then ''helios-permissions-go'' else s)
    \<and> hc_Now he = time_Now net
    \<and> round_trip (hc_HTTPClient he) = (case h of Some hc \<Rightarrow> round_trip hc | None \<Rightarrow> default_round_trip net)"
  using assms by (simp add: NewHeliosClient_def Let_def split: option.split)

lemma Create_valid:
  assumes "HeliosBaseURL opts \<noteq> ''''" and "co_SignatureSharedSecret opts \<noteq> ''''"
    and "co_Redis opts \<noteq> None \<or> RedisURL opts \<noteq> ''''"
    and "obtain_redis lib opts = Inr (client, owns)" and "redis_Ping client w = (None, w1)"
  shows "\<exists>r. Create net lib opts w = (Returns (Inr r), w1) \<and> R_Redis r = client \<and> R_ownsRedis r = owns
    \<and> cache (R_Client r) = redis_cache_ops (wired_cache opts client)
    \<and> helios (R_Client r) = R_Helios r
    \<and> staleOnError (R_Client r) = (case co_StaleOnError opts of None \<Rightarrow> True | Some b \<Rightarrow> b)
    \<and> hc_BaseURL (R_Helios r) = HeliosBaseURL opts
    \<and> hc_Secret (R_Helios r) = co_SignatureSharedSecret opts
    \<and> hc_SourceService (R_Helios r) =
        (if HeliosSourceService opts = '''' then ''helios-permissions-go'' else HeliosSourceService opts)
    \<and> hc_Now (R_Helios r) = time_Now net
    \<and> round_trip (hc_HTTPClient (R_Helios r)) =
        (case co_HTTPClient opts of Some hc \<Rightarrow> round_trip hc | None \<Rightarrow> default_round_trip net)"
proof -
  obtain he where he: "NewHeliosClient net \<lparr>BaseURL = HeliosBaseURL opts,
       SignatureSharedSecret = co_SignatureSharedSecret opts, SourceService = HeliosSourceService opts,
       HTTPClient = co_HTTPClient opts, FetchTimeout = co_FetchTimeout opts, Now = None\<rparr> = Returns he"
    "hc_BaseURL he = HeliosBaseURL opts" "hc_Secret he = co_SignatureSharedSecret opts"
    "hc_SourceService he =
        (if HeliosSourceService opts = '''' then ''helios-permissions-go'' else HeliosSourceService opts)"
    "hc_Now he = time_Now net" "round_trip (hc_HTTPClient he) =
        (case co_HTTPClient opts of Some hc \<Rightarrow> round_trip hc | None \<Rightarrow> default_round_trip net)"
    using new_helios_wired [OF assms(1,2)] by blast
  show ?thesis
    using assms he by (auto simp: Create_def Let_def new_cache_wired NewClient_def)
qed

section \<open>Properties\<close>

text \<open>Options and a library for the witnesses: the reference server behind any URL.\<close>

definition ref_lib :: "(unit, 'a redis_ref_scheme) redis_lib" where
  "ref_lib = \<lparr>ParseURL = (\<lambda>url. if url = ''redis://r'' then Inr () else Inl (ErrorString ''redis: invalid URL'')),
     NewRedisClient = (\<lambda>_. ref_client)\<rparr>"

definition ref_options :: "string \<Rightarrow> (unit, 'a redis_ref_scheme) CreateOptions" where
  "ref_options url = \<lparr>HeliosBaseURL = ''https://helios'', co_SignatureSharedSecret = ''s'',
     HeliosSourceService = '''', RedisURL = url, co_Redis = None, CacheTTLSeconds = 0, co_Logger = None,
     co_StaleOnError = None, co_FetchTimeout = 0, co_HTTPClient = None\<rparr>"

text \<open>
  C20: \<open>Create\<close> never panics, and it succeeds exactly when the base URL and the secret are given,
  a Redis client is injected or the Redis URL is given and parses, and that client answers a
  ping; the connectors it checks before keep the constructors it calls from panicking.
\<close>

theorem Create_succeeds_iff:
  "(\<forall>msg. fst (Create net lib opts w) \<noteq> Panics msg)
   \<and> ((\<exists>r. fst (Create net lib opts w) = Returns (Inr r)) \<longleftrightarrow>
       HeliosBaseURL opts \<noteq> '''' \<and> co_SignatureSharedSecret opts \<noteq> '''' \<and>
       (case co_Redis opts of
          Some client \<Rightarrow> fst (redis_Ping client w) = None
        | None \<Rightarrow> RedisURL opts \<noteq> '''' \<and>
            (\<exists>ropts. ParseURL lib (RedisURL opts) = Inr ropts \<and>
               fst (redis_Ping (NewRedisClient lib ropts) w) = None)))"
proof (cases "HeliosBaseURL opts = '''' \<or> co_SignatureSharedSecret opts = '''' \<or>
    (co_Redis opts = None \<and> RedisURL opts = '''')")
  case True
  then show ?thesis by (auto simp: Create_def)
next
  case False
  show ?thesis
  proof (cases "obtain_redis lib opts")
    case (Inl err)
    with False show ?thesis
      by (auto simp: Create_def Let_def obtain_redis_def split: option.splits sum.splits)
  next
    case (Inr co)
    obtain client owns where co: "co = (client, owns)" by fastforce
    obtain e w1 where ping: "redis_Ping client w = (e, w1)" by fastforce
    show ?thesis
    proof (cases e)
      case None
      with Create_valid [of opts lib client owns w w1 net] False Inr co ping
      obtain r where "Create net lib opts w = (Returns (Inr r), w1)" by auto
      with False Inr co ping None show ?thesis
        by (auto simp: obtain_redis_def split: option.splits sum.splits)
    next
      case (Some err)
      with False Inr co ping have "fst (Create net lib opts w)
          = Returns (Inl (WrapError ''helios_permissions: Redis ping failed: '' err))"
        by (simp add: Create_def Let_def)
      with False Inr co ping Some show ?thesis
        by (auto simp: obtain_redis_def split: option.splits sum.splits)
    qed
  qed
qed

text \<open>
  C21: Every \<open>Create\<close> that returns an error leaves no connection of its own open and closes no
  other. When an option is missing, or the Redis URL does not parse, nothing is touched; when the
  ping fails, the client it built from the URL is closed, and an injected one is left as the ping
  left it. A failed parse and a failed ping are wrapped, so that the cause can be unwrapped from
  the error; a missing option has no cause.
\<close>

theorem Create_failure_cleans_up:
  assumes "Create net lib opts w = (Returns (Inl e), w')"
  shows "if HeliosBaseURL opts = '''' \<or> co_SignatureSharedSecret opts = ''''
        \<or> co_Redis opts = None \<and> RedisURL opts = ''''
      then w' = w \<and> Unwrap e = None
      else case co_Redis opts of
          Some client \<Rightarrow> (\<exists>err. redis_Ping client w = (Some err, w') \<and> Unwrap e = Some err)
        | None \<Rightarrow>
            (case ParseURL lib (RedisURL opts) of
               Inl err \<Rightarrow> w' = w \<and> Unwrap e = Some err
             | Inr ropts \<Rightarrow> (\<exists>err w1. redis_Ping (NewRedisClient lib ropts) w = (Some err, w1)
                 \<and> Unwrap e = Some err \<and> w' = snd (redis_Close (NewRedisClient lib ropts) w1)))"
proof (cases "HeliosBaseURL opts = '''' \<or> co_SignatureSharedSecret opts = '''' \<or>
    (co_Redis opts = None \<and> RedisURL opts = '''')")
  case True
  then show ?thesis using assms by (auto simp: Create_def split: if_splits)
next
  case False
  show ?thesis
  proof (cases "obtain_redis lib opts")
    case (Inl err)
    with False assms show ?thesis
      by (auto simp: Create_def Let_def obtain_redis_def split: option.splits sum.splits)
  next
    case (Inr co)
    obtain client owns where co: "co = (client, owns)" by fastforce
    obtain e' w1 where ping: "redis_Ping client w = (e', w1)" by fastforce
    show ?thesis
    proof (cases e')
      case None
      with Create_valid [of opts lib client owns w w1 net] False Inr co ping assms
      show ?thesis by auto
    next
      case (Some err)
      with False Inr co ping assms
      have "e = WrapError ''helios_permissions: Redis ping failed: '' err"
        "w' = (if owns then snd (redis_Close client w1) else w1)"
        by (auto simp: Create_def Let_def)
      with False Inr co ping Some show ?thesis
        by (auto simp: obtain_redis_def split: option.splits sum.splits)
    qed
  qed
qed

theorem Create_failure_cleans_up_witness:
  "\<exists>e w'. Create fixed_net ref_lib (ref_options ''redis://r'') redis_is_down = (Returns (Inl e), w')
     \<and> Unwrap e = Some ref_down \<and> w' = snd (redis_Close ref_client redis_is_down)"
proof -
  have "Create fixed_net ref_lib (ref_options ''redis://r'' :: (unit, redis_ref) CreateOptions) redis_is_down
     = (Returns (Inl (WrapError ''helios_permissions: Redis ping failed: '' ref_down)),
        snd (redis_Close ref_client redis_is_down))"
    by (simp add: Create_def obtain_redis_def ref_lib_def ref_options_def ref_client_def redis_is_down_def)
  with Create_failure_cleans_up [OF this] show ?thesis
    by (auto simp: ref_options_def ref_lib_def ref_client_def redis_is_down_def)
qed

text \<open>
  \<open>Close\<close> is idempotent: however often it is called, the Redis client is closed once if
  \<open>Create\<close> built it and never if it was injected; the first call reports the error of that
  close, every later call reports none.
\<close>

lemma Close_idempotent:
  "close_times (Suc n) res (False, w) =
     (if R_ownsRedis res
      then (fst (redis_Close (R_Redis res) w) # replicate n None, (True, snd (redis_Close (R_Redis res) w)))
      else (replicate (Suc n) None, (True, w)))"
proof -
  have "close_times n res (True, w') = (replicate n None, (True, w'))" for w'
    by (induction n) (simp_all add: Close_def)
  then show ?thesis by (simp add: Close_def case_prod_unfold)
qed

text \<open>
  C13: What \<open>Create\<close> returns, with an injected Redis client or with the one it builds from the
  Redis URL, is a client in the sense of the client's contract: on a Redis server that behaves as
  documented and answers the ping, with a time to live of at most 9223372036 seconds (what fits a
  duration) and a logger, a clock and a Helios transport that leave the server alone, its cache
  has the shared key prefix and keeps every law the properties of the client's reads and writes
  rest on, tenant invalidation included; it owns the Redis client exactly if it built it.
\<close>

theorem Create_gives_client_on_cache:
  assumes "redis_backed client ents up glob pending scan_left (wired_cache opts client)"
    and "HeliosBaseURL opts \<noteq> ''''" and "co_SignatureSharedSecret opts \<noteq> ''''"
    and "case co_Redis opts of
        Some injected \<Rightarrow> client = injected
      | None \<Rightarrow> RedisURL opts \<noteq> '''' \<and>
          (\<exists>ropts. ParseURL lib (RedisURL opts) = Inr ropts \<and> client = NewRedisClient lib ropts)"
    and "redis_Ping client w = (None, w1)"
    and "\<And>w. up w \<Longrightarrow> ents (snd (time_Now net w)) = ents w \<and> up (snd (time_Now net w))"
    and "\<And>d req w. up w \<Longrightarrow> ents (snd (transport d req w)) = ents w \<and> up (snd (transport d req w))"
    and "transport = (case co_HTTPClient opts of Some hc \<Rightarrow> round_trip hc | None \<Rightarrow> default_round_trip net)"
  shows "\<exists>r. Create net lib opts w = (Returns (Inr r), w1)
    \<and> client_on_tenant_cache (redis_cache_ops (wired_cache opts client)) (redis_key (wired_cache opts client))
        ents redis_dec (redis_enc (wired_cache opts client)) utf8_perms up net (R_Client r)
        redis_id_ok (redis_in_tenant (wired_cache opts client))
    \<and> keyPrefix (wired_cache opts client) = ''helios:perms:''
    \<and> R_Redis r = client \<and> (R_ownsRedis r \<longleftrightarrow> co_Redis opts = None)"
proof -
  have "co_Redis opts \<noteq> None \<or> RedisURL opts \<noteq> ''''"
    and "obtain_redis lib opts = Inr (client, co_Redis opts = None)"
    using assms(4) by (auto simp: obtain_redis_def split: option.splits)
  from Create_valid [OF assms(2,3) this assms(5), of net] obtain r where
    r: "Create net lib opts w = (Returns (Inr r), w1)"
    "cache (R_Client r) = redis_cache_ops (wired_cache opts client)" "helios (R_Client r) = R_Helios r"
    "hc_Now (R_Helios r) = time_Now net" "round_trip (hc_HTTPClient (R_Helios r)) =
        (case co_HTTPClient opts of Some hc \<Rightarrow> round_trip hc | None \<Rightarrow> default_round_trip net)"
    "R_Redis r = client" "R_ownsRedis r \<longleftrightarrow> co_Redis opts = None"
    by (elim exE conjE) (rule that)
  have frame: "ents (snd (FetchUserPermissions net (R_Helios r) ctx u t w0)) = ents w0
      \<and> up (snd (FetchUserPermissions net (R_Helios r) ctx u t w0))" if "up w0" for ctx u t w0
    by (rule fetch_preserves [where Q = "\<lambda>w. ents w = ents w0 \<and> up w"])
      (use assms(6,7) r(4) r(5) [folded assms(8)] that in auto)
  have tc: "tenant_cache (redis_cache_ops (wired_cache opts client)) (redis_key (wired_cache opts client))
      ents redis_dec (redis_enc (wired_cache opts client)) utf8_perms up
      redis_id_ok (redis_in_tenant (wired_cache opts client))"
    using assms(1) by (rule redis_backed.redis_backed_tenant_cache)
  have "client_on_tenant_cache (redis_cache_ops (wired_cache opts client)) (redis_key (wired_cache opts client))
        ents redis_dec (redis_enc (wired_cache opts client)) utf8_perms up net (R_Client r)
        redis_id_ok (redis_in_tenant (wired_cache opts client))"
    by (intro client_on_tenant_cache.intro client_on_cache.intro client_on_cache_axioms.intro
        tc tenant_cache.axioms(1) [OF tc]) (use frame r(2,3) in auto)
  with r(1,6,7) show ?thesis by (auto simp: wired_cache_def KeyPrefix_def)
qed

definition injected_options :: "(unit, redis_ref) CreateOptions" where
  "injected_options = (ref_options [])\<lparr>co_Redis := Some ref_client\<rparr>"

theorem Create_gives_client_on_cache_witness:
  "(\<exists>r. Create fixed_net ref_lib injected_options ref_empty = (Returns (Inr r), ref_empty)
      \<and> cache (R_Client r) = redis_cache_ops ref_cache \<and> \<not> R_ownsRedis r)
   \<and> (\<exists>r. Create fixed_net ref_lib (ref_options ''redis://r'') ref_empty = (Returns (Inr r), ref_empty)
      \<and> cache (R_Client r) = redis_cache_ops ref_cache \<and> R_ownsRedis r)"
proof -
  let ?rc = "ref_cache :: redis_ref RedisPermissionCache"
  have made: "\<exists>r. Create fixed_net ref_lib opts ref_empty = (Returns (Inr r), ref_empty)
      \<and> cache (R_Client r) = redis_cache_ops ref_cache \<and> (R_ownsRedis r \<longleftrightarrow> co_Redis opts = None)"
    if opts: "opts = injected_options \<or> opts = ref_options ''redis://r''" for opts
  proof -
    have wired: "wired_cache opts ref_client = ref_cache"
      using opts by (auto simp: wired_cache_def injected_options_def ref_options_def ref_cache_def)
    have rb: "redis_backed ref_client ref_lookup ref_up ref_glob (\<lambda>w cur. set (ref_keys_left w cur))
        (\<lambda>w cur. length (ref_keys_left w cur)) (wired_cache opts ref_client)"
      unfolding wired by (rule ref.redis_backed_axioms)
    have given: "HeliosBaseURL opts \<noteq> []" "co_SignatureSharedSecret opts \<noteq> []"
      "case co_Redis opts of Some injected \<Rightarrow> ref_client = injected
       | None \<Rightarrow> RedisURL opts \<noteq> [] \<and>
           (\<exists>ropts. ParseURL ref_lib (RedisURL opts) = Inr ropts \<and> ref_client = NewRedisClient ref_lib ropts)"
      "default_round_trip fixed_net =
        (case co_HTTPClient opts of Some hc \<Rightarrow> round_trip hc | None \<Rightarrow> default_round_trip fixed_net)"
      using opts by (auto simp: injected_options_def ref_options_def ref_lib_def)
    have ping: "redis_Ping ref_client ref_empty = (None, ref_empty)"
      by (simp add: ref_client_def ref_empty_def)
    have still: "ref_up w \<Longrightarrow> ref_lookup (snd (time_Now fixed_net w)) = ref_lookup w \<and> ref_up (snd (time_Now fixed_net w))"
      "ref_up w \<Longrightarrow> ref_lookup (snd (default_round_trip fixed_net d req w)) = ref_lookup w
         \<and> ref_up (snd (default_round_trip fixed_net d req w))" for w :: redis_ref and d req
      by (simp_all add: fixed_net_def)
    have "\<exists>r. Create fixed_net ref_lib opts ref_empty = (Returns (Inr r), ref_empty)
      \<and> client_on_tenant_cache (redis_cache_ops (wired_cache opts ref_client)) (redis_key (wired_cache opts ref_client))
          ref_lookup redis_dec (redis_enc (wired_cache opts ref_client)) utf8_perms ref_up fixed_net (R_Client r)
          redis_id_ok (redis_in_tenant (wired_cache opts ref_client))
      \<and> keyPrefix (wired_cache opts ref_client) = ''helios:perms:''
      \<and> R_Redis r = ref_client \<and> (R_ownsRedis r \<longleftrightarrow> co_Redis opts = None)"
      by (rule Create_gives_client_on_cache [OF rb given(1-3) ping _ _ given(4)]; rule still; assumption)
    then obtain r where r: "Create fixed_net ref_lib opts ref_empty = (Returns (Inr r), ref_empty)"
      "client_on_tenant_cache (redis_cache_ops ?rc) (redis_key ?rc) ref_lookup redis_dec
         (redis_enc ?rc) utf8_perms ref_up fixed_net (R_Client r) redis_id_ok (redis_in_tenant ?rc)"
      "R_ownsRedis r \<longleftrightarrow> co_Redis opts = None"
      unfolding wired by (elim exE conjE) (rule that)
    from client_on_cache.client_cache [OF client_on_tenant_cache.axioms(1) [OF r(2)]] r(1,3)
    show ?thesis by (intro exI [of _ r] conjI)
  qed
  from made [of injected_options] made [of "ref_options ''redis://r''"] show ?thesis
    by (simp add: injected_options_def ref_options_def)
qed

end
