(* ===== verification/Go_Strings.thy ===== *)
theory Go_Strings
  imports Go_Json "HOL-Library.List_Lexorder" "HOL-Library.Char_ord"
begin

text \<open>
  The part of Go's \<open>strings\<close>, \<open>strconv\<close> and \<open>sort\<close> that \<open>cmd/codegen\<close> uses, on byte strings:
  \<open>Split\<close> and \<open>Join\<close>, upper and lower case, \<open>%q\<close> quoting, and sorting. What the library reads
  in the Unicode tables for runes that are not ASCII is a parameter.
\<close>

record unicode =
  IsPrint :: "nat \<Rightarrow> bool"
  unicode_ToLower :: "nat \<Rightarrow> nat"

section \<open>Splitting and joining\<close>

text \<open>\<open>strings.Split(s, sep)\<close> for a separator of one byte, and \<open>strings.Join\<close>.\<close>

fun Split :: "char \<Rightarrow> string \<Rightarrow> string list" where
  "Split sep [] = [[]]"
| "Split sep (c # cs) =
     (if c = sep then [] # Split sep cs
      else (case Split sep cs of
              [] \<Rightarrow> [[c]]
            | part # parts \<Rightarrow> (c # part) # parts))"

fun Join :: "string \<Rightarrow> string list \<Rightarrow> string" where
  "Join sep [] = []"
| "Join sep [s] = s"
| "Join sep (s # t # ts) = s @ sep @ Join sep (t # ts)"

lemma Split_not_Nil [simp]: "Split sep s \<noteq> []"
  by (cases s) (auto split: list.split)

lemma Join_Nil_sep [simp]: "Join [] ss = concat ss"
  by (induction "[] :: string" ss rule: Join.induct) auto

lemma Join_Split: "Join [sep] (Split sep s) = s"
proof (induction s)
  case Nil
  then show ?case by simp
next
  case (Cons c cs)
  obtain part parts where "Split sep cs = part # parts"
    by (cases "Split sep cs") auto
  with Cons show ?case by (cases parts) auto
qed

section \<open>Case mapping\<close>

text \<open>
  \<open>strings.ToUpper\<close> of a string of one byte: a byte of 0x80 or more is no rune of its own and
  becomes U+FFFD. \<open>strings.ToLower\<close> maps each rune, bytes that are not UTF-8 to U+FFFD.
\<close>

definition ToUpper_byte :: "char \<Rightarrow> string" where
  "ToUpper_byte c = (if (of_char c :: nat) < 128 then [upper_ascii c] else encode_rune rune_error)"

function ToLower :: "unicode \<Rightarrow> string \<Rightarrow> string" where
  "ToLower uc [] = []"
| "ToLower uc (c # cs) =
     (if (of_char c :: nat) < 128 then lower_ascii c # ToLower uc cs
      else (case decode_rune (c # cs) of (r, n) \<Rightarrow>
        encode_rune (if r = rune_error then rune_error else unicode_ToLower uc r)
          @ ToLower uc (drop (n - 1) cs)))"
  by pat_completeness auto
termination
  by (relation "measure (\<lambda>(uc, s). length s)") (auto dest!: decode_rune_size)

declare ToLower.simps(2) [simp del]

lemma ToLower_ascii: "\<forall>c \<in> set s. (of_char c :: nat) < 128 \<Longrightarrow> ToLower uc s = map lower_ascii s"
  by (induction s) (simp_all add: ToLower.simps(2))

section \<open>Quoting\<close>

text \<open>\<open>strconv.Quote\<close>, the text of a \<open>%q\<close> verb: \<open>appendEscapedRune\<close> and its loop.\<close>

abbreviation dq :: "string \<Rightarrow> string" where
  "dq s \<equiv> CHR 0x22 # s @ [CHR 0x22]"

definition hex_digits :: "nat \<Rightarrow> nat \<Rightarrow> string" where
  "hex_digits k r = map (\<lambda>i. hex_digit (r div 16 ^ i mod 16)) (rev [0..<k])"

definition escape_rune :: "unicode \<Rightarrow> nat \<Rightarrow> string" where
  "escape_rune uc r =
     (if r = 34 \<or> r = 92 then [CHR 0x5C, char_of r]
      else if (if r < 128 then 32 \<le> r \<and> r < 127 else IsPrint uc r) then encode_rune r
      else if r = 7 then [CHR 0x5C, CHR ''a'']
      else if r = 8 then [CHR 0x5C, CHR ''b'']
      else if r = 12 then [CHR 0x5C, CHR ''f'']
      else if r = 10 then [CHR 0x5C, CHR ''n'']
      else if r = 13 then [CHR 0x5C, CHR ''r'']
      else if r = 9 then [CHR 0x5C, CHR ''t'']
      else if r = 11 then [CHR 0x5C, CHR ''v'']
      else if r < 32 \<or> r = 127 then [CHR 0x5C, CHR ''x''] @ hex_digits 2 r
      else if r < 65536 then [CHR 0x5C, CHR ''u''] @ hex_digits 4 r
      else [CHR 0x5C, CHR ''U''] @ hex_digits 8 r)"

function escape_all :: "unicode \<Rightarrow> string \<Rightarrow> string" where
  "escape_all uc [] = []"
| "escape_all uc (c # cs) =
     (if (of_char c :: nat) < 128 then escape_rune uc (of_char c) @ escape_all uc cs
      else (case decode_rune (c # cs) of (r, n) \<Rightarrow>
        (if n = 1 \<and> r = rune_error then [CHR 0x5C, CHR ''x''] @ hex_digits 2 (of_char c) else escape_rune uc r)
          @ escape_all uc (drop (n - 1) cs)))"
  by pat_completeness auto
termination
  by (relation "measure (\<lambda>(uc, s). length s)") (auto dest!: decode_rune_size)

declare escape_all.simps(2) [simp del]

definition strconv_Quote :: "unicode \<Rightarrow> string \<Rightarrow> string" where
  "strconv_Quote uc s = dq (escape_all uc s)"

text \<open>A printable ASCII string without quotes and backslashes is quoted as it is.\<close>

definition plain_char :: "char \<Rightarrow> bool" where
  "plain_char c = (32 \<le> (of_char c :: nat) \<and> (of_char c :: nat) < 127 \<and> c \<noteq> CHR 0x22 \<and> c \<noteq> CHR 0x5C)"

lemma escape_rune_plain: "plain_char c \<Longrightarrow> escape_rune uc (of_char c) = [c]"
proof -
  assume c: "plain_char c"
  have "(of_char c :: nat) \<noteq> 34" "(of_char c :: nat) \<noteq> 92"
  proof -
    have "char_of (34 :: nat) = CHR 0x22" "char_of (92 :: nat) = CHR 0x5C" by code_simp+
    with c show "(of_char c :: nat) \<noteq> 34" "(of_char c :: nat) \<noteq> 92"
      by (metis char_of_char plain_char_def)+
  qed
  with c show ?thesis by (simp add: escape_rune_def plain_char_def encode_rune_def)
qed

lemma strconv_Quote_plain: "list_all plain_char s \<Longrightarrow> strconv_Quote uc s = dq s"
proof -
  have "list_all plain_char s \<Longrightarrow> escape_all uc s = s"
    by (induction s) (simp_all add: escape_all.simps(2) escape_rune_plain, simp add: plain_char_def)
  then show "list_all plain_char s \<Longrightarrow> ?thesis" by (simp add: strconv_Quote_def)
qed

end
