(* ===== verification/Codegen.thy ===== *)
theory Codegen
  imports Go_Strings Helios_Resolution Go_Errors
begin

text \<open>
  \<open>cmd/codegen/main.go\<close>: the program that reads the permission contract and prints
  \<open>role_permissions.go\<close>. The text it prints is a list of lines, one group of definitions per
  block of \<open>emit\<close>; the date, the file that is read and the Unicode tables are parameters.
\<close>

section \<open>The contract\<close>

record perm =
  p_Name :: string
  p_Scope :: string

text \<open>A nil map and an empty one behave alike here, and so do nil and empty slices.\<close>

record contract =
  c_Version :: string
  c_Services :: "string list"
  c_Roles :: "string list"
  c_Permissions :: "string \<rightharpoonup> perm list"
  c_RolePerms :: "string \<rightharpoonup> string list"

definition zero_perm :: perm where
  "zero_perm = \<lparr>p_Name = '''', p_Scope = ''''\<rparr>"

definition zero_contract :: contract where
  "zero_contract = \<lparr>c_Version = '''', c_Services = [], c_Roles = [],
     c_Permissions = Map.empty, c_RolePerms = Map.empty\<rparr>"

text \<open>
  \<open>json.Unmarshal\<close> into the contract: unknown keys are skipped, \<open>null\<close> leaves a string as it is
  and makes a slice or a map nil, a repeated member of a map replaces the earlier one. (Exact for
  documents that do not repeat a key of an object whose value is an array with null elements.)
\<close>

fun decode_perm_members :: "(string \<times> json) list \<Rightarrow> perm \<Rightarrow> perm option" where
  "decode_perm_members [] p = Some p"
| "decode_perm_members ((k, v) # ms) p =
     (let n = fold_name (unquote k) in
      if n = ''NAME'' then
        Option.bind (decode_string_field (p_Name p) v) (\<lambda>s. decode_perm_members ms (p\<lparr>p_Name := s\<rparr>))
      else if n = ''SCOPE'' then
        Option.bind (decode_string_field (p_Scope p) v) (\<lambda>s. decode_perm_members ms (p\<lparr>p_Scope := s\<rparr>))
      else decode_perm_members ms p)"

fun decode_perm :: "json \<Rightarrow> perm option" where
  "decode_perm (JObj ms) = decode_perm_members ms zero_perm"
| "decode_perm JNull = Some zero_perm"
| "decode_perm _ = None"

fun decode_list :: "(json \<Rightarrow> 'a option) \<Rightarrow> json list \<Rightarrow> 'a list option" where
  "decode_list f [] = Some []"
| "decode_list f (v # vs) =
     Option.bind (f v) (\<lambda>x. Option.bind (decode_list f vs) (\<lambda>xs. Some (x # xs)))"

fun decode_perms :: "json \<Rightarrow> perm list option" where
  "decode_perms (JArr vs) = decode_list decode_perm vs"
| "decode_perms JNull = Some []"
| "decode_perms _ = None"

text \<open>The struct of a role's entry, with its single field.\<close>

fun decode_role_members :: "(string \<times> json) list \<Rightarrow> string list \<Rightarrow> string list option" where
  "decode_role_members [] ps = Some ps"
| "decode_role_members ((k, v) # ms) ps =
     (if fold_name (unquote k) = ''PERMISSIONS''
      then Option.bind (decode_strings v) (\<lambda>s. decode_role_members ms (slice_elems s))
      else decode_role_members ms ps)"

fun decode_role :: "json \<Rightarrow> string list option" where
  "decode_role (JObj ms) = decode_role_members ms []"
| "decode_role JNull = Some []"
| "decode_role _ = None"

fun decode_map_members ::
    "(json \<Rightarrow> 'a option) \<Rightarrow> (string \<times> json) list \<Rightarrow> (string \<rightharpoonup> 'a) \<Rightarrow> (string \<rightharpoonup> 'a) option" where
  "decode_map_members f [] m = Some m"
| "decode_map_members f ((k, v) # ms) m =
     Option.bind (f v) (\<lambda>x. decode_map_members f ms (m(unquote k \<mapsto> x)))"

fun decode_map :: "(json \<Rightarrow> 'a option) \<Rightarrow> (string \<rightharpoonup> 'a) \<Rightarrow> json \<Rightarrow> (string \<rightharpoonup> 'a) option" where
  "decode_map f m (JObj ms) = decode_map_members f ms m"
| "decode_map f m JNull = Some Map.empty"
| "decode_map f m _ = None"

definition decode_contract_field :: "string \<Rightarrow> json \<Rightarrow> contract \<Rightarrow> contract option" where
  "decode_contract_field k v c =
     (let n = fold_name k in
      if n = ''VERSION'' then
        map_option (\<lambda>s. c\<lparr>c_Version := s\<rparr>) (decode_string_field (c_Version c) v)
      else if n = ''SERVICES'' then
        map_option (\<lambda>s. c\<lparr>c_Services := slice_elems s\<rparr>) (decode_strings v)
      else if n = ''ROLES'' then
        map_option (\<lambda>s. c\<lparr>c_Roles := slice_elems s\<rparr>) (decode_strings v)
      else if n = ''PERMISSIONS'' then
        map_option (\<lambda>m. c\<lparr>c_Permissions := m\<rparr>) (decode_map decode_perms (c_Permissions c) v)
      else if n = ''ROLE_PERMISSIONS'' then
        map_option (\<lambda>m. c\<lparr>c_RolePerms := m\<rparr>) (decode_map decode_role (c_RolePerms c) v)
      else Some c)"

fun decode_contract_members :: "(string \<times> json) list \<Rightarrow> contract \<Rightarrow> contract option" where
  "decode_contract_members [] c = Some c"
| "decode_contract_members ((k, v) # ms) c =
     Option.bind (decode_contract_field (unquote k) v c) (decode_contract_members ms)"

fun decode_contract :: "json \<Rightarrow> contract option" where
  "decode_contract (JObj ms) = decode_contract_members ms zero_contract"
| "decode_contract JNull = Some zero_contract"
| "decode_contract _ = None"

text \<open>The text of the library's error is not modelled.\<close>

definition Unmarshal_contract :: "string \<Rightarrow> go_error + contract" where
  "Unmarshal_contract data =
     (case Option.bind (parse_json data) decode_contract of
        None \<Rightarrow> Inl (ForeignError ''json: cannot unmarshal'')
      | Some c \<Rightarrow> Inr c)"

section \<open>Names of constants\<close>

fun pascalizeRole :: "unicode \<Rightarrow> string \<Rightarrow> string" where
  "pascalizeRole uc [] = []"
| "pascalizeRole uc (c # cs) = ToUpper_byte c @ ToLower uc cs"

fun pascalizeSegment :: "string \<Rightarrow> string" where
  "pascalizeSegment [] = []"
| "pascalizeSegment (c # cs) = ToUpper_byte c @ cs"

definition permConstName :: "string \<Rightarrow> string" where
  "permConstName p = ''Permission'' @ Join '''' (map pascalizeSegment (Split CHR '':'' p))"

section \<open>Flattening the contract\<close>

text \<open>
  The lists that the loop over services and permissions appends to; \<open>scopeOf\<close>, which nothing
  reads, is left out. A service that \<open>permissions\<close> lacks has the nil list.
\<close>

record buckets =
  allPerms :: "string list"
  selfPerms :: "string list"
  platformPerms :: "string list"
  projectPerms :: "string list"
  dualPerms :: "string list"

definition empty_buckets :: buckets where
  "empty_buckets = \<lparr>allPerms = [], selfPerms = [], platformPerms = [], projectPerms = [], dualPerms = []\<rparr>"

definition add_perm :: "perm \<Rightarrow> buckets \<Rightarrow> buckets" where
  "add_perm p b0 =
     (let b = b0\<lparr>allPerms := allPerms b0 @ [p_Name p]\<rparr> in
      if p_Scope p = ''self'' then b\<lparr>selfPerms := selfPerms b @ [p_Name p]\<rparr>
      else if p_Scope p = ''platform'' then b\<lparr>platformPerms := platformPerms b @ [p_Name p]\<rparr>
      else if p_Scope p = ''project'' then b\<lparr>projectPerms := projectPerms b @ [p_Name p]\<rparr>
      else if p_Scope p = ''platform/project'' then b\<lparr>dualPerms := dualPerms b @ [p_Name p]\<rparr>
      else b)"

definition flatten :: "contract \<Rightarrow> buckets" where
  "flatten c =
     (let b = fold (\<lambda>svc. fold add_perm (map_index [] (c_Permissions c) svc)) (c_Services c) empty_buckets
      in b\<lparr>allPerms := sort (allPerms b)\<rparr>)"

section \<open>The blocks of the generated file\<close>

text \<open>One string per line, without its newline.\<close>

abbreviation tab :: "string \<Rightarrow> string" where
  "tab s \<equiv> CHR 0x09 # s"

text \<open>The UTF-8 bytes of the arrow in some comments.\<close>

definition arrow :: string where
  "arrow = [CHR 0xE2, CHR 0x86, CHR 0x92]"

definition emit_header :: "string \<Rightarrow> contract \<Rightarrow> string list" where
  "emit_header date c =
   [''// Code generated by permission-contract/codegen-go.mjs DO NOT EDIT.'',
     ''// Source: permission-contract v'' @ c_Version c,
     ''// Generated at: '' @ date,
     ''// Regenerate via: node scripts/codegen-go.mjs permissions.json > role_permissions.go'',
     ''//'',
     ''// The Permission type, PERM_SCOPE map, and ROLE_PERMISSIONS map are derived'',
     ''// from the language-agnostic JSON contract. To change the platform's role '' @ arrow,
     ''// permission matrix, edit permissions.json in wazobiatech/permission-contract'',
     ''// and re-run codegen '' @ em_dash @ '' do not edit this file by hand.'',
     ''//'',
     ''// Permission naming convention: {service}:{resource}:{action}.'',
     ''//   service  '' @ em_dash @ '' one of: '' @ Join '', '' (c_Services c),
     ''//   resource '' @ em_dash @ '' domain noun (project, users, posts, members, ...)'',
     ''//   action   '' @ em_dash @ '' verb (view, write, delete, manage, ...)'',
     ''//'',
     ''// v1.3.0 perm scopes '' @ em_dash @ '' the resolver uses PERM_SCOPE[perm] to gate which'',
     ''// path (platform-user vs tenant-user) is valid for a given perm:'',
     ''//   self              '' @ em_dash @ '' universal, granted implicitly (no role needed)'',
     ''//   platform          '' @ em_dash @ '' granted via ROLE_PERMISSIONS (platform-user path);'',
     ''//                       cannot be bundled into a TenantRole'',
     ''//   project           '' @ em_dash @ '' granted via TenantRole (tenant-user path);'',
     ''//                       cannot appear in ROLE_PERMISSIONS'',
     ''//   platform/project  '' @ em_dash @ '' valid via either path (dual-scope).'',
     ''//'',
     ''// Package helios_permissions mirrors the TS / Python SDKs. Callers gate'',
     ''// decisions on the returned []Permission; a perm not listed in this file is'',
     ''// a typo and will fail to compile against the Permission type alias.'',
     ''package helios_permissions'',
     '''']"

definition emit_roles :: "unicode \<Rightarrow> contract \<Rightarrow> string list" where
  "emit_roles uc c =
   [''// Role is the closed enum of platform roles. Mirrors the RoleType Prisma'',
     ''// enum in Helios. New roles must be added to the contract's roles[] array'',
     ''// and the codegen re-run.'',
     ''type Role string'',
     '''',
     ''const ('']
   @ concat (map (\<lambda>r. [tab (''Role'' @ pascalizeRole uc r @ '' Role = '' @ strconv_Quote uc r)]) (c_Roles c))
   @ ['')'',
     '''']"

definition emit_perm_consts :: "unicode \<Rightarrow> contract \<Rightarrow> string list" where
  "emit_perm_consts uc c =
   [''// Permission is the closed string union of every permission in the platform.'',
     ''// Compile-time guard: a perm not listed here is a typo.'',
     ''type Permission string'',
     '''',
     ''const ('']
   @ concat (map (\<lambda>p. [tab (permConstName p @ '' Permission = '' @ strconv_Quote uc p)]) (allPerms (flatten c)))
   @ ['')'',
     '''']"

definition emit_scopes :: "string list" where
  "emit_scopes =
   [''// PermScope is the closed set of valid permission scopes. Mirrors the'',
     ''// contract's scope enum.'',
     ''type PermScope string'',
     '''',
     ''const ('',
     tab (''ScopeSelf              PermScope = '' @ dq ''self''),
     tab (''ScopePlatform          PermScope = '' @ dq ''platform''),
     tab (''ScopeProject           PermScope = '' @ dq ''project''),
     tab (''ScopePlatformProject   PermScope = '' @ dq ''platform/project''),
     '')'',
     '''']"

definition emitTuple :: "string \<Rightarrow> string list \<Rightarrow> string list" where
  "emitTuple name items =
   [''var '' @ name @ '' = []Permission{''] @ map (\<lambda>p. tab (permConstName p @ '','')) items @ [''}'',
     '''']"

definition emit_tuples :: "contract \<Rightarrow> string list" where
  "emit_tuples c =
   [''// SELF_PERMISSIONS '' @ em_dash @ '' universal perms granted implicitly to every'',
     ''// authenticated user. Never appear in any ROLE_PERMISSIONS entry.'']
   @ emitTuple ''SELF_PERMISSIONS'' (selfPerms (flatten c))
   @ [''// PLATFORM_PERMISSIONS '' @ em_dash @ '' granted via ROLE_PERMISSIONS[role] (platform-user'',
     ''// path). Cannot be bundled into a TenantRole.'']
   @ emitTuple ''PLATFORM_PERMISSIONS'' (platformPerms (flatten c))
   @ [''// PROJECT_PERMISSIONS '' @ em_dash @ '' granted via TenantRole (tenant-user path). Cannot'',
     ''// appear in any ROLE_PERMISSIONS entry.'']
   @ emitTuple ''PROJECT_PERMISSIONS'' (projectPerms (flatten c))
   @ [''// DUAL_PERMISSIONS '' @ em_dash @ '' valid via either the platform-user path'',
     ''// (ROLE_PERMISSIONS) or the tenant-user path (TenantRole bundle).'']
   @ emitTuple ''DUAL_PERMISSIONS'' (dualPerms (flatten c))"

definition emit_PERM_SCOPE :: "contract \<Rightarrow> string list" where
  "emit_PERM_SCOPE c =
   [''// PERM_SCOPE '' @ em_dash @ '' perm '' @ arrow @ '' scope lookup, populated at module load. The two-track'',
     ''// resolver in Helios checks PERM_SCOPE[perm] to decide which path'',
     ''// (platform-user vs tenant-user) is valid for the perm.'',
     ''var PERM_SCOPE = map[Permission]PermScope{'']
   @ concat (map (\<lambda>p. [tab (permConstName p @ '': ScopeSelf,'')]) (selfPerms (flatten c)))
   @ concat (map (\<lambda>p. [tab (permConstName p @ '': ScopePlatform,'')]) (platformPerms (flatten c)))
   @ concat (map (\<lambda>p. [tab (permConstName p @ '': ScopeProject,'')]) (projectPerms (flatten c)))
   @ concat (map (\<lambda>p. [tab (permConstName p @ '': ScopePlatformProject,'')]) (dualPerms (flatten c)))
   @ [''}'',
     '''']"

definition emit_Roles :: "unicode \<Rightarrow> contract \<Rightarrow> string list" where
  "emit_Roles uc c =
   [''// Roles lists every role in the platform. Same order as the contract's'',
     ''// roles[] array.'',
     ''var Roles = []Role{'']
   @ concat (map (\<lambda>r. [tab (''Role'' @ pascalizeRole uc r @ '','')]) (c_Roles c))
   @ [''}'',
     '''']"

definition emit_predicates :: "unicode \<Rightarrow> contract \<Rightarrow> string list" where
  "emit_predicates uc c =
   [''// IsValidPermission reports whether p is a known permission string.'',
     ''func IsValidPermission(p Permission) bool {'',
     tab ''_, ok := PERM_SCOPE[p]'',
     tab ''return ok'',
     ''}'',
     '''',
     ''// IsValidRole reports whether r is a known role string.'',
     ''func IsValidRole(r Role) bool {'',
     tab ''switch r {'']
   @ concat (map (\<lambda>r. [tab (''case Role'' @ pascalizeRole uc r @ '':''),
                         tab (tab ''return true'')]) (c_Roles c))
   @ [tab ''}'',
     tab ''return false'',
     ''}'',
     '''',
     ''// IsSelfScope reports whether perm has scope '' @ dq ''self'' @ '' (universal '' @ em_dash @ '' granted'',
     ''// without any role lookup). Used by the resolver's Step 1.'',
     ''func IsSelfScope(perm Permission) bool {'',
     tab ''return PERM_SCOPE[perm] == ScopeSelf'',
     ''}'',
     '''',
     ''// IsPlatformGrantable reports whether perm is grantable via the'',
     ''// platform-user path (scope is '' @ dq ''platform'' @ '' or '' @ dq ''platform/project'' @ '').'',
     ''func IsPlatformGrantable(perm Permission) bool {'',
     tab ''s := PERM_SCOPE[perm]'',
     tab ''return s == ScopePlatform || s == ScopePlatformProject'',
     ''}'',
     '''',
     ''// IsTenantGrantable reports whether perm is grantable via the tenant-user'',
     ''// path. Scope '' @ dq ''project'' @ '' and '' @ dq ''platform/project'' @ '' are grantable; any perm NOT'',
     ''// in PERM_SCOPE is treated as tenant-defined and therefore grantable via'',
     ''// TenantRole.'',
     ''func IsTenantGrantable(perm string) bool {'',
     tab ''s, ok := PERM_SCOPE[Permission(perm)]'',
     tab ''if !ok {'',
     tab (tab ''return true''),
     tab ''}'',
     tab ''return s == ScopeProject || s == ScopePlatformProject'',
     ''}'',
     '''']"

definition emit_role_entry :: "unicode \<Rightarrow> contract \<Rightarrow> string \<Rightarrow> string list" where
  "emit_role_entry uc c r =
   (let perms = sort (map_index [] (c_RolePerms c) r) in
     [tab (''Role'' @ pascalizeRole uc r @ '': {'')] @ map (\<lambda>p. tab (tab (permConstName p @ '',''))) perms @ [tab ''},''])"

definition emit_ROLE_PERMISSIONS :: "unicode \<Rightarrow> contract \<Rightarrow> string list" where
  "emit_ROLE_PERMISSIONS uc c =
   [''// ROLE_PERMISSIONS is the canonical role '' @ arrow @ '' permission map. Every role lists'',
     ''// its permissions explicitly '' @ em_dash @ '' there is no inheritance. The contract'',
     ''// validator (scripts/validate.mjs) enforces:'',
     ''//   - helios:tenant:switch:self is present as a self-scope perm (universal).'',
     ''//   - helios:tenant:transfer is OWNER-only (platform scope).'',
     ''//   - Every role has >= 1 permission.'',
     ''//   - No role references a perm outside the vocabulary.'',
     ''//   - No self or project perms in any role.'',
     ''var ROLE_PERMISSIONS = map[Role][]Permission{'']
   @ concat (map (emit_role_entry uc c) (c_Roles c))
   @ [''}'',
     '''']"

definition emit_functions :: "string list" where
  "emit_functions =
   [''// ResolvePermissions returns ROLE_PERMISSIONS[role]. Returns an empty slice'',
     ''// for unknown roles (defensive '' @ em_dash @ '' caller code should be using the typed'',
     ''// Role constants, but a runtime string from an untrusted source might not be).'',
     ''func ResolvePermissions(role Role) []Permission {'',
     tab ''if perms, ok := ROLE_PERMISSIONS[role]; ok {'',
     tab (tab ''return perms''),
     tab ''}'',
     tab ''return []Permission{}'',
     ''}'',
     '''',
     ''// RoleHasPermission reports whether role is granted perm. Both args must be'',
     ''// typed constants for the call to compile '' @ em_dash @ '' a typo in a perm string will'',
     ''// not satisfy the Permission type alias.'',
     ''func RoleHasPermission(role Role, perm Permission) bool {'',
     tab ''for _, p := range ROLE_PERMISSIONS[role] {'',
     tab (tab ''if p == perm {''),
     tab (tab ''return true''),
     tab (tab ''}''),
     tab ''}'',
     tab ''return false'',
     ''}'',
     '''',
     ''// IsUniversalPerm reports whether perm is universal-by-contract '' @ em_dash @ '' granted to'',
     ''// every authenticated caller without consulting Helios. Holds when either the'',
     ''// perm is self-scope, or it appears in every role's ROLE_PERMISSIONS entry'',
     ''// (OWNER + ADMIN + EDITOR + VIEWER).'',
     ''//'',
     ''// Why this exists: Helios stores per-(user, tenant) membership rows. Root-tenant'',
     ''// users (Mercury's platform admins) and any other tenantless caller have no row'',
     ''// to look up. Without this short-circuit, every CallerHasPermission for a'',
     ''// universal perm would resolve to not_a_member and 403 the caller. The contract'',
     ''// invariant is that these perms do NOT depend on tenant membership '' @ em_dash @ '' they are'',
     ''// universal.'',
     ''//'',
     ''// The check trusts the contract: if a perm is in every role's perm array, the'',
     ''// contract author intends every authenticated user to have it. Adding a perm to'',
     ''// all four roles is a deliberate, reviewable contract decision '' @ em_dash @ '' the SDK honors'',
     ''// it without re-fetching.'',
     ''func IsUniversalPerm(perm Permission) bool {'',
     tab ''if IsSelfScope(perm) {'',
     tab (tab ''return true''),
     tab ''}'',
     tab ''for _, role := range Roles {'',
     tab (tab ''if !RoleHasPermission(role, perm) {''),
     tab (tab (tab ''return false'')),
     tab (tab ''}''),
     tab ''}'',
     tab ''return true'',
     ''}'']"

section \<open>The program\<close>

definition emit_lines :: "unicode \<Rightarrow> string \<Rightarrow> contract \<Rightarrow> string list" where
  "emit_lines uc date c =
     emit_header date c @ emit_roles uc c @ emit_perm_consts uc c @ emit_scopes @ emit_tuples c
     @ emit_PERM_SCOPE c @ emit_Roles uc c @ emit_predicates uc c @ emit_ROLE_PERMISSIONS uc c
     @ emit_functions"

definition lines_text :: "string list \<Rightarrow> string" where
  "lines_text ls = concat (map (\<lambda>l. l @ [CHR 0x0A]) ls)"

definition emit :: "unicode \<Rightarrow> string \<Rightarrow> contract \<Rightarrow> go_error + string" where
  "emit uc date c =
     (if c_Version c = '''' then Inl (ErrorString ''contract: missing version'')
      else if c_Roles c = [] then Inl (ErrorString ''contract: no roles'')
      else Inr (lines_text (emit_lines uc date c)))"

text \<open>\<open>main\<close>: the exit code, and what is written to the standard output and to the standard error.\<close>

record run_result =
  exit_code :: nat
  std_out :: string
  std_err :: string

definition codegen_main ::
    "unicode \<Rightarrow> string \<Rightarrow> (string \<Rightarrow> go_error + string) \<Rightarrow> string list \<Rightarrow> run_result" where
  "codegen_main uc date ReadFile Args =
     (if length Args \<noteq> 2 then
        \<lparr>exit_code = 2, std_out = '''', std_err = ''usage: codegen <path-to-permissions.json>'' @ [CHR 0x0A]\<rparr>
      else let path = Args ! 1 in
        (case ReadFile path of
           Inl err \<Rightarrow>
             \<lparr>exit_code = 1, std_out = '''', std_err = ''read '' @ path @ '': '' @ Error_text err @ [CHR 0x0A]\<rparr>
         | Inr data \<Rightarrow>
             (case Unmarshal_contract data of
                Inl err \<Rightarrow>
                  \<lparr>exit_code = 1, std_out = '''',
                   std_err = ''parse '' @ path @ '': '' @ Error_text err @ [CHR 0x0A]\<rparr>
              | Inr c \<Rightarrow>
                  (case emit uc date c of
                     Inl err \<Rightarrow>
                       \<lparr>exit_code = 1, std_out = '''', std_err = Error_text err @ [CHR 0x0A]\<rparr>
                   | Inr text \<Rightarrow> \<lparr>exit_code = 0, std_out = text, std_err = ''''\<rparr>))))"

section \<open>What flattening computes\<close>

text \<open>The permissions in the order of the loops, and the names of one scope among them.\<close>

definition listed_perms :: "contract \<Rightarrow> perm list" where
  "listed_perms c = concat (map (map_index [] (c_Permissions c)) (c_Services c))"

definition names_of_scope :: "string \<Rightarrow> perm list \<Rightarrow> string list" where
  "names_of_scope s ps = map p_Name (filter (\<lambda>p. p_Scope p = s) ps)"

lemma names_of_scope_simps [simp]:
  "names_of_scope s [] = []"
  "names_of_scope s (p # ps) = (if p_Scope p = s then p_Name p # names_of_scope s ps else names_of_scope s ps)"
  by (simp_all add: names_of_scope_def)

lemma fold_add_perm:
  "fold add_perm ps b =
     \<lparr>allPerms = allPerms b @ map p_Name ps, selfPerms = selfPerms b @ names_of_scope ''self'' ps,
      platformPerms = platformPerms b @ names_of_scope ''platform'' ps,
      projectPerms = projectPerms b @ names_of_scope ''project'' ps,
      dualPerms = dualPerms b @ names_of_scope ''platform/project'' ps\<rparr>"
  by (induction ps arbitrary: b) (simp_all add: add_perm_def Let_def)

lemma flatten_eq:
  "flatten c =
     \<lparr>allPerms = sort (map p_Name (listed_perms c)), selfPerms = names_of_scope ''self'' (listed_perms c),
      platformPerms = names_of_scope ''platform'' (listed_perms c),
      projectPerms = names_of_scope ''project'' (listed_perms c),
      dualPerms = names_of_scope ''platform/project'' (listed_perms c)\<rparr>"
proof -
  have "fold (\<lambda>svc. fold add_perm (f svc)) svcs b = fold add_perm (concat (map f svcs)) b"
    for f :: "string \<Rightarrow> perm list" and svcs b
    by (induction svcs arbitrary: b) simp_all
  then show ?thesis by (simp add: flatten_def listed_perms_def fold_add_perm empty_buckets_def)
qed
section \<open>The naming convention\<close>

text \<open>\<open>service:resource:action\<close>: segments of lower case letters, digits and underscores that start with a letter.\<close>

definition lower_letter :: "char \<Rightarrow> bool" where
  "lower_letter c = (97 \<le> (of_char c :: nat) \<and> (of_char c :: nat) \<le> 122)"

definition upper_letter :: "char \<Rightarrow> bool" where
  "upper_letter c = (65 \<le> (of_char c :: nat) \<and> (of_char c :: nat) \<le> 90)"

definition name_char :: "char \<Rightarrow> bool" where
  "name_char c = (lower_letter c \<or> is_digit c \<or> c = CHR ''_'')"

fun name_segment :: "string \<Rightarrow> bool" where
  "name_segment [] = False"
| "name_segment (c # cs) = (lower_letter c \<and> list_all name_char cs)"

definition conventional :: "string \<Rightarrow> bool" where
  "conventional p = list_all name_segment (Split CHR '':'' p)"

text \<open>Reading a constant's name back: each upper case letter starts a segment.\<close>

definition segment_start :: "char \<Rightarrow> string" where
  "segment_start c = (if upper_letter c then [CHR '':'', lower_ascii c] else [c])"

definition name_of_const :: "string \<Rightarrow> string" where
  "name_of_const s = tl (concat (map segment_start (drop 10 s)))"

lemma underscore_code: "(of_char CHR ''_'' :: nat) = 95"
  by code_simp

lemma upper_code: "lower_letter c \<Longrightarrow> (of_char (upper_ascii c) :: nat) = of_char c - 32"
  by (auto simp: lower_letter_def upper_ascii_def)

lemma segment_start_upper: "lower_letter c \<Longrightarrow> segment_start (upper_ascii c) = [CHR '':'', c]"
  using upper_code [of c]
  by (auto simp: segment_start_def lower_letter_def upper_letter_def lower_ascii_def)

lemma name_char_kept: "name_char c \<Longrightarrow> segment_start c = [c]"
  by (auto simp: segment_start_def name_char_def lower_letter_def upper_letter_def is_digit_def underscore_code)

lemma segment_read_back: "name_segment s \<Longrightarrow> concat (map segment_start (pascalizeSegment s)) = CHR '':'' # s"
proof (cases s)
  case (Cons c cs)
  assume s: "name_segment s"
  have "list_all name_char cs \<Longrightarrow> concat (map segment_start cs) = cs" for cs
    by (induction cs) (simp_all add: name_char_kept)
  with s Cons show ?thesis
    by (simp add: ToUpper_byte_def segment_start_upper, simp add: lower_letter_def)
qed simp

lemma Join_colon: "ss \<noteq> [] \<Longrightarrow> concat (map (\<lambda>s. c # s) ss) = c # Join [c] ss"
  by (induction "[c]" ss rule: Join.induct) auto

lemma concat_map_concat: "concat (map f (concat (map g xs))) = concat (map (concat \<circ> map f \<circ> g) xs)"
  by (induction xs) simp_all

lemma permConstName_inverse: "conventional p \<Longrightarrow> name_of_const (permConstName p) = p"
proof -
  assume "conventional p"
  then have "\<forall>s \<in> set (Split CHR '':'' p). name_segment s"
    by (simp add: conventional_def list_all_iff)
  then have "map (concat \<circ> map segment_start \<circ> pascalizeSegment) (Split CHR '':'' p)
      = map (\<lambda>s. CHR '':'' # s) (Split CHR '':'' p)"
    by (intro map_cong) (simp_all add: segment_read_back)
  moreover have "concat (map (\<lambda>s. CHR '':'' # s) (Split CHR '':'' p)) = CHR '':'' # p"
    by (simp add: Join_colon Join_Split)
  ultimately have "concat (map segment_start (concat (map pascalizeSegment (Split CHR '':'' p)))) = CHR '':'' # p"
    by (simp only: concat_map_concat)
  then show ?thesis
    by (simp add: name_of_const_def permConstName_def)
qed

lemma permConstName_inj: "conventional p \<Longrightarrow> conventional q \<Longrightarrow> permConstName p = permConstName q \<longleftrightarrow> p = q"
  using permConstName_inverse by metis

lemma const_name_no_colon:
  assumes "conventional p"
  shows "CHR '':'' \<notin> set (permConstName p)" and "CHR '' '' \<notin> set (permConstName p)"
proof -
  have "CHR '':'' \<notin> set (pascalizeSegment s) \<and> CHR '' '' \<notin> set (pascalizeSegment s)" if s: "name_segment s" for s
  proof (cases s)
    case (Cons c cs)
    have "upper_ascii c \<noteq> CHR '':''" and "upper_ascii c \<noteq> CHR '' ''"
    proof -
      have "(of_char (upper_ascii c) :: nat) \<noteq> of_char CHR '':''" "(of_char (upper_ascii c) :: nat) \<noteq> of_char CHR '' ''"
        using s Cons upper_code [of c] by (auto simp: lower_letter_def)
      then show "upper_ascii c \<noteq> CHR '':''" and "upper_ascii c \<noteq> CHR '' ''" by metis+
    qed
    moreover have "\<not> name_char CHR '':''" "\<not> name_char CHR '' ''" by code_simp+
    ultimately show ?thesis using s Cons
      by (auto simp: ToUpper_byte_def lower_letter_def list_all_iff)
  qed simp
  then show "CHR '':'' \<notin> set (permConstName p)" and "CHR '' '' \<notin> set (permConstName p)"
    using assms by (auto simp: conventional_def list_all_iff permConstName_def)
qed

section \<open>Properties\<close>

lemma decode_contract_fails:
  assumes "(k, v) \<in> set ms" and "\<And>c. decode_contract_field (unquote k) v c = None"
  shows "decode_contract_members ms c = None"
  using assms(1)
proof (induction ms arbitrary: c)
  case (Cons m ms)
  then show ?case
    using assms(2) by (cases m) (auto simp: bind_eq_None_conv)
qed simp

lemma decode_map_fails:
  "(k, v) \<in> set ms \<Longrightarrow> f v = None \<Longrightarrow> decode_map_members f ms m = None"
proof (induction ms arbitrary: m)
  case (Cons x ms)
  then show ?case by (cases x) (auto simp: bind_eq_None_conv)
qed simp

lemma decode_list_fails: "v \<in> set vs \<Longrightarrow> f v = None \<Longrightarrow> decode_list f vs = None"
  by (induction vs) (auto simp: bind_eq_None_conv)

lemma lines_text_append [simp]: "lines_text (xs @ ys) = lines_text xs @ lines_text ys"
  by (simp add: lines_text_def)

lemma lines_text_Cons [simp]: "lines_text (l # ls) = l @ CHR 0x0A # lines_text ls"
  by (simp add: lines_text_def)

lemma emit_text_not_Nil: "lines_text (emit_lines uc date c) \<noteq> []"
  by (simp add: emit_lines_def emit_header_def)

text \<open>
  C22: The code generator prints a file exactly when it was given one argument, the file could be
  read and decoded, and the contract has a version and a role; then it exits with 0 and prints
  the blocks of the file and no error. In every other case it prints no file, reports an error and exits
  with 1, or with 2 when the number of arguments is wrong.
\<close>

theorem codegen_exit_codes:
  "(exit_code (codegen_main uc date ReadFile Args) = 0 \<longleftrightarrow>
      (\<exists>prog path data c. Args = [prog, path] \<and> ReadFile path = Inr data \<and> Unmarshal_contract data = Inr c
         \<and> c_Version c \<noteq> '''' \<and> c_Roles c \<noteq> []
         \<and> std_out (codegen_main uc date ReadFile Args) = lines_text (emit_lines uc date c)))
   \<and> (exit_code (codegen_main uc date ReadFile Args) = 2 \<longleftrightarrow> length Args \<noteq> 2)
   \<and> exit_code (codegen_main uc date ReadFile Args) \<le> 2
   \<and> (std_out (codegen_main uc date ReadFile Args) = '''' \<longleftrightarrow> exit_code (codegen_main uc date ReadFile Args) \<noteq> 0)
   \<and> (std_err (codegen_main uc date ReadFile Args) = '''' \<longleftrightarrow> exit_code (codegen_main uc date ReadFile Args) = 0)"
proof (cases "length Args = 2")
  case False
  then show ?thesis by (auto simp: codegen_main_def)
next
  case True
  then obtain prog path where Args: "Args = [prog, path]"
    by (auto simp: length_Suc_conv numeral_2_eq_2)
  show ?thesis
    using emit_text_not_Nil [of uc date]
    by (auto simp: Args codegen_main_def emit_def Let_def split: sum.splits if_splits)
qed

text \<open>
  A contract of the shape before version 1.3.0, in which a permission is a plain string and
  not an object with a name and a scope, is refused as a whole wherever the string stands: the
  generator exits with 1 and prints nothing, rather than a table without that permission.
\<close>

lemma plain_string_permission_refused:
  assumes "parse_json data = Some (JObj ms)"
    and "(k, JObj services) \<in> set ms" and "fold_name (unquote k) = ''PERMISSIONS''"
    and "(svc, JArr perms) \<in> set services" and "JStr name \<in> set perms"
  shows "codegen_main uc date (\<lambda>_. Inr data) [prog, path] =
    \<lparr>exit_code = 1, std_out = '''',
     std_err = ''parse '' @ path @ '': json: cannot unmarshal'' @ [CHR 0x0A]\<rparr>"
proof -
  have "decode_perms (JArr perms) = None"
    using decode_list_fails [OF assms(5), of decode_perm] by simp
  then have "decode_map decode_perms m (JObj services) = None" for m
    using decode_map_fails [OF assms(4), of decode_perms m] by simp
  then have "decode_contract_field (unquote k) (JObj services) c = None" for c
    using assms(3) by (simp add: decode_contract_field_def)
  from decode_contract_fails [OF assms(2) this] have "decode_contract (JObj ms) = None"
    by simp
  then show ?thesis
    using assms(1) by (simp add: codegen_main_def Unmarshal_contract_def)
qed

text \<open>
  C23: The name of a permission can be read back from the name of its constant when it keeps the
  convention (lower case segments that start with a letter), so no two such permissions share a
  constant. Outside the convention they can, and the generated file then declares a constant twice.
\<close>

theorem const_name_read_back:
  "(conventional p \<longrightarrow> name_of_const (permConstName p) = p)
   \<and> permConstName ''muse:postsRead'' = permConstName ''muse:posts:read''"
proof (intro conjI impI)
  show "permConstName ''muse:postsRead'' = permConstName ''muse:posts:read''" by code_simp
qed (rule permConstName_inverse)

theorem const_name_read_back_witness:
  "name_of_const (permConstName ''mercury:auth_config_oauth:create'') = ''mercury:auth_config_oauth:create''"
proof -
  have "conventional ''mercury:auth_config_oauth:create''" by code_simp
  with const_name_read_back [of "''mercury:auth_config_oauth:create''"] show ?thesis by blast
qed

lemma append_sep_inj:
  assumes "x \<notin> set u" and "x \<notin> set v" and "u @ x # s = v @ x # t"
  shows "u = v \<and> s = t"
  using assms
proof (induction u arbitrary: v)
  case Nil
  then show ?case by (cases v) auto
next
  case (Cons c u)
  then show ?case by (cases v) auto
qed

text \<open>The constant that \<open>PERM_SCOPE\<close> gives a scope, for the four scopes that the generator knows.\<close>

definition scope_const :: "string \<Rightarrow> string option" where
  "scope_const s = map_of [(''self'', ''ScopeSelf''), (''platform'', ''ScopePlatform''),
     (''project'', ''ScopeProject''), (''platform/project'', ''ScopePlatformProject'')] s"

definition scope_line :: "string \<Rightarrow> string \<Rightarrow> string" where
  "scope_line n sc = tab (permConstName n @ '': '' @ sc @ '','')"

definition const_line :: "unicode \<Rightarrow> string \<Rightarrow> string" where
  "const_line uc n = tab (permConstName n @ '' Permission = '' @ strconv_Quote uc n)"

lemma scope_line_inj:
  assumes "conventional n" and "conventional n'"
  shows "scope_line n sc = scope_line n' sc' \<longleftrightarrow> n = n' \<and> sc = sc'"
proof
  assume "scope_line n sc = scope_line n' sc'"
  then have "permConstName n @ CHR '':'' # ('' '' @ sc @ '','') = permConstName n' @ CHR '':'' # ('' '' @ sc' @ '','')"
    by (simp add: scope_line_def)
  with append_sep_inj [OF const_name_no_colon(1) [OF assms(1)] const_name_no_colon(1) [OF assms(2)]]
  have "permConstName n = permConstName n' \<and> '' '' @ sc @ '','' = '' '' @ sc' @ '',''" by blast
  then show "n = n' \<and> sc = sc'" using permConstName_inj [OF assms] by simp
qed simp

lemma const_line_inj:
  assumes "conventional n" and "conventional n'"
  shows "const_line uc n = const_line uc n' \<longleftrightarrow> n = n'"
proof
  assume "const_line uc n = const_line uc n'"
  then have "permConstName n @ CHR '' '' # (''Permission = '' @ strconv_Quote uc n)
      = permConstName n' @ CHR '' '' # (''Permission = '' @ strconv_Quote uc n')"
    by (simp add: const_line_def)
  with append_sep_inj [OF const_name_no_colon(2) [OF assms(1)] const_name_no_colon(2) [OF assms(2)]]
  show "n = n'" using permConstName_inj [OF assms] by blast
qed simp

lemma set_names_of_scope:
  "n \<in> set (names_of_scope s ps) \<longleftrightarrow> (\<exists>p \<in> set ps. p_Scope p = s \<and> p_Name p = n)"
  by (auto simp: names_of_scope_def)

lemma scope_line_folds:
  "tab (permConstName n @ '': ScopeSelf,'') = scope_line n ''ScopeSelf''"
  "tab (permConstName n @ '': ScopePlatform,'') = scope_line n ''ScopePlatform''"
  "tab (permConstName n @ '': ScopeProject,'') = scope_line n ''ScopeProject''"
  "tab (permConstName n @ '': ScopePlatformProject,'') = scope_line n ''ScopePlatformProject''"
  by (simp_all add: scope_line_def)

lemma scope_line_not_fixed:
  "scope_line n sc \<noteq> []" "x \<noteq> CHR 0x09 \<Longrightarrow> scope_line n sc \<noteq> x # s"
  by (simp_all add: scope_line_def)

lemma scope_lines:
  "scope_line n sc \<in> set (emit_PERM_SCOPE c) \<longleftrightarrow>
     (\<exists>p \<in> set (listed_perms c). \<exists>sc'. scope_const (p_Scope p) = Some sc' \<and> scope_line n sc = scope_line (p_Name p) sc')"
proof -
  have "scope_line n sc \<in> set (emit_PERM_SCOPE c) \<longleftrightarrow>
      (\<exists>n' \<in> set (names_of_scope ''self'' (listed_perms c)). scope_line n sc = scope_line n' ''ScopeSelf'') \<or>
      (\<exists>n' \<in> set (names_of_scope ''platform'' (listed_perms c)). scope_line n sc = scope_line n' ''ScopePlatform'') \<or>
      (\<exists>n' \<in> set (names_of_scope ''project'' (listed_perms c)). scope_line n sc = scope_line n' ''ScopeProject'') \<or>
      (\<exists>n' \<in> set (names_of_scope ''platform/project'' (listed_perms c)).
        scope_line n sc = scope_line n' ''ScopePlatformProject'')"
    unfolding emit_PERM_SCOPE_def scope_line_folds flatten_eq
    by (simp add: concat_map_singleton image_iff scope_line_not_fixed)
  then show ?thesis by (auto simp: scope_const_def Bex_def set_names_of_scope)
qed

text \<open>
  C16: When every permission that the contract lists keeps the naming convention, the
  \<open>PERM_SCOPE\<close> of the generated file maps a permission that keeps it too to a scope exactly when a
  service in the contract's list lists it with that scope, and the file declares its constant
  exactly when such a service lists it at all (outside the convention two names can share a
  constant). So a permission with a
  scope other than the four has a constant and no scope, which \<open>IsValidPermission\<close> refuses and
  \<open>IsTenantGrantable\<close> takes for one that a tenant defined.
\<close>

theorem emitted_tables_exact:
  assumes "\<forall>p \<in> set (listed_perms c). conventional (p_Name p)" and "conventional n"
  shows "(scope_line n sc \<in> set (emit_PERM_SCOPE c) \<longleftrightarrow>
      (\<exists>p \<in> set (listed_perms c). p_Name p = n \<and> scope_const (p_Scope p) = Some sc))
    \<and> (const_line uc n \<in> set (emit_perm_consts uc c) \<longleftrightarrow> n \<in> p_Name ` set (listed_perms c))"
proof
  show "scope_line n sc \<in> set (emit_PERM_SCOPE c) \<longleftrightarrow>
      (\<exists>p \<in> set (listed_perms c). p_Name p = n \<and> scope_const (p_Scope p) = Some sc)"
    using assms by (auto simp: scope_lines scope_line_inj)
  have "const_line uc n \<in> set (emit_perm_consts uc c) \<longleftrightarrow> (\<exists>p \<in> set (listed_perms c). const_line uc n = const_line uc (p_Name p))"
    by (auto simp: emit_perm_consts_def flatten_eq const_line_def)
  then show "const_line uc n \<in> set (emit_perm_consts uc c) \<longleftrightarrow> n \<in> p_Name ` set (listed_perms c)"
    using assms by (auto simp: const_line_inj)
qed

text \<open>Tables for the witness, in which every rune is printable and lower case.\<close>

definition ascii_tables :: unicode where
  "ascii_tables = \<lparr>IsPrint = (\<lambda>_. True), unicode_ToLower = id\<rparr>"

definition small_contract :: contract where
  "small_contract = \<lparr>c_Version = ''1'', c_Services = [''muse'', ''zeta''], c_Roles = [''OWNER''],
     c_Permissions = map_of [(''muse'', [\<lparr>p_Name = ''muse:posts:read'', p_Scope = ''self''\<rparr>]),
       (''zeta'', [\<lparr>p_Name = ''zeta:fleet:view'', p_Scope = ''tenant''\<rparr>,
                   \<lparr>p_Name = ''zeta:fleet:edit'', p_Scope = ''platform''\<rparr>])],
     c_RolePerms = map_of [(''OWNER'', [''zeta:fleet:view'', ''zeta:fleet:edit''])]\<rparr>"

lemma small_contract_listed: "listed_perms small_contract =
   [\<lparr>p_Name = ''muse:posts:read'', p_Scope = ''self''\<rparr>, \<lparr>p_Name = ''zeta:fleet:view'', p_Scope = ''tenant''\<rparr>,
    \<lparr>p_Name = ''zeta:fleet:edit'', p_Scope = ''platform''\<rparr>]"
  by (simp add: listed_perms_def small_contract_def)

lemma small_contract_conventional:
  "conventional ''muse:posts:read''" "conventional ''zeta:fleet:view''" "conventional ''zeta:fleet:edit''"
  by code_simp+

theorem emitted_tables_exact_witness:
  "scope_line ''zeta:fleet:edit'' ''ScopePlatform'' \<in> set (emit_PERM_SCOPE small_contract)
   \<and> (\<forall>sc. scope_line ''zeta:fleet:view'' sc \<notin> set (emit_PERM_SCOPE small_contract))
   \<and> const_line ascii_tables ''zeta:fleet:view'' \<in> set (emit_perm_consts ascii_tables small_contract)"
  using emitted_tables_exact [of small_contract "''zeta:fleet:edit''" "''ScopePlatform''" ascii_tables]
    emitted_tables_exact [of small_contract "''zeta:fleet:view''" _ ascii_tables]
  by (simp add: small_contract_listed small_contract_conventional scope_const_def)

lemma sort_cong_mset: "mset xs = mset ys \<Longrightarrow> sort xs = sort ys"
  by (simp add: properties_for_sort)

text \<open>
  The blocks that the generator sorts do not depend on the order of the contract: two
  contracts with the same names and, for each role, the same permissions in any order give the
  same constants and the same \<open>ROLE_PERMISSIONS\<close>; each block is sorted and loses nothing.
\<close>

lemma sorted_blocks_stable:
  assumes "mset (map p_Name (listed_perms c)) = mset (map p_Name (listed_perms c'))"
    and "c_Roles c = c_Roles c'"
    and "\<And>r. mset (map_index [] (c_RolePerms c) r) = mset (map_index [] (c_RolePerms c') r)"
  shows "emit_perm_consts uc c = emit_perm_consts uc c' \<and> emit_ROLE_PERMISSIONS uc c = emit_ROLE_PERMISSIONS uc c'
    \<and> sorted (allPerms (flatten c)) \<and> mset (allPerms (flatten c)) = mset (map p_Name (listed_perms c))"
proof -
  have "emit_role_entry uc c = emit_role_entry uc c'"
    using sort_cong_mset [OF assms(3)] by (simp add: fun_eq_iff emit_role_entry_def Let_def)
  then show ?thesis
    using sort_cong_mset [OF assms(1)] assms(1,2)
    by (simp add: emit_perm_consts_def emit_ROLE_PERMISSIONS_def flatten_eq)
qed

end
