(* ===== verification/Generated_File.thy ===== *)
theory Generated_File
  imports Codegen
begin

text \<open>
  The committed \<open>helios_permissions/role_permissions.go\<close> as text, one string per line, and the
  proof that it is, byte for byte, what \<open>cmd/codegen\<close> prints for a contract.
\<close>

section \<open>The committed file\<close>

definition go_header :: "string list" where
  "go_header =
   [''// Code generated by permission-contract/codegen-go.mjs DO NOT EDIT.'',
     ''// Source: permission-contract v1.6.0'',
     ''// Generated at: 2026-07-02'',
     ''// Regenerate via: node scripts/codegen-go.mjs permissions.json > role_permissions.go'',
     ''//'',
     ''// The Permission type, PERM_SCOPE map, and ROLE_PERMISSIONS map are derived'',
     ''// from the language-agnostic JSON contract. To change the platform's role '' @ arrow,
     ''// permission matrix, edit permissions.json in wazobiatech/permission-contract'',
     ''// and re-run codegen '' @ em_dash @ '' do not edit this file by hand.'',
     ''//'',
     ''// Permission naming convention: {service}:{resource}:{action}.'',
     ''//   service  '' @ em_dash @ '' one of: athens, mercury, muse, helios, zeta'',
     ''//   resource '' @ em_dash @ '' domain noun (project, users, posts, members, ...)'',
     ''//   action   '' @ em_dash @ '' verb (view, write, delete, manage, ...)'',
     ''//'',
     ''// v1.3.0 perm scopes '' @ em_dash @ '' the resolver uses PERM_SCOPE[perm] to gate which'',
     ''// path (platform-user vs tenant-user) is valid for a given perm:'',
     ''//   self              '' @ em_dash @ '' universal, granted implicitly (no role needed)'',
     ''//   platform          '' @ em_dash @ '' granted via ROLE_PERMISSIONS (platform-user path);'',
     ''//                       cannot be bundled into a TenantRole'',
     ''//   project           '' @ em_dash @ '' granted via TenantRole (tenant-user path);'',
     ''//                       cannot appear in ROLE_PERMISSIONS'',
     ''//   platform/project  '' @ em_dash @ '' valid via either path (dual-scope).'',
     ''//'',
     ''// Package helios_permissions mirrors the TS / Python SDKs. Callers gate'',
     ''// decisions on the returned []Permission; a perm not listed in this file is'',
     ''// a typo and will fail to compile against the Permission type alias.'',
     ''package helios_permissions'',
     '''']"

definition go_roles :: "string list" where
  "go_roles =
   [''// Role is the closed enum of platform roles. Mirrors the RoleType Prisma'',
     ''// enum in Helios. New roles must be added to the contract's roles[] array'',
     ''// and the codegen re-run.'',
     ''type Role string'',
     '''',
     ''const ('',
     tab (''RoleOwner Role = '' @ dq ''OWNER''),
     tab (''RoleAdmin Role = '' @ dq ''ADMIN''),
     tab (''RoleEditor Role = '' @ dq ''EDITOR''),
     tab (''RoleViewer Role = '' @ dq ''VIEWER''),
     '')'',
     '''']"

definition go_perm_consts :: "string list" where
  "go_perm_consts =
   [''// Permission is the closed string union of every permission in the platform.'',
     ''// Compile-time guard: a perm not listed here is a typo.'',
     ''type Permission string'',
     '''',
     ''const ('',
     tab (''PermissionAthensProjectDelete Permission = '' @ dq ''athens:project:delete''),
     tab (''PermissionAthensProjectUpdate Permission = '' @ dq ''athens:project:update''),
     tab (''PermissionAthensProjectView Permission = '' @ dq ''athens:project:view''),
     tab (''PermissionAthensServicesDisable Permission = '' @ dq ''athens:services:disable''),
     tab (''PermissionAthensServicesEnable Permission = '' @ dq ''athens:services:enable''),
     tab (''PermissionAthensTeamInvite Permission = '' @ dq ''athens:team:invite''),
     tab (''PermissionAthensTeamRemove Permission = '' @ dq ''athens:team:remove''),
     tab (''PermissionHeliosExternalRegister Permission = '' @ dq ''helios:external:register''),
     tab (''PermissionHeliosExternalRevoke Permission = '' @ dq ''helios:external:revoke''),
     tab (''PermissionHeliosExternalView Permission = '' @ dq ''helios:external:view''),
     tab (''PermissionHeliosInvitationsCreate Permission = '' @ dq ''helios:invitations:create''),
     tab (''PermissionHeliosInvitationsRevoke Permission = '' @ dq ''helios:invitations:revoke''),
     tab (''PermissionHeliosMembersInvite Permission = '' @ dq ''helios:members:invite''),
     tab (''PermissionHeliosMembersRemove Permission = '' @ dq ''helios:members:remove''),
     tab (''PermissionHeliosMembersView Permission = '' @ dq ''helios:members:view''),
     tab (''PermissionHeliosRolesAssign Permission = '' @ dq ''helios:roles:assign''),
     tab (''PermissionHeliosRolesRevoke Permission = '' @ dq ''helios:roles:revoke''),
     tab (''PermissionHeliosTenantSwitchSelf Permission = '' @ dq ''helios:tenant:switch:self''),
     tab (''PermissionHeliosTenantTransfer Permission = '' @ dq ''helios:tenant:transfer''),
     tab (''PermissionMercuryApi_keysCreate Permission = '' @ dq ''mercury:api_keys:create''),
     tab (''PermissionMercuryApi_keysManage Permission = '' @ dq ''mercury:api_keys:manage''),
     tab (''PermissionMercuryApi_keysRead Permission = '' @ dq ''mercury:api_keys:read''),
     tab (''PermissionMercuryApi_keysRevoke Permission = '' @ dq ''mercury:api_keys:revoke''),
     tab (''PermissionMercuryAuth_configRead Permission = '' @ dq ''mercury:auth_config:read''),
     tab (''PermissionMercuryAuth_config_appleCreate Permission = '' @ dq ''mercury:auth_config_apple:create''),
     tab (''PermissionMercuryAuth_config_appleUpdate Permission = '' @ dq ''mercury:auth_config_apple:update''),
     tab (''PermissionMercuryAuth_config_forgot_passwordCreate Permission = '' @ dq ''mercury:auth_config_forgot_password:create''),
     tab (''PermissionMercuryAuth_config_forgot_passwordRead Permission = '' @ dq ''mercury:auth_config_forgot_password:read''),
     tab (''PermissionMercuryAuth_config_forgot_passwordUpdate Permission = '' @ dq ''mercury:auth_config_forgot_password:update''),
     tab (''PermissionMercuryAuth_config_oauthCreate Permission = '' @ dq ''mercury:auth_config_oauth:create''),
     tab (''PermissionMercuryAuth_config_oauthUpdate Permission = '' @ dq ''mercury:auth_config_oauth:update''),
     tab (''PermissionMercuryConnectionReadSelf Permission = '' @ dq ''mercury:connection:read:self''),
     tab (''PermissionMercuryConnection_googleRevokeSelf Permission = '' @ dq ''mercury:connection_google:revoke:self''),
     tab (''PermissionMercuryConnection_imapCreateSelf Permission = '' @ dq ''mercury:connection_imap:create:self''),
     tab (''PermissionMercuryConnection_imapRevokeSelf Permission = '' @ dq ''mercury:connection_imap:revoke:self''),
     tab (''PermissionMercuryConnection_oauthCompleteSelf Permission = '' @ dq ''mercury:connection_oauth:complete:self''),
     tab (''PermissionMercuryConnection_oauthInitiateSelf Permission = '' @ dq ''mercury:connection_oauth:initiate:self''),
     tab (''PermissionMercuryConnection_oauthRefresh Permission = '' @ dq ''mercury:connection_oauth:refresh''),
     tab (''PermissionMercuryConnection_slackPhrase_createSelf Permission = '' @ dq ''mercury:connection_slack:phrase_create:self''),
     tab (''PermissionMercuryConnection_slackRevokeSelf Permission = '' @ dq ''mercury:connection_slack:revoke:self''),
     tab (''PermissionMercuryEventsConsume Permission = '' @ dq ''mercury:events:consume''),
     tab (''PermissionMercuryService_clientsRead Permission = '' @ dq ''mercury:service_clients:read''),
     tab (''PermissionMercuryUserDeleteSelf Permission = '' @ dq ''mercury:user:delete:self''),
     tab (''PermissionMercuryUserReadSelf Permission = '' @ dq ''mercury:user:read:self''),
     tab (''PermissionMercuryUserWriteSelf Permission = '' @ dq ''mercury:user:write:self''),
     tab (''PermissionMercuryUsersBatch_read Permission = '' @ dq ''mercury:users:batch_read''),
     tab (''PermissionMercuryUsersRead Permission = '' @ dq ''mercury:users:read''),
     tab (''PermissionMercuryUsersWrite Permission = '' @ dq ''mercury:users:write''),
     tab (''PermissionMuseAuthorCreate Permission = '' @ dq ''muse:author:create''),
     tab (''PermissionMuseAuthorDelete Permission = '' @ dq ''muse:author:delete''),
     tab (''PermissionMuseAuthorRead Permission = '' @ dq ''muse:author:read''),
     tab (''PermissionMuseBlogCreate Permission = '' @ dq ''muse:blog:create''),
     tab (''PermissionMuseBlogRead Permission = '' @ dq ''muse:blog:read''),
     tab (''PermissionMuseDraftsRead Permission = '' @ dq ''muse:drafts:read''),
     tab (''PermissionMuseDraftsWrite Permission = '' @ dq ''muse:drafts:write''),
     tab (''PermissionMusePostsDelete Permission = '' @ dq ''muse:posts:delete''),
     tab (''PermissionMusePostsRead Permission = '' @ dq ''muse:posts:read''),
     tab (''PermissionMusePostsWrite Permission = '' @ dq ''muse:posts:write''),
     tab (''PermissionZetaBillingManage Permission = '' @ dq ''zeta:billing:manage''),
     tab (''PermissionZetaBillingView Permission = '' @ dq ''zeta:billing:view''),
     tab (''PermissionZetaDriversManage Permission = '' @ dq ''zeta:drivers:manage''),
     tab (''PermissionZetaDriversView Permission = '' @ dq ''zeta:drivers:view''),
     tab (''PermissionZetaFinesAssign Permission = '' @ dq ''zeta:fines:assign''),
     tab (''PermissionZetaFinesChallenge Permission = '' @ dq ''zeta:fines:challenge''),
     tab (''PermissionZetaFinesCreate Permission = '' @ dq ''zeta:fines:create''),
     tab (''PermissionZetaFinesPay Permission = '' @ dq ''zeta:fines:pay''),
     tab (''PermissionZetaFinesView Permission = '' @ dq ''zeta:fines:view''),
     tab (''PermissionZetaFleetEdit Permission = '' @ dq ''zeta:fleet:edit''),
     tab (''PermissionZetaFleetView Permission = '' @ dq ''zeta:fleet:view''),
     tab (''PermissionZetaReportsView Permission = '' @ dq ''zeta:reports:view''),
     tab (''PermissionZetaTeamManage Permission = '' @ dq ''zeta:team:manage''),
     tab (''PermissionZetaTenantConfigure Permission = '' @ dq ''zeta:tenant:configure''),
     '')'',
     '''']"

definition go_scopes :: "string list" where
  "go_scopes =
   [''// PermScope is the closed set of valid permission scopes. Mirrors the'',
     ''// contract's scope enum.'',
     ''type PermScope string'',
     '''',
     ''const ('',
     tab (''ScopeSelf              PermScope = '' @ dq ''self''),
     tab (''ScopePlatform          PermScope = '' @ dq ''platform''),
     tab (''ScopeProject           PermScope = '' @ dq ''project''),
     tab (''ScopePlatformProject   PermScope = '' @ dq ''platform/project''),
     '')'',
     '''']"

definition go_tuples :: "string list" where
  "go_tuples =
   [''// SELF_PERMISSIONS '' @ em_dash @ '' universal perms granted implicitly to every'',
     ''// authenticated user. Never appear in any ROLE_PERMISSIONS entry.'',
     ''var SELF_PERMISSIONS = []Permission{'',
     tab ''PermissionMercuryUserReadSelf,'',
     tab ''PermissionMercuryUserWriteSelf,'',
     tab ''PermissionMercuryUserDeleteSelf,'',
     tab ''PermissionMercuryConnectionReadSelf,'',
     tab ''PermissionMercuryConnection_slackPhrase_createSelf,'',
     tab ''PermissionMercuryConnection_oauthInitiateSelf,'',
     tab ''PermissionMercuryConnection_oauthCompleteSelf,'',
     tab ''PermissionMercuryConnection_slackRevokeSelf,'',
     tab ''PermissionMercuryConnection_googleRevokeSelf,'',
     tab ''PermissionMercuryConnection_imapRevokeSelf,'',
     tab ''PermissionMercuryConnection_imapCreateSelf,'',
     tab ''PermissionHeliosTenantSwitchSelf,'',
     ''}'',
     '''',
     ''// PLATFORM_PERMISSIONS '' @ em_dash @ '' granted via ROLE_PERMISSIONS[role] (platform-user'',
     ''// path). Cannot be bundled into a TenantRole.'',
     ''var PLATFORM_PERMISSIONS = []Permission{'',
     tab ''PermissionAthensProjectView,'',
     tab ''PermissionAthensProjectUpdate,'',
     tab ''PermissionAthensProjectDelete,'',
     tab ''PermissionAthensServicesEnable,'',
     tab ''PermissionAthensServicesDisable,'',
     tab ''PermissionAthensTeamInvite,'',
     tab ''PermissionAthensTeamRemove,'',
     tab ''PermissionMercuryUsersRead,'',
     tab ''PermissionMercuryUsersWrite,'',
     tab ''PermissionMercuryUsersBatch_read,'',
     tab ''PermissionMercuryApi_keysCreate,'',
     tab ''PermissionMercuryApi_keysRevoke,'',
     tab ''PermissionMercuryApi_keysRead,'',
     tab ''PermissionMercuryApi_keysManage,'',
     tab ''PermissionMercuryService_clientsRead,'',
     tab ''PermissionMercuryAuth_configRead,'',
     tab ''PermissionMercuryAuth_config_appleCreate,'',
     tab ''PermissionMercuryAuth_config_appleUpdate,'',
     tab ''PermissionMercuryAuth_config_oauthCreate,'',
     tab ''PermissionMercuryAuth_config_oauthUpdate,'',
     tab ''PermissionMercuryAuth_config_forgot_passwordCreate,'',
     tab ''PermissionMercuryAuth_config_forgot_passwordUpdate,'',
     tab ''PermissionMercuryAuth_config_forgot_passwordRead,'',
     tab ''PermissionMercuryConnection_oauthRefresh,'',
     tab ''PermissionMercuryEventsConsume,'',
     tab ''PermissionMuseBlogCreate,'',
     tab ''PermissionMuseBlogRead,'',
     tab ''PermissionMuseAuthorCreate,'',
     tab ''PermissionMuseAuthorDelete,'',
     tab ''PermissionHeliosTenantTransfer,'',
     tab ''PermissionHeliosMembersView,'',
     tab ''PermissionHeliosMembersInvite,'',
     tab ''PermissionHeliosMembersRemove,'',
     tab ''PermissionHeliosRolesAssign,'',
     tab ''PermissionHeliosRolesRevoke,'',
     tab ''PermissionHeliosInvitationsCreate,'',
     tab ''PermissionHeliosInvitationsRevoke,'',
     tab ''PermissionHeliosExternalRegister,'',
     tab ''PermissionHeliosExternalRevoke,'',
     tab ''PermissionHeliosExternalView,'',
     ''}'',
     '''',
     ''// PROJECT_PERMISSIONS '' @ em_dash @ '' granted via TenantRole (tenant-user path). Cannot'',
     ''// appear in any ROLE_PERMISSIONS entry.'',
     ''var PROJECT_PERMISSIONS = []Permission{'',
     tab ''PermissionMusePostsRead,'',
     tab ''PermissionMusePostsWrite,'',
     tab ''PermissionMusePostsDelete,'',
     tab ''PermissionMuseDraftsRead,'',
     tab ''PermissionMuseDraftsWrite,'',
     tab ''PermissionZetaFinesView,'',
     tab ''PermissionZetaFinesCreate,'',
     tab ''PermissionZetaFinesPay,'',
     tab ''PermissionZetaFinesChallenge,'',
     tab ''PermissionZetaFinesAssign,'',
     tab ''PermissionZetaFleetView,'',
     tab ''PermissionZetaFleetEdit,'',
     tab ''PermissionZetaDriversView,'',
     tab ''PermissionZetaDriversManage,'',
     tab ''PermissionZetaReportsView,'',
     tab ''PermissionZetaBillingView,'',
     tab ''PermissionZetaBillingManage,'',
     tab ''PermissionZetaTeamManage,'',
     tab ''PermissionZetaTenantConfigure,'',
     ''}'',
     '''',
     ''// DUAL_PERMISSIONS '' @ em_dash @ '' valid via either the platform-user path'',
     ''// (ROLE_PERMISSIONS) or the tenant-user path (TenantRole bundle).'',
     ''var DUAL_PERMISSIONS = []Permission{'',
     tab ''PermissionMuseAuthorRead,'',
     ''}'',
     '''']"

definition go_PERM_SCOPE :: "string list" where
  "go_PERM_SCOPE =
   [''// PERM_SCOPE '' @ em_dash @ '' perm '' @ arrow @ '' scope lookup, populated at module load. The two-track'',
     ''// resolver in Helios checks PERM_SCOPE[perm] to decide which path'',
     ''// (platform-user vs tenant-user) is valid for the perm.'',
     ''var PERM_SCOPE = map[Permission]PermScope{'',
     tab ''PermissionMercuryUserReadSelf: ScopeSelf,'',
     tab ''PermissionMercuryUserWriteSelf: ScopeSelf,'',
     tab ''PermissionMercuryUserDeleteSelf: ScopeSelf,'',
     tab ''PermissionMercuryConnectionReadSelf: ScopeSelf,'',
     tab ''PermissionMercuryConnection_slackPhrase_createSelf: ScopeSelf,'',
     tab ''PermissionMercuryConnection_oauthInitiateSelf: ScopeSelf,'',
     tab ''PermissionMercuryConnection_oauthCompleteSelf: ScopeSelf,'',
     tab ''PermissionMercuryConnection_slackRevokeSelf: ScopeSelf,'',
     tab ''PermissionMercuryConnection_googleRevokeSelf: ScopeSelf,'',
     tab ''PermissionMercuryConnection_imapRevokeSelf: ScopeSelf,'',
     tab ''PermissionMercuryConnection_imapCreateSelf: ScopeSelf,'',
     tab ''PermissionHeliosTenantSwitchSelf: ScopeSelf,'',
     tab ''PermissionAthensProjectView: ScopePlatform,'',
     tab ''PermissionAthensProjectUpdate: ScopePlatform,'',
     tab ''PermissionAthensProjectDelete: ScopePlatform,'',
     tab ''PermissionAthensServicesEnable: ScopePlatform,'',
     tab ''PermissionAthensServicesDisable: ScopePlatform,'',
     tab ''PermissionAthensTeamInvite: ScopePlatform,'',
     tab ''PermissionAthensTeamRemove: ScopePlatform,'',
     tab ''PermissionMercuryUsersRead: ScopePlatform,'',
     tab ''PermissionMercuryUsersWrite: ScopePlatform,'',
     tab ''PermissionMercuryUsersBatch_read: ScopePlatform,'',
     tab ''PermissionMercuryApi_keysCreate: ScopePlatform,'',
     tab ''PermissionMercuryApi_keysRevoke: ScopePlatform,'',
     tab ''PermissionMercuryApi_keysRead: ScopePlatform,'',
     tab ''PermissionMercuryApi_keysManage: ScopePlatform,'',
     tab ''PermissionMercuryService_clientsRead: ScopePlatform,'',
     tab ''PermissionMercuryAuth_configRead: ScopePlatform,'',
     tab ''PermissionMercuryAuth_config_appleCreate: ScopePlatform,'',
     tab ''PermissionMercuryAuth_config_appleUpdate: ScopePlatform,'',
     tab ''PermissionMercuryAuth_config_oauthCreate: ScopePlatform,'',
     tab ''PermissionMercuryAuth_config_oauthUpdate: ScopePlatform,'',
     tab ''PermissionMercuryAuth_config_forgot_passwordCreate: ScopePlatform,'',
     tab ''PermissionMercuryAuth_config_forgot_passwordUpdate: ScopePlatform,'',
     tab ''PermissionMercuryAuth_config_forgot_passwordRead: ScopePlatform,'',
     tab ''PermissionMercuryConnection_oauthRefresh: ScopePlatform,'',
     tab ''PermissionMercuryEventsConsume: ScopePlatform,'',
     tab ''PermissionMuseBlogCreate: ScopePlatform,'',
     tab ''PermissionMuseBlogRead: ScopePlatform,'',
     tab ''PermissionMuseAuthorCreate: ScopePlatform,'',
     tab ''PermissionMuseAuthorDelete: ScopePlatform,'',
     tab ''PermissionHeliosTenantTransfer: ScopePlatform,'',
     tab ''PermissionHeliosMembersView: ScopePlatform,'',
     tab ''PermissionHeliosMembersInvite: ScopePlatform,'',
     tab ''PermissionHeliosMembersRemove: ScopePlatform,'',
     tab ''PermissionHeliosRolesAssign: ScopePlatform,'',
     tab ''PermissionHeliosRolesRevoke: ScopePlatform,'',
     tab ''PermissionHeliosInvitationsCreate: ScopePlatform,'',
     tab ''PermissionHeliosInvitationsRevoke: ScopePlatform,'',
     tab ''PermissionHeliosExternalRegister: ScopePlatform,'',
     tab ''PermissionHeliosExternalRevoke: ScopePlatform,'',
     tab ''PermissionHeliosExternalView: ScopePlatform,'',
     tab ''PermissionMusePostsRead: ScopeProject,'',
     tab ''PermissionMusePostsWrite: ScopeProject,'',
     tab ''PermissionMusePostsDelete: ScopeProject,'',
     tab ''PermissionMuseDraftsRead: ScopeProject,'',
     tab ''PermissionMuseDraftsWrite: ScopeProject,'',
     tab ''PermissionZetaFinesView: ScopeProject,'',
     tab ''PermissionZetaFinesCreate: ScopeProject,'',
     tab ''PermissionZetaFinesPay: ScopeProject,'',
     tab ''PermissionZetaFinesChallenge: ScopeProject,'',
     tab ''PermissionZetaFinesAssign: ScopeProject,'',
     tab ''PermissionZetaFleetView: ScopeProject,'',
     tab ''PermissionZetaFleetEdit: ScopeProject,'',
     tab ''PermissionZetaDriversView: ScopeProject,'',
     tab ''PermissionZetaDriversManage: ScopeProject,'',
     tab ''PermissionZetaReportsView: ScopeProject,'',
     tab ''PermissionZetaBillingView: ScopeProject,'',
     tab ''PermissionZetaBillingManage: ScopeProject,'',
     tab ''PermissionZetaTeamManage: ScopeProject,'',
     tab ''PermissionZetaTenantConfigure: ScopeProject,'',
     tab ''PermissionMuseAuthorRead: ScopePlatformProject,'',
     ''}'',
     '''']"

definition go_Roles :: "string list" where
  "go_Roles =
   [''// Roles lists every role in the platform. Same order as the contract's'',
     ''// roles[] array.'',
     ''var Roles = []Role{'',
     tab ''RoleOwner,'',
     tab ''RoleAdmin,'',
     tab ''RoleEditor,'',
     tab ''RoleViewer,'',
     ''}'',
     '''']"

definition go_predicates :: "string list" where
  "go_predicates =
   [''// IsValidPermission reports whether p is a known permission string.'',
     ''func IsValidPermission(p Permission) bool {'',
     tab ''_, ok := PERM_SCOPE[p]'',
     tab ''return ok'',
     ''}'',
     '''',
     ''// IsValidRole reports whether r is a known role string.'',
     ''func IsValidRole(r Role) bool {'',
     tab ''switch r {'',
     tab ''case RoleOwner:'',
     tab (tab ''return true''),
     tab ''case RoleAdmin:'',
     tab (tab ''return true''),
     tab ''case RoleEditor:'',
     tab (tab ''return true''),
     tab ''case RoleViewer:'',
     tab (tab ''return true''),
     tab ''}'',
     tab ''return false'',
     ''}'',
     '''',
     ''// IsSelfScope reports whether perm has scope '' @ dq ''self'' @ '' (universal '' @ em_dash @ '' granted'',
     ''// without any role lookup). Used by the resolver's Step 1.'',
     ''func IsSelfScope(perm Permission) bool {'',
     tab ''return PERM_SCOPE[perm] == ScopeSelf'',
     ''}'',
     '''',
     ''// IsPlatformGrantable reports whether perm is grantable via the'',
     ''// platform-user path (scope is '' @ dq ''platform'' @ '' or '' @ dq ''platform/project'' @ '').'',
     ''func IsPlatformGrantable(perm Permission) bool {'',
     tab ''s := PERM_SCOPE[perm]'',
     tab ''return s == ScopePlatform || s == ScopePlatformProject'',
     ''}'',
     '''',
     ''// IsTenantGrantable reports whether perm is grantable via the tenant-user'',
     ''// path. Scope '' @ dq ''project'' @ '' and '' @ dq ''platform/project'' @ '' are grantable; any perm NOT'',
     ''// in PERM_SCOPE is treated as tenant-defined and therefore grantable via'',
     ''// TenantRole.'',
     ''func IsTenantGrantable(perm string) bool {'',
     tab ''s, ok := PERM_SCOPE[Permission(perm)]'',
     tab ''if !ok {'',
     tab (tab ''return true''),
     tab ''}'',
     tab ''return s == ScopeProject || s == ScopePlatformProject'',
     ''}'',
     '''']"

definition go_ROLE_PERMISSIONS :: "string list" where
  "go_ROLE_PERMISSIONS =
   [''// ROLE_PERMISSIONS is the canonical role '' @ arrow @ '' permission map. Every role lists'',
     ''// its permissions explicitly '' @ em_dash @ '' there is no inheritance. The contract'',
     ''// validator (scripts/validate.mjs) enforces:'',
     ''//   - helios:tenant:switch:self is present as a self-scope perm (universal).'',
     ''//   - helios:tenant:transfer is OWNER-only (platform scope).'',
     ''//   - Every role has >= 1 permission.'',
     ''//   - No role references a perm outside the vocabulary.'',
     ''//   - No self or project perms in any role.'',
     ''var ROLE_PERMISSIONS = map[Role][]Permission{'',
     tab ''RoleOwner: {'',
     tab (tab ''PermissionAthensProjectDelete,''),
     tab (tab ''PermissionAthensProjectUpdate,''),
     tab (tab ''PermissionAthensProjectView,''),
     tab (tab ''PermissionAthensServicesDisable,''),
     tab (tab ''PermissionAthensServicesEnable,''),
     tab (tab ''PermissionAthensTeamInvite,''),
     tab (tab ''PermissionAthensTeamRemove,''),
     tab (tab ''PermissionHeliosExternalRegister,''),
     tab (tab ''PermissionHeliosExternalRevoke,''),
     tab (tab ''PermissionHeliosExternalView,''),
     tab (tab ''PermissionHeliosInvitationsCreate,''),
     tab (tab ''PermissionHeliosInvitationsRevoke,''),
     tab (tab ''PermissionHeliosMembersInvite,''),
     tab (tab ''PermissionHeliosMembersRemove,''),
     tab (tab ''PermissionHeliosMembersView,''),
     tab (tab ''PermissionHeliosRolesAssign,''),
     tab (tab ''PermissionHeliosRolesRevoke,''),
     tab (tab ''PermissionHeliosTenantTransfer,''),
     tab (tab ''PermissionMercuryApi_keysCreate,''),
     tab (tab ''PermissionMercuryApi_keysManage,''),
     tab (tab ''PermissionMercuryApi_keysRead,''),
     tab (tab ''PermissionMercuryApi_keysRevoke,''),
     tab (tab ''PermissionMercuryAuth_configRead,''),
     tab (tab ''PermissionMercuryAuth_config_appleCreate,''),
     tab (tab ''PermissionMercuryAuth_config_appleUpdate,''),
     tab (tab ''PermissionMercuryAuth_config_forgot_passwordCreate,''),
     tab (tab ''PermissionMercuryAuth_config_forgot_passwordRead,''),
     tab (tab ''PermissionMercuryAuth_config_forgot_passwordUpdate,''),
     tab (tab ''PermissionMercuryAuth_config_oauthCreate,''),
     tab (tab ''PermissionMercuryAuth_config_oauthUpdate,''),
     tab (tab ''PermissionMercuryConnection_oauthRefresh,''),
     tab (tab ''PermissionMercuryEventsConsume,''),
     tab (tab ''PermissionMercuryService_clientsRead,''),
     tab (tab ''PermissionMercuryUsersBatch_read,''),
     tab (tab ''PermissionMercuryUsersRead,''),
     tab (tab ''PermissionMercuryUsersWrite,''),
     tab (tab ''PermissionMuseAuthorCreate,''),
     tab (tab ''PermissionMuseAuthorDelete,''),
     tab (tab ''PermissionMuseAuthorRead,''),
     tab (tab ''PermissionMuseBlogCreate,''),
     tab (tab ''PermissionMuseBlogRead,''),
     tab ''},'',
     tab ''RoleAdmin: {'',
     tab (tab ''PermissionAthensProjectUpdate,''),
     tab (tab ''PermissionAthensProjectView,''),
     tab (tab ''PermissionAthensServicesDisable,''),
     tab (tab ''PermissionAthensServicesEnable,''),
     tab (tab ''PermissionAthensTeamInvite,''),
     tab (tab ''PermissionAthensTeamRemove,''),
     tab (tab ''PermissionHeliosExternalView,''),
     tab (tab ''PermissionHeliosInvitationsCreate,''),
     tab (tab ''PermissionHeliosInvitationsRevoke,''),
     tab (tab ''PermissionHeliosMembersInvite,''),
     tab (tab ''PermissionHeliosMembersRemove,''),
     tab (tab ''PermissionHeliosMembersView,''),
     tab (tab ''PermissionHeliosRolesAssign,''),
     tab (tab ''PermissionHeliosRolesRevoke,''),
     tab (tab ''PermissionMercuryApi_keysCreate,''),
     tab (tab ''PermissionMercuryApi_keysRead,''),
     tab (tab ''PermissionMercuryApi_keysRevoke,''),
     tab (tab ''PermissionMercuryAuth_configRead,''),
     tab (tab ''PermissionMercuryAuth_config_appleCreate,''),
     tab (tab ''PermissionMercuryAuth_config_appleUpdate,''),
     tab (tab ''PermissionMercuryAuth_config_forgot_passwordCreate,''),
     tab (tab ''PermissionMercuryAuth_config_forgot_passwordRead,''),
     tab (tab ''PermissionMercuryAuth_config_forgot_passwordUpdate,''),
     tab (tab ''PermissionMercuryAuth_config_oauthCreate,''),
     tab (tab ''PermissionMercuryAuth_config_oauthUpdate,''),
     tab (tab ''PermissionMercuryConnection_oauthRefresh,''),
     tab (tab ''PermissionMercuryEventsConsume,''),
     tab (tab ''PermissionMercuryService_clientsRead,''),
     tab (tab ''PermissionMercuryUsersRead,''),
     tab (tab ''PermissionMercuryUsersWrite,''),
     tab (tab ''PermissionMuseAuthorCreate,''),
     tab (tab ''PermissionMuseAuthorRead,''),
     tab (tab ''PermissionMuseBlogCreate,''),
     tab (tab ''PermissionMuseBlogRead,''),
     tab ''},'',
     tab ''RoleEditor: {'',
     tab (tab ''PermissionAthensProjectView,''),
     tab (tab ''PermissionMercuryApi_keysRead,''),
     tab (tab ''PermissionMercuryService_clientsRead,''),
     tab (tab ''PermissionMercuryUsersRead,''),
     tab (tab ''PermissionMuseAuthorCreate,''),
     tab (tab ''PermissionMuseAuthorRead,''),
     tab (tab ''PermissionMuseBlogCreate,''),
     tab (tab ''PermissionMuseBlogRead,''),
     tab ''},'',
     tab ''RoleViewer: {'',
     tab (tab ''PermissionAthensProjectView,''),
     tab (tab ''PermissionMercuryApi_keysRead,''),
     tab (tab ''PermissionMercuryService_clientsRead,''),
     tab (tab ''PermissionMercuryUsersRead,''),
     tab (tab ''PermissionMuseAuthorRead,''),
     tab (tab ''PermissionMuseBlogRead,''),
     tab ''},'',
     ''}'',
     '''']"

definition go_functions :: "string list" where
  "go_functions =
   [''// ResolvePermissions returns ROLE_PERMISSIONS[role]. Returns an empty slice'',
     ''// for unknown roles (defensive '' @ em_dash @ '' caller code should be using the typed'',
     ''// Role constants, but a runtime string from an untrusted source might not be).'',
     ''func ResolvePermissions(role Role) []Permission {'',
     tab ''if perms, ok := ROLE_PERMISSIONS[role]; ok {'',
     tab (tab ''return perms''),
     tab ''}'',
     tab ''return []Permission{}'',
     ''}'',
     '''',
     ''// RoleHasPermission reports whether role is granted perm. Both args must be'',
     ''// typed constants for the call to compile '' @ em_dash @ '' a typo in a perm string will'',
     ''// not satisfy the Permission type alias.'',
     ''func RoleHasPermission(role Role, perm Permission) bool {'',
     tab ''for _, p := range ROLE_PERMISSIONS[role] {'',
     tab (tab ''if p == perm {''),
     tab (tab ''return true''),
     tab (tab ''}''),
     tab ''}'',
     tab ''return false'',
     ''}'',
     '''',
     ''// IsUniversalPerm reports whether perm is universal-by-contract '' @ em_dash @ '' granted to'',
     ''// every authenticated caller without consulting Helios. Holds when either the'',
     ''// perm is self-scope, or it appears in every role's ROLE_PERMISSIONS entry'',
     ''// (OWNER + ADMIN + EDITOR + VIEWER).'',
     ''//'',
     ''// Why this exists: Helios stores per-(user, tenant) membership rows. Root-tenant'',
     ''// users (Mercury's platform admins) and any other tenantless caller have no row'',
     ''// to look up. Without this short-circuit, every CallerHasPermission for a'',
     ''// universal perm would resolve to not_a_member and 403 the caller. The contract'',
     ''// invariant is that these perms do NOT depend on tenant membership '' @ em_dash @ '' they are'',
     ''// universal.'',
     ''//'',
     ''// The check trusts the contract: if a perm is in every role's perm array, the'',
     ''// contract author intends every authenticated user to have it. Adding a perm to'',
     ''// all four roles is a deliberate, reviewable contract decision '' @ em_dash @ '' the SDK honors'',
     ''// it without re-fetching.'',
     ''func IsUniversalPerm(perm Permission) bool {'',
     tab ''if IsSelfScope(perm) {'',
     tab (tab ''return true''),
     tab ''}'',
     tab ''for _, role := range Roles {'',
     tab (tab ''if !RoleHasPermission(role, perm) {''),
     tab (tab (tab ''return false'')),
     tab (tab ''}''),
     tab ''}'',
     tab ''return true'',
     ''}'']"

definition role_permissions_go :: "string list" where
  "role_permissions_go =
     go_header @ go_roles @ go_perm_consts @ go_scopes @ go_tuples @ go_PERM_SCOPE @ go_Roles
     @ go_predicates @ go_ROLE_PERMISSIONS @ go_functions"

section \<open>A contract for it\<close>

text \<open>
  The contract is not in the repository; this one lists, for each service of the file's header,
  the permissions of the scope tuples in the order of the tuples.
\<close>

definition contract_permissions :: "(string \<times> perm list) list" where
  "contract_permissions =
    [(''athens'',
     [\<lparr>p_Name = PermissionAthensProjectView, p_Scope = ScopePlatform\<rparr>,
      \<lparr>p_Name = PermissionAthensProjectUpdate, p_Scope = ScopePlatform\<rparr>,
      \<lparr>p_Name = PermissionAthensProjectDelete, p_Scope = ScopePlatform\<rparr>,
      \<lparr>p_Name = PermissionAthensServicesEnable, p_Scope = ScopePlatform\<rparr>,
      \<lparr>p_Name = PermissionAthensServicesDisable, p_Scope = ScopePlatform\<rparr>,
      \<lparr>p_Name = PermissionAthensTeamInvite, p_Scope = ScopePlatform\<rparr>,
      \<lparr>p_Name = PermissionAthensTeamRemove, p_Scope = ScopePlatform\<rparr>]),
     (''mercury'',
     [\<lparr>p_Name = PermissionMercuryUserReadSelf, p_Scope = ScopeSelf\<rparr>,
      \<lparr>p_Name = PermissionMercuryUserWriteSelf, p_Scope = ScopeSelf\<rparr>,
      \<lparr>p_Name = PermissionMercuryUserDeleteSelf, p_Scope = ScopeSelf\<rparr>,
      \<lparr>p_Name = PermissionMercuryConnectionReadSelf, p_Scope = ScopeSelf\<rparr>,
      \<lparr>p_Name = PermissionMercuryConnection_slackPhrase_createSelf, p_Scope = ScopeSelf\<rparr>,
      \<lparr>p_Name = PermissionMercuryConnection_oauthInitiateSelf, p_Scope = ScopeSelf\<rparr>,
      \<lparr>p_Name = PermissionMercuryConnection_oauthCompleteSelf, p_Scope = ScopeSelf\<rparr>,
      \<lparr>p_Name = PermissionMercuryConnection_slackRevokeSelf, p_Scope = ScopeSelf\<rparr>,
      \<lparr>p_Name = PermissionMercuryConnection_googleRevokeSelf, p_Scope = ScopeSelf\<rparr>,
      \<lparr>p_Name = PermissionMercuryConnection_imapRevokeSelf, p_Scope = ScopeSelf\<rparr>,
      \<lparr>p_Name = PermissionMercuryConnection_imapCreateSelf, p_Scope = ScopeSelf\<rparr>,
      \<lparr>p_Name = PermissionMercuryUsersRead, p_Scope = ScopePlatform\<rparr>,
      \<lparr>p_Name = PermissionMercuryUsersWrite, p_Scope = ScopePlatform\<rparr>,
      \<lparr>p_Name = PermissionMercuryUsersBatch_read, p_Scope = ScopePlatform\<rparr>,
      \<lparr>p_Name = PermissionMercuryApi_keysCreate, p_Scope = ScopePlatform\<rparr>,
      \<lparr>p_Name = PermissionMercuryApi_keysRevoke, p_Scope = ScopePlatform\<rparr>,
      \<lparr>p_Name = PermissionMercuryApi_keysRead, p_Scope = ScopePlatform\<rparr>,
      \<lparr>p_Name = PermissionMercuryApi_keysManage, p_Scope = ScopePlatform\<rparr>,
      \<lparr>p_Name = PermissionMercuryService_clientsRead, p_Scope = ScopePlatform\<rparr>,
      \<lparr>p_Name = PermissionMercuryAuth_configRead, p_Scope = ScopePlatform\<rparr>,
      \<lparr>p_Name = PermissionMercuryAuth_config_appleCreate, p_Scope = ScopePlatform\<rparr>,
      \<lparr>p_Name = PermissionMercuryAuth_config_appleUpdate, p_Scope = ScopePlatform\<rparr>,
      \<lparr>p_Name = PermissionMercuryAuth_config_oauthCreate, p_Scope = ScopePlatform\<rparr>,
      \<lparr>p_Name = PermissionMercuryAuth_config_oauthUpdate, p_Scope = ScopePlatform\<rparr>,
      \<lparr>p_Name = PermissionMercuryAuth_config_forgot_passwordCreate, p_Scope = ScopePlatform\<rparr>,
      \<lparr>p_Name = PermissionMercuryAuth_config_forgot_passwordUpdate, p_Scope = ScopePlatform\<rparr>,
      \<lparr>p_Name = PermissionMercuryAuth_config_forgot_passwordRead, p_Scope = ScopePlatform\<rparr>,
      \<lparr>p_Name = PermissionMercuryConnection_oauthRefresh, p_Scope = ScopePlatform\<rparr>,
      \<lparr>p_Name = PermissionMercuryEventsConsume, p_Scope = ScopePlatform\<rparr>]),
     (''muse'',
     [\<lparr>p_Name = PermissionMuseBlogCreate, p_Scope = ScopePlatform\<rparr>,
      \<lparr>p_Name = PermissionMuseBlogRead, p_Scope = ScopePlatform\<rparr>,
      \<lparr>p_Name = PermissionMuseAuthorCreate, p_Scope = ScopePlatform\<rparr>,
      \<lparr>p_Name = PermissionMuseAuthorDelete, p_Scope = ScopePlatform\<rparr>,
      \<lparr>p_Name = PermissionMusePostsRead, p_Scope = ScopeProject\<rparr>,
      \<lparr>p_Name = PermissionMusePostsWrite, p_Scope = ScopeProject\<rparr>,
      \<lparr>p_Name = PermissionMusePostsDelete, p_Scope = ScopeProject\<rparr>,
      \<lparr>p_Name = PermissionMuseDraftsRead, p_Scope = ScopeProject\<rparr>,
      \<lparr>p_Name = PermissionMuseDraftsWrite, p_Scope = ScopeProject\<rparr>,
      \<lparr>p_Name = PermissionMuseAuthorRead, p_Scope = ScopePlatformProject\<rparr>]),
     (''helios'',
     [\<lparr>p_Name = PermissionHeliosTenantSwitchSelf, p_Scope = ScopeSelf\<rparr>,
      \<lparr>p_Name = PermissionHeliosTenantTransfer, p_Scope = ScopePlatform\<rparr>,
      \<lparr>p_Name = PermissionHeliosMembersView, p_Scope = ScopePlatform\<rparr>,
      \<lparr>p_Name = PermissionHeliosMembersInvite, p_Scope = ScopePlatform\<rparr>,
      \<lparr>p_Name = PermissionHeliosMembersRemove, p_Scope = ScopePlatform\<rparr>,
      \<lparr>p_Name = PermissionHeliosRolesAssign, p_Scope = ScopePlatform\<rparr>,
      \<lparr>p_Name = PermissionHeliosRolesRevoke, p_Scope = ScopePlatform\<rparr>,
      \<lparr>p_Name = PermissionHeliosInvitationsCreate, p_Scope = ScopePlatform\<rparr>,
      \<lparr>p_Name = PermissionHeliosInvitationsRevoke, p_Scope = ScopePlatform\<rparr>,
      \<lparr>p_Name = PermissionHeliosExternalRegister, p_Scope = ScopePlatform\<rparr>,
      \<lparr>p_Name = PermissionHeliosExternalRevoke, p_Scope = ScopePlatform\<rparr>,
      \<lparr>p_Name = PermissionHeliosExternalView, p_Scope = ScopePlatform\<rparr>]),
     (''zeta'',
     [\<lparr>p_Name = PermissionZetaFinesView, p_Scope = ScopeProject\<rparr>,
      \<lparr>p_Name = PermissionZetaFinesCreate, p_Scope = ScopeProject\<rparr>,
      \<lparr>p_Name = PermissionZetaFinesPay, p_Scope = ScopeProject\<rparr>,
      \<lparr>p_Name = PermissionZetaFinesChallenge, p_Scope = ScopeProject\<rparr>,
      \<lparr>p_Name = PermissionZetaFinesAssign, p_Scope = ScopeProject\<rparr>,
      \<lparr>p_Name = PermissionZetaFleetView, p_Scope = ScopeProject\<rparr>,
      \<lparr>p_Name = PermissionZetaFleetEdit, p_Scope = ScopeProject\<rparr>,
      \<lparr>p_Name = PermissionZetaDriversView, p_Scope = ScopeProject\<rparr>,
      \<lparr>p_Name = PermissionZetaDriversManage, p_Scope = ScopeProject\<rparr>,
      \<lparr>p_Name = PermissionZetaReportsView, p_Scope = ScopeProject\<rparr>,
      \<lparr>p_Name = PermissionZetaBillingView, p_Scope = ScopeProject\<rparr>,
      \<lparr>p_Name = PermissionZetaBillingManage, p_Scope = ScopeProject\<rparr>,
      \<lparr>p_Name = PermissionZetaTeamManage, p_Scope = ScopeProject\<rparr>,
      \<lparr>p_Name = PermissionZetaTenantConfigure, p_Scope = ScopeProject\<rparr>])]"

definition contract_of_file :: contract where
  "contract_of_file = \<lparr>c_Version = ''1.6.0'', c_Services = [''athens'', ''mercury'', ''muse'', ''helios'', ''zeta''],
     c_Roles = Roles, c_Permissions = map_of contract_permissions, c_RolePerms = map_of ROLE_PERMISSIONS\<rparr>"

definition athens_constants :: "Permission list" where
  "athens_constants =
   [PermissionAthensProjectDelete,
    PermissionAthensProjectUpdate,
    PermissionAthensProjectView,
    PermissionAthensServicesDisable,
    PermissionAthensServicesEnable,
    PermissionAthensTeamInvite,
    PermissionAthensTeamRemove]"

definition helios_constants :: "Permission list" where
  "helios_constants =
   [PermissionHeliosExternalRegister,
    PermissionHeliosExternalRevoke,
    PermissionHeliosExternalView,
    PermissionHeliosInvitationsCreate,
    PermissionHeliosInvitationsRevoke,
    PermissionHeliosMembersInvite,
    PermissionHeliosMembersRemove,
    PermissionHeliosMembersView,
    PermissionHeliosRolesAssign,
    PermissionHeliosRolesRevoke,
    PermissionHeliosTenantSwitchSelf,
    PermissionHeliosTenantTransfer]"

definition mercury_constants :: "Permission list" where
  "mercury_constants =
   [PermissionMercuryApi_keysCreate,
    PermissionMercuryApi_keysManage,
    PermissionMercuryApi_keysRead,
    PermissionMercuryApi_keysRevoke,
    PermissionMercuryAuth_configRead,
    PermissionMercuryAuth_config_appleCreate,
    PermissionMercuryAuth_config_appleUpdate,
    PermissionMercuryAuth_config_forgot_passwordCreate,
    PermissionMercuryAuth_config_forgot_passwordRead,
    PermissionMercuryAuth_config_forgot_passwordUpdate,
    PermissionMercuryAuth_config_oauthCreate,
    PermissionMercuryAuth_config_oauthUpdate,
    PermissionMercuryConnectionReadSelf,
    PermissionMercuryConnection_googleRevokeSelf,
    PermissionMercuryConnection_imapCreateSelf,
    PermissionMercuryConnection_imapRevokeSelf,
    PermissionMercuryConnection_oauthCompleteSelf,
    PermissionMercuryConnection_oauthInitiateSelf,
    PermissionMercuryConnection_oauthRefresh,
    PermissionMercuryConnection_slackPhrase_createSelf,
    PermissionMercuryConnection_slackRevokeSelf,
    PermissionMercuryEventsConsume,
    PermissionMercuryService_clientsRead,
    PermissionMercuryUserDeleteSelf,
    PermissionMercuryUserReadSelf,
    PermissionMercuryUserWriteSelf,
    PermissionMercuryUsersBatch_read,
    PermissionMercuryUsersRead,
    PermissionMercuryUsersWrite]"

definition muse_constants :: "Permission list" where
  "muse_constants =
   [PermissionMuseAuthorCreate,
    PermissionMuseAuthorDelete,
    PermissionMuseAuthorRead,
    PermissionMuseBlogCreate,
    PermissionMuseBlogRead,
    PermissionMuseDraftsRead,
    PermissionMuseDraftsWrite,
    PermissionMusePostsDelete,
    PermissionMusePostsRead,
    PermissionMusePostsWrite]"

definition zeta_constants :: "Permission list" where
  "zeta_constants =
   [PermissionZetaBillingManage,
    PermissionZetaBillingView,
    PermissionZetaDriversManage,
    PermissionZetaDriversView,
    PermissionZetaFinesAssign,
    PermissionZetaFinesChallenge,
    PermissionZetaFinesCreate,
    PermissionZetaFinesPay,
    PermissionZetaFinesView,
    PermissionZetaFleetEdit,
    PermissionZetaFleetView,
    PermissionZetaReportsView,
    PermissionZetaTeamManage,
    PermissionZetaTenantConfigure]"

definition sorted_constants :: "Permission list" where
  "sorted_constants = athens_constants @ helios_constants @ mercury_constants @ muse_constants @ zeta_constants"

lemmas constants_defs = athens_constants_def helios_constants_def mercury_constants_def muse_constants_def zeta_constants_def

section \<open>Evaluation\<close>

lemma upper_letters:
  "upper_ascii CHR ''a'' = CHR ''A''"
  "upper_ascii CHR ''b'' = CHR ''B''"
  "upper_ascii CHR ''c'' = CHR ''C''"
  "upper_ascii CHR ''d'' = CHR ''D''"
  "upper_ascii CHR ''e'' = CHR ''E''"
  "upper_ascii CHR ''f'' = CHR ''F''"
  "upper_ascii CHR ''g'' = CHR ''G''"
  "upper_ascii CHR ''h'' = CHR ''H''"
  "upper_ascii CHR ''i'' = CHR ''I''"
  "upper_ascii CHR ''j'' = CHR ''J''"
  "upper_ascii CHR ''k'' = CHR ''K''"
  "upper_ascii CHR ''l'' = CHR ''L''"
  "upper_ascii CHR ''m'' = CHR ''M''"
  "upper_ascii CHR ''n'' = CHR ''N''"
  "upper_ascii CHR ''o'' = CHR ''O''"
  "upper_ascii CHR ''p'' = CHR ''P''"
  "upper_ascii CHR ''q'' = CHR ''Q''"
  "upper_ascii CHR ''r'' = CHR ''R''"
  "upper_ascii CHR ''s'' = CHR ''S''"
  "upper_ascii CHR ''t'' = CHR ''T''"
  "upper_ascii CHR ''u'' = CHR ''U''"
  "upper_ascii CHR ''v'' = CHR ''V''"
  "upper_ascii CHR ''w'' = CHR ''W''"
  "upper_ascii CHR ''x'' = CHR ''X''"
  "upper_ascii CHR ''y'' = CHR ''Y''"
  "upper_ascii CHR ''z'' = CHR ''Z''"
  by code_simp+

lemma const_names:
  "permConstName PermissionAthensProjectDelete = ''PermissionAthensProjectDelete''"
  "permConstName PermissionAthensProjectUpdate = ''PermissionAthensProjectUpdate''"
  "permConstName PermissionAthensProjectView = ''PermissionAthensProjectView''"
  "permConstName PermissionAthensServicesDisable = ''PermissionAthensServicesDisable''"
  "permConstName PermissionAthensServicesEnable = ''PermissionAthensServicesEnable''"
  "permConstName PermissionAthensTeamInvite = ''PermissionAthensTeamInvite''"
  "permConstName PermissionAthensTeamRemove = ''PermissionAthensTeamRemove''"
  "permConstName PermissionHeliosExternalRegister = ''PermissionHeliosExternalRegister''"
  "permConstName PermissionHeliosExternalRevoke = ''PermissionHeliosExternalRevoke''"
  "permConstName PermissionHeliosExternalView = ''PermissionHeliosExternalView''"
  "permConstName PermissionHeliosInvitationsCreate = ''PermissionHeliosInvitationsCreate''"
  "permConstName PermissionHeliosInvitationsRevoke = ''PermissionHeliosInvitationsRevoke''"
  "permConstName PermissionHeliosMembersInvite = ''PermissionHeliosMembersInvite''"
  "permConstName PermissionHeliosMembersRemove = ''PermissionHeliosMembersRemove''"
  "permConstName PermissionHeliosMembersView = ''PermissionHeliosMembersView''"
  "permConstName PermissionHeliosRolesAssign = ''PermissionHeliosRolesAssign''"
  "permConstName PermissionHeliosRolesRevoke = ''PermissionHeliosRolesRevoke''"
  "permConstName PermissionHeliosTenantSwitchSelf = ''PermissionHeliosTenantSwitchSelf''"
  "permConstName PermissionHeliosTenantTransfer = ''PermissionHeliosTenantTransfer''"
  "permConstName PermissionMercuryApi_keysCreate = ''PermissionMercuryApi_keysCreate''"
  "permConstName PermissionMercuryApi_keysManage = ''PermissionMercuryApi_keysManage''"
  "permConstName PermissionMercuryApi_keysRead = ''PermissionMercuryApi_keysRead''"
  "permConstName PermissionMercuryApi_keysRevoke = ''PermissionMercuryApi_keysRevoke''"
  "permConstName PermissionMercuryAuth_configRead = ''PermissionMercuryAuth_configRead''"
  "permConstName PermissionMercuryAuth_config_appleCreate = ''PermissionMercuryAuth_config_appleCreate''"
  "permConstName PermissionMercuryAuth_config_appleUpdate = ''PermissionMercuryAuth_config_appleUpdate''"
  "permConstName PermissionMercuryAuth_config_forgot_passwordCreate = ''PermissionMercuryAuth_config_forgot_passwordCreate''"
  "permConstName PermissionMercuryAuth_config_forgot_passwordRead = ''PermissionMercuryAuth_config_forgot_passwordRead''"
  "permConstName PermissionMercuryAuth_config_forgot_passwordUpdate = ''PermissionMercuryAuth_config_forgot_passwordUpdate''"
  "permConstName PermissionMercuryAuth_config_oauthCreate = ''PermissionMercuryAuth_config_oauthCreate''"
  "permConstName PermissionMercuryAuth_config_oauthUpdate = ''PermissionMercuryAuth_config_oauthUpdate''"
  "permConstName PermissionMercuryConnectionReadSelf = ''PermissionMercuryConnectionReadSelf''"
  "permConstName PermissionMercuryConnection_googleRevokeSelf = ''PermissionMercuryConnection_googleRevokeSelf''"
  "permConstName PermissionMercuryConnection_imapCreateSelf = ''PermissionMercuryConnection_imapCreateSelf''"
  "permConstName PermissionMercuryConnection_imapRevokeSelf = ''PermissionMercuryConnection_imapRevokeSelf''"
  "permConstName PermissionMercuryConnection_oauthCompleteSelf = ''PermissionMercuryConnection_oauthCompleteSelf''"
  "permConstName PermissionMercuryConnection_oauthInitiateSelf = ''PermissionMercuryConnection_oauthInitiateSelf''"
  "permConstName PermissionMercuryConnection_oauthRefresh = ''PermissionMercuryConnection_oauthRefresh''"
  "permConstName PermissionMercuryConnection_slackPhrase_createSelf = ''PermissionMercuryConnection_slackPhrase_createSelf''"
  "permConstName PermissionMercuryConnection_slackRevokeSelf = ''PermissionMercuryConnection_slackRevokeSelf''"
  "permConstName PermissionMercuryEventsConsume = ''PermissionMercuryEventsConsume''"
  "permConstName PermissionMercuryService_clientsRead = ''PermissionMercuryService_clientsRead''"
  "permConstName PermissionMercuryUserDeleteSelf = ''PermissionMercuryUserDeleteSelf''"
  "permConstName PermissionMercuryUserReadSelf = ''PermissionMercuryUserReadSelf''"
  "permConstName PermissionMercuryUserWriteSelf = ''PermissionMercuryUserWriteSelf''"
  "permConstName PermissionMercuryUsersBatch_read = ''PermissionMercuryUsersBatch_read''"
  "permConstName PermissionMercuryUsersRead = ''PermissionMercuryUsersRead''"
  "permConstName PermissionMercuryUsersWrite = ''PermissionMercuryUsersWrite''"
  "permConstName PermissionMuseAuthorCreate = ''PermissionMuseAuthorCreate''"
  "permConstName PermissionMuseAuthorDelete = ''PermissionMuseAuthorDelete''"
  "permConstName PermissionMuseAuthorRead = ''PermissionMuseAuthorRead''"
  "permConstName PermissionMuseBlogCreate = ''PermissionMuseBlogCreate''"
  "permConstName PermissionMuseBlogRead = ''PermissionMuseBlogRead''"
  "permConstName PermissionMuseDraftsRead = ''PermissionMuseDraftsRead''"
  "permConstName PermissionMuseDraftsWrite = ''PermissionMuseDraftsWrite''"
  "permConstName PermissionMusePostsDelete = ''PermissionMusePostsDelete''"
  "permConstName PermissionMusePostsRead = ''PermissionMusePostsRead''"
  "permConstName PermissionMusePostsWrite = ''PermissionMusePostsWrite''"
  "permConstName PermissionZetaBillingManage = ''PermissionZetaBillingManage''"
  "permConstName PermissionZetaBillingView = ''PermissionZetaBillingView''"
  "permConstName PermissionZetaDriversManage = ''PermissionZetaDriversManage''"
  "permConstName PermissionZetaDriversView = ''PermissionZetaDriversView''"
  "permConstName PermissionZetaFinesAssign = ''PermissionZetaFinesAssign''"
  "permConstName PermissionZetaFinesChallenge = ''PermissionZetaFinesChallenge''"
  "permConstName PermissionZetaFinesCreate = ''PermissionZetaFinesCreate''"
  "permConstName PermissionZetaFinesPay = ''PermissionZetaFinesPay''"
  "permConstName PermissionZetaFinesView = ''PermissionZetaFinesView''"
  "permConstName PermissionZetaFleetEdit = ''PermissionZetaFleetEdit''"
  "permConstName PermissionZetaFleetView = ''PermissionZetaFleetView''"
  "permConstName PermissionZetaReportsView = ''PermissionZetaReportsView''"
  "permConstName PermissionZetaTeamManage = ''PermissionZetaTeamManage''"
  "permConstName PermissionZetaTenantConfigure = ''PermissionZetaTenantConfigure''"
  by (simp_all add: permConstName_def ToUpper_byte_def upper_letters perm_consts)

lemma const_quotes:
  "strconv_Quote uc PermissionAthensProjectDelete = dq ''athens:project:delete''"
  "strconv_Quote uc PermissionAthensProjectUpdate = dq ''athens:project:update''"
  "strconv_Quote uc PermissionAthensProjectView = dq ''athens:project:view''"
  "strconv_Quote uc PermissionAthensServicesDisable = dq ''athens:services:disable''"
  "strconv_Quote uc PermissionAthensServicesEnable = dq ''athens:services:enable''"
  "strconv_Quote uc PermissionAthensTeamInvite = dq ''athens:team:invite''"
  "strconv_Quote uc PermissionAthensTeamRemove = dq ''athens:team:remove''"
  "strconv_Quote uc PermissionHeliosExternalRegister = dq ''helios:external:register''"
  "strconv_Quote uc PermissionHeliosExternalRevoke = dq ''helios:external:revoke''"
  "strconv_Quote uc PermissionHeliosExternalView = dq ''helios:external:view''"
  "strconv_Quote uc PermissionHeliosInvitationsCreate = dq ''helios:invitations:create''"
  "strconv_Quote uc PermissionHeliosInvitationsRevoke = dq ''helios:invitations:revoke''"
  "strconv_Quote uc PermissionHeliosMembersInvite = dq ''helios:members:invite''"
  "strconv_Quote uc PermissionHeliosMembersRemove = dq ''helios:members:remove''"
  "strconv_Quote uc PermissionHeliosMembersView = dq ''helios:members:view''"
  "strconv_Quote uc PermissionHeliosRolesAssign = dq ''helios:roles:assign''"
  "strconv_Quote uc PermissionHeliosRolesRevoke = dq ''helios:roles:revoke''"
  "strconv_Quote uc PermissionHeliosTenantSwitchSelf = dq ''helios:tenant:switch:self''"
  "strconv_Quote uc PermissionHeliosTenantTransfer = dq ''helios:tenant:transfer''"
  "strconv_Quote uc PermissionMercuryApi_keysCreate = dq ''mercury:api_keys:create''"
  "strconv_Quote uc PermissionMercuryApi_keysManage = dq ''mercury:api_keys:manage''"
  "strconv_Quote uc PermissionMercuryApi_keysRead = dq ''mercury:api_keys:read''"
  "strconv_Quote uc PermissionMercuryApi_keysRevoke = dq ''mercury:api_keys:revoke''"
  "strconv_Quote uc PermissionMercuryAuth_configRead = dq ''mercury:auth_config:read''"
  "strconv_Quote uc PermissionMercuryAuth_config_appleCreate = dq ''mercury:auth_config_apple:create''"
  "strconv_Quote uc PermissionMercuryAuth_config_appleUpdate = dq ''mercury:auth_config_apple:update''"
  "strconv_Quote uc PermissionMercuryAuth_config_forgot_passwordCreate = dq ''mercury:auth_config_forgot_password:create''"
  "strconv_Quote uc PermissionMercuryAuth_config_forgot_passwordRead = dq ''mercury:auth_config_forgot_password:read''"
  "strconv_Quote uc PermissionMercuryAuth_config_forgot_passwordUpdate = dq ''mercury:auth_config_forgot_password:update''"
  "strconv_Quote uc PermissionMercuryAuth_config_oauthCreate = dq ''mercury:auth_config_oauth:create''"
  "strconv_Quote uc PermissionMercuryAuth_config_oauthUpdate = dq ''mercury:auth_config_oauth:update''"
  "strconv_Quote uc PermissionMercuryConnectionReadSelf = dq ''mercury:connection:read:self''"
  "strconv_Quote uc PermissionMercuryConnection_googleRevokeSelf = dq ''mercury:connection_google:revoke:self''"
  "strconv_Quote uc PermissionMercuryConnection_imapCreateSelf = dq ''mercury:connection_imap:create:self''"
  "strconv_Quote uc PermissionMercuryConnection_imapRevokeSelf = dq ''mercury:connection_imap:revoke:self''"
  "strconv_Quote uc PermissionMercuryConnection_oauthCompleteSelf = dq ''mercury:connection_oauth:complete:self''"
  "strconv_Quote uc PermissionMercuryConnection_oauthInitiateSelf = dq ''mercury:connection_oauth:initiate:self''"
  "strconv_Quote uc PermissionMercuryConnection_oauthRefresh = dq ''mercury:connection_oauth:refresh''"
  "strconv_Quote uc PermissionMercuryConnection_slackPhrase_createSelf = dq ''mercury:connection_slack:phrase_create:self''"
  "strconv_Quote uc PermissionMercuryConnection_slackRevokeSelf = dq ''mercury:connection_slack:revoke:self''"
  "strconv_Quote uc PermissionMercuryEventsConsume = dq ''mercury:events:consume''"
  "strconv_Quote uc PermissionMercuryService_clientsRead = dq ''mercury:service_clients:read''"
  "strconv_Quote uc PermissionMercuryUserDeleteSelf = dq ''mercury:user:delete:self''"
  "strconv_Quote uc PermissionMercuryUserReadSelf = dq ''mercury:user:read:self''"
  "strconv_Quote uc PermissionMercuryUserWriteSelf = dq ''mercury:user:write:self''"
  "strconv_Quote uc PermissionMercuryUsersBatch_read = dq ''mercury:users:batch_read''"
  "strconv_Quote uc PermissionMercuryUsersRead = dq ''mercury:users:read''"
  "strconv_Quote uc PermissionMercuryUsersWrite = dq ''mercury:users:write''"
  "strconv_Quote uc PermissionMuseAuthorCreate = dq ''muse:author:create''"
  "strconv_Quote uc PermissionMuseAuthorDelete = dq ''muse:author:delete''"
  "strconv_Quote uc PermissionMuseAuthorRead = dq ''muse:author:read''"
  "strconv_Quote uc PermissionMuseBlogCreate = dq ''muse:blog:create''"
  "strconv_Quote uc PermissionMuseBlogRead = dq ''muse:blog:read''"
  "strconv_Quote uc PermissionMuseDraftsRead = dq ''muse:drafts:read''"
  "strconv_Quote uc PermissionMuseDraftsWrite = dq ''muse:drafts:write''"
  "strconv_Quote uc PermissionMusePostsDelete = dq ''muse:posts:delete''"
  "strconv_Quote uc PermissionMusePostsRead = dq ''muse:posts:read''"
  "strconv_Quote uc PermissionMusePostsWrite = dq ''muse:posts:write''"
  "strconv_Quote uc PermissionZetaBillingManage = dq ''zeta:billing:manage''"
  "strconv_Quote uc PermissionZetaBillingView = dq ''zeta:billing:view''"
  "strconv_Quote uc PermissionZetaDriversManage = dq ''zeta:drivers:manage''"
  "strconv_Quote uc PermissionZetaDriversView = dq ''zeta:drivers:view''"
  "strconv_Quote uc PermissionZetaFinesAssign = dq ''zeta:fines:assign''"
  "strconv_Quote uc PermissionZetaFinesChallenge = dq ''zeta:fines:challenge''"
  "strconv_Quote uc PermissionZetaFinesCreate = dq ''zeta:fines:create''"
  "strconv_Quote uc PermissionZetaFinesPay = dq ''zeta:fines:pay''"
  "strconv_Quote uc PermissionZetaFinesView = dq ''zeta:fines:view''"
  "strconv_Quote uc PermissionZetaFleetEdit = dq ''zeta:fleet:edit''"
  "strconv_Quote uc PermissionZetaFleetView = dq ''zeta:fleet:view''"
  "strconv_Quote uc PermissionZetaReportsView = dq ''zeta:reports:view''"
  "strconv_Quote uc PermissionZetaTeamManage = dq ''zeta:team:manage''"
  "strconv_Quote uc PermissionZetaTenantConfigure = dq ''zeta:tenant:configure''"
  by (simp_all add: strconv_Quote_plain plain_char_def perm_consts)

lemma const_order:
  "PermissionAthensProjectDelete \<le> PermissionAthensProjectUpdate"
  "PermissionAthensProjectUpdate \<le> PermissionAthensProjectView"
  "PermissionAthensProjectView \<le> PermissionAthensServicesDisable"
  "PermissionAthensServicesDisable \<le> PermissionAthensServicesEnable"
  "PermissionAthensServicesEnable \<le> PermissionAthensTeamInvite"
  "PermissionAthensTeamInvite \<le> PermissionAthensTeamRemove"
  "PermissionAthensTeamRemove \<le> PermissionHeliosExternalRegister"
  "PermissionHeliosExternalRegister \<le> PermissionHeliosExternalRevoke"
  "PermissionHeliosExternalRevoke \<le> PermissionHeliosExternalView"
  "PermissionHeliosExternalView \<le> PermissionHeliosInvitationsCreate"
  "PermissionHeliosInvitationsCreate \<le> PermissionHeliosInvitationsRevoke"
  "PermissionHeliosInvitationsRevoke \<le> PermissionHeliosMembersInvite"
  "PermissionHeliosMembersInvite \<le> PermissionHeliosMembersRemove"
  "PermissionHeliosMembersRemove \<le> PermissionHeliosMembersView"
  "PermissionHeliosMembersView \<le> PermissionHeliosRolesAssign"
  "PermissionHeliosRolesAssign \<le> PermissionHeliosRolesRevoke"
  "PermissionHeliosRolesRevoke \<le> PermissionHeliosTenantSwitchSelf"
  "PermissionHeliosTenantSwitchSelf \<le> PermissionHeliosTenantTransfer"
  "PermissionHeliosTenantTransfer \<le> PermissionMercuryApi_keysCreate"
  "PermissionMercuryApi_keysCreate \<le> PermissionMercuryApi_keysManage"
  "PermissionMercuryApi_keysManage \<le> PermissionMercuryApi_keysRead"
  "PermissionMercuryApi_keysRead \<le> PermissionMercuryApi_keysRevoke"
  "PermissionMercuryApi_keysRevoke \<le> PermissionMercuryAuth_configRead"
  "PermissionMercuryAuth_configRead \<le> PermissionMercuryAuth_config_appleCreate"
  "PermissionMercuryAuth_config_appleCreate \<le> PermissionMercuryAuth_config_appleUpdate"
  "PermissionMercuryAuth_config_appleUpdate \<le> PermissionMercuryAuth_config_forgot_passwordCreate"
  "PermissionMercuryAuth_config_forgot_passwordCreate \<le> PermissionMercuryAuth_config_forgot_passwordRead"
  "PermissionMercuryAuth_config_forgot_passwordRead \<le> PermissionMercuryAuth_config_forgot_passwordUpdate"
  "PermissionMercuryAuth_config_forgot_passwordUpdate \<le> PermissionMercuryAuth_config_oauthCreate"
  "PermissionMercuryAuth_config_oauthCreate \<le> PermissionMercuryAuth_config_oauthUpdate"
  "PermissionMercuryAuth_config_oauthUpdate \<le> PermissionMercuryConnectionReadSelf"
  "PermissionMercuryConnectionReadSelf \<le> PermissionMercuryConnection_googleRevokeSelf"
  "PermissionMercuryConnection_googleRevokeSelf \<le> PermissionMercuryConnection_imapCreateSelf"
  "PermissionMercuryConnection_imapCreateSelf \<le> PermissionMercuryConnection_imapRevokeSelf"
  "PermissionMercuryConnection_imapRevokeSelf \<le> PermissionMercuryConnection_oauthCompleteSelf"
  "PermissionMercuryConnection_oauthCompleteSelf \<le> PermissionMercuryConnection_oauthInitiateSelf"
  "PermissionMercuryConnection_oauthInitiateSelf \<le> PermissionMercuryConnection_oauthRefresh"
  "PermissionMercuryConnection_oauthRefresh \<le> PermissionMercuryConnection_slackPhrase_createSelf"
  "PermissionMercuryConnection_slackPhrase_createSelf \<le> PermissionMercuryConnection_slackRevokeSelf"
  "PermissionMercuryConnection_slackRevokeSelf \<le> PermissionMercuryEventsConsume"
  "PermissionMercuryEventsConsume \<le> PermissionMercuryService_clientsRead"
  "PermissionMercuryService_clientsRead \<le> PermissionMercuryUserDeleteSelf"
  "PermissionMercuryUserDeleteSelf \<le> PermissionMercuryUserReadSelf"
  "PermissionMercuryUserReadSelf \<le> PermissionMercuryUserWriteSelf"
  "PermissionMercuryUserWriteSelf \<le> PermissionMercuryUsersBatch_read"
  "PermissionMercuryUsersBatch_read \<le> PermissionMercuryUsersRead"
  "PermissionMercuryUsersRead \<le> PermissionMercuryUsersWrite"
  "PermissionMercuryUsersWrite \<le> PermissionMuseAuthorCreate"
  "PermissionMuseAuthorCreate \<le> PermissionMuseAuthorDelete"
  "PermissionMuseAuthorDelete \<le> PermissionMuseAuthorRead"
  "PermissionMuseAuthorRead \<le> PermissionMuseBlogCreate"
  "PermissionMuseBlogCreate \<le> PermissionMuseBlogRead"
  "PermissionMuseBlogRead \<le> PermissionMuseDraftsRead"
  "PermissionMuseDraftsRead \<le> PermissionMuseDraftsWrite"
  "PermissionMuseDraftsWrite \<le> PermissionMusePostsDelete"
  "PermissionMusePostsDelete \<le> PermissionMusePostsRead"
  "PermissionMusePostsRead \<le> PermissionMusePostsWrite"
  "PermissionMusePostsWrite \<le> PermissionZetaBillingManage"
  "PermissionZetaBillingManage \<le> PermissionZetaBillingView"
  "PermissionZetaBillingView \<le> PermissionZetaDriversManage"
  "PermissionZetaDriversManage \<le> PermissionZetaDriversView"
  "PermissionZetaDriversView \<le> PermissionZetaFinesAssign"
  "PermissionZetaFinesAssign \<le> PermissionZetaFinesChallenge"
  "PermissionZetaFinesChallenge \<le> PermissionZetaFinesCreate"
  "PermissionZetaFinesCreate \<le> PermissionZetaFinesPay"
  "PermissionZetaFinesPay \<le> PermissionZetaFinesView"
  "PermissionZetaFinesView \<le> PermissionZetaFleetEdit"
  "PermissionZetaFleetEdit \<le> PermissionZetaFleetView"
  "PermissionZetaFleetView \<le> PermissionZetaReportsView"
  "PermissionZetaReportsView \<le> PermissionZetaTeamManage"
  "PermissionZetaTeamManage \<le> PermissionZetaTenantConfigure"
  "PermissionHeliosRolesRevoke \<le> PermissionHeliosTenantTransfer"
  "PermissionMercuryAuth_config_oauthUpdate \<le> PermissionMercuryConnection_oauthRefresh"
  "PermissionMercuryConnection_oauthRefresh \<le> PermissionMercuryEventsConsume"
  "PermissionMercuryService_clientsRead \<le> PermissionMercuryUsersBatch_read"
  "PermissionAthensTeamRemove \<le> PermissionHeliosExternalView"
  "PermissionHeliosRolesRevoke \<le> PermissionMercuryApi_keysCreate"
  "PermissionMercuryApi_keysCreate \<le> PermissionMercuryApi_keysRead"
  "PermissionMercuryService_clientsRead \<le> PermissionMercuryUsersRead"
  "PermissionMuseAuthorCreate \<le> PermissionMuseAuthorRead"
  "PermissionAthensProjectView \<le> PermissionMercuryApi_keysRead"
  "PermissionMercuryApi_keysRead \<le> PermissionMercuryService_clientsRead"
  "PermissionMercuryUsersRead \<le> PermissionMuseAuthorCreate"
  "PermissionMercuryUsersRead \<le> PermissionMuseAuthorRead"
  "PermissionMuseAuthorRead \<le> PermissionMuseBlogRead"
  by (simp_all add: perm_consts)

lemma sorted_constants_sorted: "sorted sorted_constants"
  by (simp only: sorted_constants_def constants_defs append.simps sorted2_simps const_order simp_thms)

lemma listed_file:
  "names_of_scope ''self'' (listed_perms contract_of_file) = SELF_PERMISSIONS"
  "names_of_scope ''platform'' (listed_perms contract_of_file) = PLATFORM_PERMISSIONS"
  "names_of_scope ''project'' (listed_perms contract_of_file) = PROJECT_PERMISSIONS"
  "names_of_scope ''platform/project'' (listed_perms contract_of_file) = DUAL_PERMISSIONS"
  by (simp_all add: listed_perms_def contract_of_file_def contract_permissions_def map_index_def
      ScopeSelf_def ScopePlatform_def ScopeProject_def ScopePlatformProject_def
      SELF_PERMISSIONS_def PLATFORM_PERMISSIONS_def PROJECT_PERMISSIONS_def DUAL_PERMISSIONS_def)

lemma service_constants:
  "mset (map p_Name (map_index [] (map_of contract_permissions) ''athens'')) = mset athens_constants"
  "mset (map p_Name (map_index [] (map_of contract_permissions) ''helios'')) = mset helios_constants"
  "mset (map p_Name (map_index [] (map_of contract_permissions) ''mercury'')) = mset mercury_constants"
  "mset (map p_Name (map_index [] (map_of contract_permissions) ''muse'')) = mset muse_constants"
  "mset (map p_Name (map_index [] (map_of contract_permissions) ''zeta'')) = mset zeta_constants"
  by (simp_all add: constants_defs contract_permissions_def map_index_def add_mset_commute)

lemma sorted_constants_listed: "sort (map p_Name (listed_perms contract_of_file)) = sorted_constants"
proof (rule properties_for_sort [OF _ sorted_constants_sorted])
  show "mset sorted_constants = mset (map p_Name (listed_perms contract_of_file))"
    by (simp add: sorted_constants_def listed_perms_def contract_of_file_def
        service_constants [unfolded mset_map])
qed

lemma flatten_file:
  "flatten contract_of_file =
     \<lparr>allPerms = sorted_constants, selfPerms = SELF_PERMISSIONS, platformPerms = PLATFORM_PERMISSIONS,
      projectPerms = PROJECT_PERMISSIONS, dualPerms = DUAL_PERMISSIONS\<rparr>"
  by (simp add: flatten_eq listed_file sorted_constants_listed)

lemma role_names:
  "pascalizeRole uc RoleOwner = ''Owner''" "pascalizeRole uc RoleAdmin = ''Admin''"
  "pascalizeRole uc RoleEditor = ''Editor''" "pascalizeRole uc RoleViewer = ''Viewer''"
  "strconv_Quote uc RoleOwner = dq ''OWNER''" "strconv_Quote uc RoleAdmin = dq ''ADMIN''"
  "strconv_Quote uc RoleEditor = dq ''EDITOR''" "strconv_Quote uc RoleViewer = dq ''VIEWER''"
proof -
  have "map lower_ascii ''WNER'' = ''wner''" "map lower_ascii ''DMIN'' = ''dmin''"
    "map lower_ascii ''DITOR'' = ''ditor''" "map lower_ascii ''IEWER'' = ''iewer''"
    "ToUpper_byte CHR ''O'' = ''O''" "ToUpper_byte CHR ''A'' = ''A''"
    "ToUpper_byte CHR ''E'' = ''E''" "ToUpper_byte CHR ''V'' = ''V''"
    by code_simp+
  then show "pascalizeRole uc RoleOwner = ''Owner''" "pascalizeRole uc RoleAdmin = ''Admin''"
    "pascalizeRole uc RoleEditor = ''Editor''" "pascalizeRole uc RoleViewer = ''Viewer''"
    by (simp_all add: perm_consts ToLower_ascii del: list.map)
qed (simp_all add: perm_consts strconv_Quote_plain plain_char_def)

lemma roles_of_file: "c_Roles contract_of_file = [RoleOwner, RoleAdmin, RoleEditor, RoleViewer]"
  by (simp add: contract_of_file_def Roles_def)

lemma block_header: "emit_header ''2026-07-02'' contract_of_file = go_header"
  by (simp add: emit_header_def go_header_def contract_of_file_def)

lemma block_roles: "emit_roles uc contract_of_file = go_roles"
  by (simp add: emit_roles_def go_roles_def roles_of_file role_names)

lemma block_perm_consts: "emit_perm_consts uc contract_of_file = go_perm_consts"
  by (simp add: emit_perm_consts_def go_perm_consts_def flatten_file sorted_constants_def constants_defs
      const_names const_quotes)

lemma block_scopes: "emit_scopes = go_scopes"
  by (simp add: emit_scopes_def go_scopes_def)

lemma block_tuples: "emit_tuples contract_of_file = go_tuples"
  by (simp add: emit_tuples_def emitTuple_def go_tuples_def flatten_file const_names
      SELF_PERMISSIONS_def PLATFORM_PERMISSIONS_def PROJECT_PERMISSIONS_def DUAL_PERMISSIONS_def)

lemma block_PERM_SCOPE: "emit_PERM_SCOPE contract_of_file = go_PERM_SCOPE"
  by (simp add: emit_PERM_SCOPE_def go_PERM_SCOPE_def flatten_file const_names
      SELF_PERMISSIONS_def PLATFORM_PERMISSIONS_def PROJECT_PERMISSIONS_def DUAL_PERMISSIONS_def)

lemma block_Roles: "emit_Roles uc contract_of_file = go_Roles"
  by (simp add: emit_Roles_def go_Roles_def roles_of_file role_names)

lemma block_predicates: "emit_predicates uc contract_of_file = go_predicates"
  by (simp add: emit_predicates_def go_predicates_def roles_of_file role_names)

lemma block_functions: "emit_functions = go_functions"
  by (simp add: emit_functions_def go_functions_def)

lemma role_lists_sorted:
  "sorted (map_index [] (map_of ROLE_PERMISSIONS) RoleOwner)"
  "sorted (map_index [] (map_of ROLE_PERMISSIONS) RoleAdmin)"
  "sorted (map_index [] (map_of ROLE_PERMISSIONS) RoleEditor)"
  "sorted (map_index [] (map_of ROLE_PERMISSIONS) RoleViewer)"
  by (simp_all only: map_index_def ROLE_PERMISSIONS_def map_of.simps fst_conv snd_conv fun_upd_apply
      role_consts_distinct if_True if_False option.case sorted2_simps const_order simp_thms)

lemma block_ROLE_PERMISSIONS: "emit_ROLE_PERMISSIONS uc contract_of_file = go_ROLE_PERMISSIONS"
proof -
  have "c_RolePerms contract_of_file = map_of ROLE_PERMISSIONS"
    by (simp add: contract_of_file_def)
  then have entry: "emit_role_entry uc contract_of_file r =
      [tab (''Role'' @ pascalizeRole uc r @ '': {'')]
        @ map (\<lambda>p. tab (tab (permConstName p @ '',''))) (map_index [] (map_of ROLE_PERMISSIONS) r) @ [tab ''},'']"
    if "sorted (map_index [] (map_of ROLE_PERMISSIONS) r)" for r
    using that by (simp add: emit_role_entry_def Let_def sorted_sort_id)
  show ?thesis
    by (simp add: emit_ROLE_PERMISSIONS_def go_ROLE_PERMISSIONS_def roles_of_file entry role_lists_sorted role_names,
        simp add: map_index_def ROLE_PERMISSIONS_def const_names)
qed

section \<open>Properties\<close>

lemma file_regenerated: "emit_lines uc ''2026-07-02'' contract_of_file = role_permissions_go"
  by (simp only: emit_lines_def role_permissions_go_def block_header block_roles block_perm_consts block_scopes
      block_tuples block_PERM_SCOPE block_Roles block_predicates block_ROLE_PERMISSIONS block_functions)

text \<open>
  C12: The committed \<open>role_permissions.go\<close> is, byte for byte, what the code generator prints on
  2026-07-02 for a contract of version 1.6.0, so nothing in it was edited by hand; and the lists
  that the generator computes from that contract are the tables that the rest of the
  development reasons about.
\<close>

theorem committed_file_is_generated:
  "emit uc ''2026-07-02'' contract_of_file = Inr (lines_text role_permissions_go)
   \<and> selfPerms (flatten contract_of_file) = SELF_PERMISSIONS
   \<and> platformPerms (flatten contract_of_file) = PLATFORM_PERMISSIONS
   \<and> projectPerms (flatten contract_of_file) = PROJECT_PERMISSIONS
   \<and> dualPerms (flatten contract_of_file) = DUAL_PERMISSIONS
   \<and> map fst PERM_SCOPE = SELF_PERMISSIONS @ PLATFORM_PERMISSIONS @ PROJECT_PERMISSIONS @ DUAL_PERMISSIONS
   \<and> c_RolePerms contract_of_file = map_of ROLE_PERMISSIONS"
proof -
  have "c_Version contract_of_file \<noteq> ''''" "c_Roles contract_of_file \<noteq> []"
    "c_RolePerms contract_of_file = map_of ROLE_PERMISSIONS"
    by (simp_all add: contract_of_file_def Roles_def)
  moreover have "map fst PERM_SCOPE = SELF_PERMISSIONS @ PLATFORM_PERMISSIONS @ PROJECT_PERMISSIONS @ DUAL_PERMISSIONS"
    by (simp add: PERM_SCOPE_def SELF_PERMISSIONS_def PLATFORM_PERMISSIONS_def PROJECT_PERMISSIONS_def
        DUAL_PERMISSIONS_def)
  ultimately show ?thesis
    by (simp add: emit_def file_regenerated flatten_file)
qed

lemma header_lines:
  "lines_text (emit_lines uc date c) =
     ''// Code generated by permission-contract/codegen-go.mjs DO NOT EDIT.'' @ CHR 0x0A #
     ''// Source: permission-contract v'' @ c_Version c @ CHR 0x0A #
     ''// Generated at: '' @ date @ CHR 0x0A # lines_text (drop 3 (emit_lines uc date c))"
  by (simp add: emit_lines_def emit_header_def)

text \<open>
  C32: The drift check of the pipeline compares the generator's output with the committed file,
  which holds the date of its generation and the version of the contract: whatever the contract,
  the outputs agree only if the check runs on 2026-07-02 and the contract's version is 1.6.0.
  (The pipeline fetches version 1.5.0.)
\<close>

theorem drift_check_passes_only:
  assumes "emit uc date c = Inr (lines_text role_permissions_go)"
    and "CHR 0x0A \<notin> set (c_Version c)" and "CHR 0x0A \<notin> set date"
  shows "c_Version c = ''1.6.0'' \<and> date = ''2026-07-02''"
proof -
  have "lines_text (emit_lines uc date c) = lines_text (emit_lines uc ''2026-07-02'' contract_of_file)"
    using assms(1) by (simp add: emit_def file_regenerated split: if_splits)
  then have eq: "c_Version c @ CHR 0x0A # (''// Generated at: '' @ date @ CHR 0x0A # lines_text (drop 3 (emit_lines uc date c)))
     = ''1.6.0'' @ CHR 0x0A # (''// Generated at: '' @ ''2026-07-02'' @ CHR 0x0A
         # lines_text (drop 3 (emit_lines uc ''2026-07-02'' contract_of_file)))"
    unfolding header_lines by (simp add: contract_of_file_def)
  have nl: "CHR 0x0A \<notin> set ''1.6.0''" "CHR 0x0A \<notin> set ''2026-07-02''" by simp_all
  from append_sep_inj [OF assms(2) nl(1) eq] have "c_Version c = ''1.6.0''"
    and "date @ CHR 0x0A # lines_text (drop 3 (emit_lines uc date c)) = ''2026-07-02'' @ CHR 0x0A
         # lines_text (drop 3 (emit_lines uc ''2026-07-02'' contract_of_file))"
    by simp_all
  with append_sep_inj [OF assms(3) nl(2)] show ?thesis by blast
qed

theorem drift_check_passes_only_witness:
  "c_Version contract_of_file = ''1.6.0''"
proof -
  have "emit uc ''2026-07-02'' contract_of_file = Inr (lines_text role_permissions_go)" for uc
    by (simp add: emit_def file_regenerated, simp add: contract_of_file_def Roles_def)
  from drift_check_passes_only [OF this] show ?thesis
    by (simp add: contract_of_file_def)
qed

end
