(* ===== verification/Console_Logger.thy ===== *)
theory Console_Logger
  imports Permission_Cache Go_Strings
begin

text \<open>
  \<open>ConsoleLogger\<close> of \<open>helios_permissions/redis_cache.go\<close>, with the part of \<open>fmt.Sprintf\<close> that its
  messages exercise: a format without verbs, which none of the messages of the package has, to which the
  key/value pairs are passed as operands. The \<open>log\<close> package (its prefix with the time, and the
  standard error) and the names of the dynamic types of errors are parameters.
\<close>

text \<open>An operand of \<open>Sprintf\<close>: the name of its type and its text under \<open>%v\<close>; \<^const>\<open>None\<close> for nil.\<close>

type_synonym operand = "(string \<times> string) option"

definition string_operand :: "string \<Rightarrow> operand" where
  "string_operand s = Some (''string'', s)"

fun operands :: "(go_error \<Rightarrow> string) \<Rightarrow> log_field \<Rightarrow> operand list" where
  "operands type_name (LString k v) = [string_operand k, string_operand v]"
| "operands type_name (LError k (Some e)) = [string_operand k, Some (type_name e, Error_text e)]"
| "operands type_name (LError k None) = [string_operand k, None]"
| "operands type_name (LInt k n) = [string_operand k, Some (''int64'', FormatInt n)]"
| "operands type_name (LStrings k vs) = [string_operand k, Some (''[]string'', ''['' @ Join '' '' vs @ '']'')]"

fun extra_operand :: "operand \<Rightarrow> string" where
  "extra_operand None = ''<nil>''"
| "extra_operand (Some (ty, text)) = ty @ ''='' @ text"

text \<open>\<open>fmt.Sprintf\<close> for a format without verbs: the operands are left over.\<close>

definition Sprintf :: "string \<Rightarrow> operand list \<Rightarrow> string" where
  "Sprintf format args =
     format @ (if args = [] then [] else ''%!(EXTRA '' @ Join '', '' (map extra_operand args) @ '')'')"

definition ConsoleLogger :: "(string \<Rightarrow> 'w \<Rightarrow> 'w) \<Rightarrow> (go_error \<Rightarrow> string) \<Rightarrow> 'w Logger" where
  "ConsoleLogger log_write type_name =
     (let Println = (\<lambda>level msg kv. log_write
            (level @ '' '' @ Sprintf msg (concat (map (operands type_name) kv)) @ [CHR 0x0A])) in
      \<lparr>log_Debug = Println ''[DEBUG]'', log_Info = Println ''[INFO]'',
       log_Warn = Println ''[WARN]'', log_Error = Println ''[ERROR]''\<rparr>)"

text \<open>
  Every message of the package has key/value pairs, and each then ends in the report of \<open>Sprintf\<close>
  that it was given operands that the format does not use.
\<close>

lemma console_line_has_extra:
  assumes "kv \<noteq> []"
  shows "log_Warn (ConsoleLogger log_write type_name) msg kv w
    = log_write (''[WARN] '' @ msg @ ''%!(EXTRA ''
        @ Join '', '' (map extra_operand (concat (map (operands type_name) kv))) @ '')'' @ [CHR 0x0A]) w"
proof -
  have "operands type_name f \<noteq> []" for f by (cases "(type_name, f)" rule: operands.cases) auto
  then have "concat (map (operands type_name) kv) \<noteq> []" using assms by (cases kv) auto
  then have "Sprintf msg (concat (map (operands type_name) kv)) = msg @ ''%!(EXTRA ''
      @ Join '', '' (map extra_operand (concat (map (operands type_name) kv))) @ '')''"
    unfolding Sprintf_def by (simp only: if_False)
  then show ?thesis by (simp add: ConsoleLogger_def Let_def)
qed

end
