(* ===== verification/Spec2Isabelle.thy ===== *)
theory Spec2Isabelle
  imports Provenance Factory Generated_File Go_Duration Console_Logger
begin

text \<open>
  A model of the Go SDK of the Helios permission service (package \<open>helios_permissions\<close>) and of
  the program \<open>cmd/codegen\<close> that generates its permission tables.

  A host service asks the SDK whether a user has a permission in a tenant. The client
  (\<open>permission_client.go\<close>) grants universal permissions at once, reads other ones from a cache
  (\<open>cache.go\<close>: in memory, or in a Redis that Helios itself writes to), and on a miss fetches them
  from Helios (\<open>client.go\<close>, an HTTP request signed with HMAC-SHA256), coalescing overlapping
  fetches of one key. \<open>factory.go\<close> wires the three. The vocabulary of permissions and roles
  (\<open>role_permissions.go\<close>) is printed by \<open>cmd/codegen\<close> from a contract in JSON.

  \<^bold>\<open>Theories and source files.\<close>
  \<^item> \<open>Go_Prelude\<close>, \<open>Go_Errors\<close>, \<open>Go_Duration\<close>: slices with nil, map indexing, error values and panics
    (\<open>HeliosUnreachableError\<close> of \<open>client.go\<close>, \<open>formatError\<close>), \<open>duration.go\<close>.
  \<^item> \<open>Go_Json\<close>, \<open>Go_Strings\<close>, \<open>Go_Crypto\<close>: what the program uses of \<open>encoding/json\<close>,
    \<open>unicode/utf8\<close>, \<open>strings\<close>, \<open>strconv\<close>, \<open>sort\<close>, \<open>crypto/sha256\<close>, \<open>crypto/hmac\<close> and \<open>encoding/hex\<close>, on byte
    strings.
  \<^item> \<open>Role_Permissions\<close>: the constants, tables and functions of \<open>role_permissions.go\<close>.
  \<^item> \<open>Permission_Cache\<close>: the interface \<open>PermissionCache\<close> and its contract, the locales
    \<open>permission_cache\<close> and \<open>tenant_cache\<close>.
  \<^item> \<open>In_Memory_Cache\<close>: \<open>in_memory_cache.go\<close>, an interpretation of the contract and a refinement of a
    map from (user, tenant) pairs.
  \<^item> \<open>Redis_Cache\<close>: \<open>redis_cache.go\<close> over a go-redis client that is a parameter, and what is assumed of
    it (the locales \<open>redis_server\<close> and \<open>redis_backed\<close>). \<open>Redis_Contract\<close>: the methods against that
    server, the end of the SCAN loop, the sublocale that makes it a tenant cache, and a reference server that
    behaves as documented, on which the locales are interpreted. \<open>Console_Logger\<close>: the logger of
    \<open>redis_cache.go\<close> that prints.
  \<^item> \<open>Helios_Resolution\<close>, \<open>Helios_Client\<close>: \<open>client.go\<close>: the resolution and its decoding, the constructor,
    the signed request, the reading of each response.
  \<^item> \<open>Permission_Client\<close>: \<open>permission_client.go\<close>, each method for a call that runs alone, and the client's
    lemmas, proved once for any cache with the contract (the locales \<open>client_on_cache\<close> and
    \<open>client_on_tenant_cache\<close>). \<open>Client_Contract\<close>: their interpretations on both caches, and the
    properties of the client.
  \<^item> \<open>In_Flight\<close>: \<open>inFlight\<close> and \<open>fetchAndCache\<close> for overlapping calls, a state machine of callers and
    goroutines with its invariants. \<open>Coalescing\<close>: its properties, over its reachable states and over
    runs with a record of what Helios answered each goroutine. \<open>Provenance\<close>: the same machine together
    with writes and invalidations, and where the permissions it returns come from.
  \<^item> \<open>Factory\<close>: \<open>Create\<close> and \<open>Close\<close> of \<open>factory.go\<close>.
  \<^item> \<open>Codegen\<close>: \<open>cmd/codegen/main.go\<close>, line by line. \<open>Generated_File\<close>: the committed
    \<open>role_permissions.go\<close> as text.

  \<^bold>\<open>How the model reads the code.\<close>
  Strings are byte strings; Go's \<open>int\<close>, \<open>time.Duration\<close> and the Redis cursor are 64-bit words. A nil
  pointer, interface, slice or error is \<^const>\<open>None\<close>; a method returns its results as a tuple, with
  the world it leaves: the type of the world is a parameter, and the loggers, the network, the
  clock and the Redis server are functions on it. A Go map is an association list where its
  enumeration matters and a map otherwise. A panic is a branch of the result type.

  \<^bold>\<open>What the lemmas show.\<close>
  For a single call: a miss fetches once and is cached, hits do not touch Helios, failed fetches
  are reported and not cached, the three readers agree, writes and invalidations are visible, a
  tenant is invalidated exactly, and an active member is granted what his role has. For
  overlapping calls: one fetch at a time for a key, all its callers return what Helios answered to
  it, every call returns, and a lone call does what the sequential model does. For the parts: refinement
  of the in-memory cache, termination and exactness of the Redis scan, the table of responses,
  what is signed and what a signature determines, when \<open>Create\<close> succeeds and what it closes, the scope partition and the chain
  of roles. For the generator: its exit codes, the names of constants, which permissions reach
  which table; and that the committed file is, byte for byte, its output for a contract. Some
  properties state what the code does and its comments deny: \<open>StaleOnError\<close> has no effect, identifiers
  with a colon collide, a corrupt or null entry in Redis stays, a fetch under way can undo an
  invalidation, callers of one pair can each make a fetch.

  \<^bold>\<open>Conditions.\<close>
  The properties of the client hold on a cache that keeps the contract and answers, which both
  caches are shown to do: the one in memory always, the Redis one on a server that behaves as
  documented (a DEL needs at least one key; nothing is assumed of one without), with a time to
  live that fits a duration and a logger that leaves the server alone. A slice that is to be read
  back is not nil, and UTF-8 text on Redis. What distinguishes users and tenants needs identifiers
  without a colon and, for the tenant scan of Redis, without a pattern character. An entry
  stays what it is until it is overwritten or dropped, by this client or anyone else: the
  properties of later reads are of any world in which it is still in place. What a property of a
  single read says of the outage of a cache holds for any implementation.

  \<^bold>\<open>Bounds.\<close>
  No fuel is used. The SCAN loop, which only the server can end, is a partial function whose result
  is \<^const>\<open>None\<close> when it does not return; that it returns is proved for a server whose iterations end.
  The JSON reader has the nesting limit of the library, the body of an answer its limit of one
  megabyte. The steps of the concurrent client are bounded by eight for each call.

  \<^bold>\<open>Not modelled.\<close>
  \<open>timeFormat\<close>, which only tests use; the internals of
  go-redis, \<open>net/http\<close> and the network (parameters, with hypotheses from their documentation
  where a property needs them); the texts of the JSON decoder's errors; the expiry of entries
  otherwise than as a change of the world by the environment; the sharing of a slice's array
  between a cache and its callers (\<open>Get\<close> and \<open>Set\<close> of the in-memory cache copy it); the scheduler, beyond
  arbitrary interleaving; test code, the pipeline and the documents.
\<close>

end
